(* ===== verification/Prelude.thy ===== *)
theory Prelude
  imports Main "HOL-Library.Word" "HOL-Library.Monad_Syntax"
begin

text \<open>
  Shared vocabulary of the development: the machine integers of the source, byte
  buffers, and the Rust operations on slices that every component uses.

  \<^item> A Rust computation that can panic has type \<open>'a option\<close>; \<open>None\<close> is the panic
    (a slice out of range, an \<open>unwrap\<close> of an error, a failed \<open>expect\<close>). The
    do-notation of \<^theory_text>\<open>Monad_Syntax\<close> threads it.
  \<^item> A \<open>Result<A, E>\<close> is the sum \<open>'e + 'a\<close> with \<open>Inl\<close> for \<open>Err\<close>.
  \<^item> A \<open>&mut [u8]\<close> argument is passed in as a byte list and the list after the call is
    part of the result, on error paths too.
  \<^item> \<open>usize\<close> is \<open>nat\<close>: it only measures buffers, whose length Rust keeps below
    \<open>isize::MAX\<close>. Fixed-width integers are words.
\<close>

unbundle bit_operations_syntax

type_synonym u8 = "8 word"
type_synonym u16 = "16 word"
type_synonym u32 = "32 word"
type_synonym u64 = "64 word"
type_synonym bytes = "u8 list"

named_theorems buf_simps \<open>reads and writes of byte ranges\<close>
named_theorems fill_simps \<open>buffers filled from the front\<close>
named_theorems len_simps \<open>lengths of the byte strings of the model\<close>

section \<open>Slices of buffers\<close>

text \<open>\<open>xs[i]\<close>, \<open>&xs[a..b]\<close> and \<open>xs[a..b].copy_from_slice(ys)\<close>, with their panics.\<close>

definition sub :: "'a list \<Rightarrow> nat \<Rightarrow> nat \<Rightarrow> 'a list" where
  "sub xs a b = take (b - a) (drop a xs)"

definition patch :: "'a list \<Rightarrow> nat \<Rightarrow> 'a list \<Rightarrow> 'a list" where
  "patch xs a ys = take a xs @ ys @ drop (a + length ys) xs"

definition index_at :: "'a list \<Rightarrow> nat \<Rightarrow> 'a option" where
  "index_at xs i = (if i < length xs then Some (xs ! i) else None)"

definition subslice :: "'a list \<Rightarrow> nat \<Rightarrow> nat \<Rightarrow> 'a list option" where
  "subslice xs a b = (if a \<le> b \<and> b \<le> length xs then Some (sub xs a b) else None)"

definition copy_into :: "'a list \<Rightarrow> nat \<Rightarrow> nat \<Rightarrow> 'a list \<Rightarrow> 'a list option" where
  "copy_into xs a b ys =
     (if a \<le> b \<and> b \<le> length xs \<and> length ys = b - a then Some (patch xs a ys) else None)"

lemma length_sub [len_simps, simp]: "b \<le> length xs \<Longrightarrow> length (sub xs a b) = b - a"
  by (simp add: sub_def)

lemma length_patch [len_simps, simp]:
  "a + length ys \<le> length xs \<Longrightarrow> length (patch xs a ys) = length xs"
  by (simp add: patch_def)

lemma index_at_Some [buf_simps]: "i < length xs \<Longrightarrow> index_at xs i = Some (xs ! i)"
  by (simp add: index_at_def)

lemma subslice_Some [buf_simps]: "a \<le> b \<Longrightarrow> b \<le> length xs \<Longrightarrow> subslice xs a b = Some (sub xs a b)"
  by (simp add: subslice_def)

lemma copy_into_Some [buf_simps]:
  "a \<le> b \<Longrightarrow> b \<le> length xs \<Longrightarrow> length ys = b - a \<Longrightarrow> copy_into xs a b ys = Some (patch xs a ys)"
  by (simp add: copy_into_def)

lemma sub_all [buf_simps]: "b = length xs \<Longrightarrow> sub xs 0 b = xs"
  by (simp add: sub_def)

lemma sub_full [simp]: "sub xs 0 (length xs) = xs"
  by (simp add: sub_def)

lemma sub_patch_same [buf_simps]:
  "a + length ys \<le> length xs \<Longrightarrow> b = a + length ys \<Longrightarrow> sub (patch xs a ys) a b = ys"
  by (simp add: sub_def patch_def)

lemma sub_patch_before [buf_simps]:
  "b \<le> a \<Longrightarrow> a \<le> length xs \<Longrightarrow> sub (patch xs a ys) c b = sub xs c b"
  by (simp add: sub_def patch_def take_drop min_def)

lemma sub_patch_after [buf_simps]:
  "a + length ys \<le> c \<Longrightarrow> a + length ys \<le> length xs \<Longrightarrow> sub (patch xs a ys) c d = sub xs c d"
  by (simp add: sub_def patch_def)

lemma sub_patch_inner:
  assumes "c \<le> a" and "a + length ys \<le> d" and "d \<le> length xs"
  shows "sub (patch xs a ys) c d = patch (sub xs c d) (a - c) ys"
  using assms by (intro nth_equalityI) (auto simp: sub_def patch_def nth_append add.commute)

lemma sub_sub [buf_simps]:
  assumes "d \<le> b - a"
  shows "sub (sub xs a b) c d = sub xs (a + c) (a + d)"
  using assms by (simp add: sub_def drop_take min_def add.commute)

lemma nth_patch [buf_simps]:
  assumes "a + length ys \<le> length xs" and "i < length xs"
  shows "patch xs a ys ! i = (if a \<le> i \<and> i < a + length ys then ys ! (i - a) else xs ! i)"
  using assms by (auto simp: patch_def nth_append)

lemma nth_sub: "a + i < b \<Longrightarrow> b \<le> length xs \<Longrightarrow> sub xs a b ! i = xs ! (a + i)"
  by (simp add: sub_def)

lemma patch_overwrite [buf_simps]:
  assumes "length zs = length ys" and "a + length ys \<le> length xs"
  shows "patch (patch xs a ys) a zs = patch xs a zs"
  using assms by (simp add: patch_def)

lemma patch_sub_id [buf_simps]:
  assumes "a \<le> b" and "b \<le> length xs"
  shows "patch xs a (sub xs a b) = xs"
proof -
  have "drop b xs = drop (b - a) (drop a xs)" using assms by simp
  then show ?thesis using assms
    by (simp add: patch_def sub_def del: drop_drop)
qed

lemma take_patch: "n \<le> a \<Longrightarrow> a \<le> length xs \<Longrightarrow> take n (patch xs a ys) = take n xs"
  by (simp add: patch_def)

lemma drop_patch: "a + length ys \<le> n \<Longrightarrow> a \<le> length xs \<Longrightarrow> drop n (patch xs a ys) = drop n xs"
  by (simp add: patch_def)

text \<open>\<open>a - b\<close> on \<open>usize\<close>: an underflow is a panic.\<close>

definition minus_usize :: "nat \<Rightarrow> nat \<Rightarrow> nat option" where
  "minus_usize a b = (if b \<le> a then Some (a - b) else None)"

lemma minus_usize_Some [buf_simps]: "b \<le> a \<Longrightarrow> minus_usize a b = Some (a - b)"
  by (simp add: minus_usize_def)

text \<open>A byte string literal \<open>b"..."\<close>.\<close>

definition ascii :: "string \<Rightarrow> bytes" where
  "ascii s = map of_char s"

text \<open>Filling a buffer field by field, front to back.\<close>

lemma take_patch_next:
  assumes "take a xs = pre" and "a + length ys \<le> length xs" and "b = a + length ys"
  shows "take b (patch xs a ys) = pre @ ys"
  using assms(2,3) unfolding assms(1) [symmetric] by (simp add: patch_def)

text \<open>
  The same as rewriting: a buffer is \<open>(written @ latest) @ rest\<close>, nested to the left, and the next
  write either appends at the end of what is written or overwrites the latest piece (the in-place
  encryption of a field). The rules run with \<open>append_assoc\<close> and the equations of append removed.
\<close>

lemma copy_into_first [fill_simps]:
  "b = length ys \<Longrightarrow> b \<le> length xs \<Longrightarrow> copy_into xs 0 b ys = Some (ys @ drop b xs)"
  by (simp add: copy_into_def patch_def)

lemma copy_into_next [fill_simps]:
  "a = length pre \<Longrightarrow> b = a + length ys \<Longrightarrow> length ys \<le> length rest \<Longrightarrow>
     copy_into (pre @ rest) a b ys = Some ((pre @ ys) @ drop (length ys) rest)"
  by (simp add: copy_into_def patch_def)

lemma copy_into_latest [fill_simps]:
  "a = length pre \<Longrightarrow> b = a + length zs \<Longrightarrow> length ys < length zs \<Longrightarrow>
     length zs \<le> length ys + length rest \<Longrightarrow>
     copy_into ((pre @ ys) @ rest) a b zs = Some ((pre @ zs) @ drop (length zs - length ys) rest)"
  by (simp add: copy_into_def patch_def)

lemma subslice_latest [fill_simps]:
  "a = length pre \<Longrightarrow> a + length ys \<le> b \<Longrightarrow> b \<le> a + length ys + length rest \<Longrightarrow>
     subslice ((pre @ ys) @ rest) a b = Some (ys @ take (b - a - length ys) rest)"
  by (simp add: subslice_def sub_def)

section \<open>Little- and big-endian integers\<close>

text \<open>\<open>uN::to_le_bytes\<close>, \<open>uN::from_le_bytes\<close>, \<open>u16::to_be_bytes\<close> and \<open>u16::from_be_bytes\<close>.\<close>

definition le_bytes :: "'a::len word \<Rightarrow> bytes" where
  "le_bytes w = map (\<lambda>i. ucast (drop_bit (8 * i) w)) [0..<LENGTH('a) div 8]"

definition of_le_bytes :: "bytes \<Rightarrow> 'a::len word" where
  "of_le_bytes bs = foldr (\<lambda>b acc. ucast b OR push_bit 8 acc) bs 0"

definition be_bytes :: "'a::len word \<Rightarrow> bytes" where
  "be_bytes w = rev (le_bytes w)"

definition of_be_bytes :: "bytes \<Rightarrow> 'a::len word" where
  "of_be_bytes bs = of_le_bytes (rev bs)"

lemma length_le_bytes [len_simps, simp]: "length (le_bytes (w :: 'a::len word)) = LENGTH('a) div 8"
  by (simp add: le_bytes_def)

lemma length_be_bytes [len_simps, simp]: "length (be_bytes (w :: 'a::len word)) = LENGTH('a) div 8"
  by (simp add: be_bytes_def)

lemma bit_of_le_bytes:
  "bit (of_le_bytes bs :: 'a::len word) n \<longleftrightarrow>
     n < LENGTH('a) \<and> n div 8 < length bs \<and> bit (bs ! (n div 8)) (n mod 8)"
proof (induction bs arbitrary: n)
  case Nil
  then show ?case by (simp add: of_le_bytes_def)
next
  case (Cons b bs)
  have step: "(of_le_bytes (b # bs) :: 'a word) = ucast b OR push_bit 8 (of_le_bytes bs)"
    by (simp add: of_le_bytes_def)
  show ?case
  proof (cases "n < 8")
    case True
    then show ?thesis
      by (auto simp: step bit_or_iff bit_push_bit_iff bit_ucast_iff bit_imp_le_length)
  next
    case False
    then obtain m where m: "n = m + 8" by (metis add.commute le_Suc_ex not_less)
    have "\<not> bit b n" using False by (auto dest: bit_imp_le_length)
    moreover have "(m + 8) div 8 = Suc (m div 8)" "(m + 8) mod 8 = m mod 8" by simp_all
    ultimately show ?thesis
      using Cons.IH[of m] by (auto simp: m step bit_or_iff bit_push_bit_iff bit_ucast_iff)
  qed
qed

lemma of_le_bytes_le_bytes:
  assumes "8 dvd LENGTH('a::len)"
  shows "of_le_bytes (le_bytes (w :: 'a word)) = w"
proof (rule bit_word_eqI)
  fix n assume n: "n < LENGTH('a)"
  with assms have "n div 8 < LENGTH('a) div 8" by (auto simp: dvd_def)
  moreover have "8 * (n div 8) + n mod 8 = n" by simp
  ultimately show "bit (of_le_bytes (le_bytes w) :: 'a word) n = bit w n"
    using n by (simp add: bit_of_le_bytes le_bytes_def bit_ucast_iff bit_drop_bit_eq)
qed

lemma le_bytes_of_le_bytes:
  assumes "length bs * 8 = LENGTH('a::len)"
  shows "le_bytes (of_le_bytes bs :: 'a word) = bs"
proof (rule nth_equalityI)
  show "length (le_bytes (of_le_bytes bs :: 'a word)) = length bs"
    using assms by (metis length_le_bytes nonzero_mult_div_cancel_right zero_neq_numeral)
next
  fix i assume "i < length (le_bytes (of_le_bytes bs :: 'a word))"
  then have i: "i < LENGTH('a) div 8" by simp
  then have i': "i < length bs" using assms by linarith
  show "le_bytes (of_le_bytes bs :: 'a word) ! i = bs ! i"
  proof (rule bit_word_eqI)
    fix n assume n: "n < LENGTH(8)"
    then have "(8 * i + n) div 8 = i" "(8 * i + n) mod 8 = n" by simp_all
    moreover have "8 * i + n < LENGTH('a)" using i' n assms by simp
    ultimately show "bit (le_bytes (of_le_bytes bs :: 'a word) ! i) n = bit (bs ! i) n"
      using i i' n by (simp add: le_bytes_def bit_ucast_iff bit_drop_bit_eq bit_of_le_bytes)
  qed
qed

lemma of_le_bytes_u32 [simp]: "of_le_bytes (le_bytes (w :: u32)) = w"
  by (rule of_le_bytes_le_bytes) simp

lemma of_le_bytes_u64 [simp]: "of_le_bytes (le_bytes (w :: u64)) = w"
  by (rule of_le_bytes_le_bytes) simp

lemma of_be_bytes_u16 [simp]: "of_be_bytes (be_bytes (w :: u16)) = w"
  by (simp add: of_be_bytes_def be_bytes_def of_le_bytes_le_bytes)

section \<open>Results, options and lists\<close>

type_synonym ('e, 'a) result = "'e + 'a"

text \<open>\<open>Result::map_err\<close>.\<close>

definition map_err :: "('e \<Rightarrow> 'f) \<Rightarrow> 'e + 'a \<Rightarrow> 'f + 'a" where
  "map_err f r = (case r of Inl e \<Rightarrow> Inl (f e) | Inr a \<Rightarrow> Inr a)"

lemma map_err_simps [simp]: "map_err f (Inl e) = Inl (f e)" "map_err f (Inr a) = Inr a"
  by (simp_all add: map_err_def)

lemma map_err_eq_Inr [simp]: "map_err f r = Inr a \<longleftrightarrow> r = Inr a"
  by (cases r) simp_all

lemma map_err_eq_Inl [simp]: "map_err f r = Inl e \<longleftrightarrow> (\<exists>d. r = Inl d \<and> e = f d)"
  by (cases r) auto

text \<open>\<open>Option::is_some_and\<close>.\<close>

definition is_some_and :: "'a option \<Rightarrow> ('a \<Rightarrow> bool) \<Rightarrow> bool" where
  "is_some_and x p = (case x of None \<Rightarrow> False | Some a \<Rightarrow> p a)"

lemma is_some_and_simps [simp]: "is_some_and None p = False" "is_some_and (Some a) p = p a"
  by (simp_all add: is_some_and_def)

lemma is_some_and_iff: "is_some_and x p \<longleftrightarrow> (\<exists>a. x = Some a \<and> p a)"
  by (cases x) simp_all

text \<open>\<open>Option::unwrap_or_default\<close> and friends: a value for \<open>None\<close>.\<close>

definition unwrap_or :: "'a option \<Rightarrow> 'a \<Rightarrow> 'a" where
  "unwrap_or x d = (case x of None \<Rightarrow> d | Some a \<Rightarrow> a)"

lemma unwrap_or_simps [simp]: "unwrap_or None d = d" "unwrap_or (Some a) d = a"
  by (simp_all add: unwrap_or_def)

text \<open>\<open>Option::get_or_insert\<close>: keep what is there, else store the value.\<close>

definition get_or_insert :: "'a option \<Rightarrow> 'a \<Rightarrow> 'a option" where
  "get_or_insert x d = Some (unwrap_or x d)"

lemma get_or_insert_simps [simp]:
  "get_or_insert None d = Some d" "get_or_insert (Some a) d = Some a"
  by (simp_all add: get_or_insert_def)

end
