(* ===== verification/Text.thy ===== *)
theory Text
  imports Prelude
begin

text \<open>
  The operations on \<open>str\<close> of the standard library that the key and configuration parsers call.
  A string is the list of its Unicode scalar values; its length in bytes is that of its UTF-8
  encoding.
\<close>

type_synonym str = "nat list"

definition lit :: "string \<Rightarrow> str" where
  "lit s = map of_char s"

section \<open>UTF-8\<close>

definition utf8_char :: "nat \<Rightarrow> bytes" where
  "utf8_char c =
     (if c < 0x80 then [of_nat c]
      else if c < 0x800 then [of_nat (0xC0 + c div 64), of_nat (0x80 + c mod 64)]
      else if c < 0x10000 then
        [of_nat (0xE0 + c div 4096), of_nat (0x80 + c div 64 mod 64), of_nat (0x80 + c mod 64)]
      else
        [of_nat (0xF0 + c div 262144), of_nat (0x80 + c div 4096 mod 64), of_nat (0x80 + c div 64 mod 64),
         of_nat (0x80 + c mod 64)])"

definition str_bytes :: "str \<Rightarrow> bytes" where
  "str_bytes s = concat (map utf8_char s)"

definition str_len :: "str \<Rightarrow> nat" where
  "str_len s = length (str_bytes s)"

text \<open>\<open>core::str::from_utf8\<close>: overlong encodings, surrogates and values above U+10FFFF are errors.\<close>

definition continuation :: "u8 \<Rightarrow> bool" where
  "continuation b \<longleftrightarrow> 0x80 \<le> b \<and> b < 0xC0"

fun from_utf8 :: "bytes \<Rightarrow> str option" where
  "from_utf8 [] = Some []"
| "from_utf8 (b # bs) =
     (if b < 0x80 then map_option ((#) (unat b)) (from_utf8 bs)
      else case bs of
        [] \<Rightarrow> None
      | b1 # bs1 \<Rightarrow>
          if 0xC2 \<le> b \<and> b < 0xE0 \<and> continuation b1
          then map_option ((#) (unat (b - 0xC0) * 64 + unat (b1 - 0x80))) (from_utf8 bs1)
          else case bs1 of
            [] \<Rightarrow> None
          | b2 # bs2 \<Rightarrow>
              if 0xE0 \<le> b \<and> b < 0xF0 \<and> continuation b1 \<and> continuation b2 \<and>
                (b = 0xE0 \<longrightarrow> 0xA0 \<le> b1) \<and> (b = 0xED \<longrightarrow> b1 < 0xA0)
              then map_option
                ((#) (unat (b - 0xE0) * 4096 + unat (b1 - 0x80) * 64 + unat (b2 - 0x80))) (from_utf8 bs2)
              else case bs2 of
                [] \<Rightarrow> None
              | b3 # bs3 \<Rightarrow>
                  if 0xF0 \<le> b \<and> b < 0xF5 \<and> continuation b1 \<and> continuation b2 \<and> continuation b3 \<and>
                    (b = 0xF0 \<longrightarrow> 0x90 \<le> b1) \<and> (b = 0xF4 \<longrightarrow> b1 < 0x90)
                  then map_option
                    ((#) (unat (b - 0xF0) * 262144 + unat (b1 - 0x80) * 4096 + unat (b2 - 0x80) * 64 + unat (b3 - 0x80)))
                    (from_utf8 bs3)
                  else None)"

text \<open>On ASCII a string and its bytes are the same numbers.\<close>

lemma from_utf8_ascii: "\<forall>b \<in> set bs. b < 0x80 \<Longrightarrow> from_utf8 bs = Some (map unat bs)"
  by (induction bs) auto

lemma str_bytes_ascii: "\<forall>b \<in> set bs. b < 0x80 \<Longrightarrow> str_bytes (map unat bs) = bs"
  by (induction bs) (auto simp: str_bytes_def utf8_char_def word_less_nat_alt)

section \<open>Searching and cutting\<close>

definition is_whitespace :: "nat \<Rightarrow> bool" where
  "is_whitespace c \<longleftrightarrow> 9 \<le> c \<and> c \<le> 13 \<or> c \<in> {0x20, 0x85, 0xA0, 0x1680} \<or> 0x2000 \<le> c \<and> c \<le> 0x200A \<or>
     c \<in> {0x2028, 0x2029, 0x202F, 0x205F, 0x3000}"

definition trim_start :: "str \<Rightarrow> str" where
  "trim_start s = dropWhile is_whitespace s"

definition trim :: "str \<Rightarrow> str" where
  "trim s = rev (dropWhile is_whitespace (rev (trim_start s)))"

fun split_on :: "nat \<Rightarrow> str \<Rightarrow> str list" where
  "split_on c [] = [[]]"
| "split_on c (x # xs) =
     (if x = c then [] # split_on c xs
      else case split_on c xs of [] \<Rightarrow> [[x]] | y # ys \<Rightarrow> (x # y) # ys)"

definition split_once :: "nat \<Rightarrow> str \<Rightarrow> (str \<times> str) option" where
  "split_once c s =
     (if c \<in> set s then Some (takeWhile ((\<noteq>) c) s, tl (dropWhile ((\<noteq>) c) s)) else None)"

definition strip_prefix :: "nat \<Rightarrow> str \<Rightarrow> str option" where
  "strip_prefix c s = (case s of [] \<Rightarrow> None | x # xs \<Rightarrow> if x = c then Some xs else None)"

definition strip_suffix :: "nat \<Rightarrow> str \<Rightarrow> str option" where
  "strip_suffix c s = (if s \<noteq> [] \<and> last s = c then Some (butlast s) else None)"

definition to_ascii_lowercase :: "str \<Rightarrow> str" where
  "to_ascii_lowercase s = map (\<lambda>c. if 65 \<le> c \<and> c \<le> 90 then c + 32 else c) s"

text \<open>
  \<open>str::lines\<close>: the line ends are \<open>\n\<close> and \<open>\r\n\<close>; a last line without one is kept as it is, and dropped if
  it is empty.
\<close>

definition strip_cr :: "str \<Rightarrow> str" where
  "strip_cr s = unwrap_or (strip_suffix 13 s) s"

definition str_lines :: "str \<Rightarrow> str list" where
  "str_lines s =
     (let pieces = split_on 10 s
      in map strip_cr (butlast pieces) @ (if last pieces = [] then [] else [last pieces]))"

section \<open>Numbers\<close>

text \<open>\<open>uN::from_str\<close> with the greatest value of the type, and \<open>Display\<close> of an unsigned integer.\<close>

definition is_digit :: "nat \<Rightarrow> bool" where
  "is_digit c \<longleftrightarrow> 48 \<le> c \<and> c \<le> 57"

definition parse_uint :: "nat \<Rightarrow> str \<Rightarrow> nat option" where
  "parse_uint max_value s =
     (let digits = (case s of c # rest \<Rightarrow> if c = 43 \<and> rest \<noteq> [] then rest else s | [] \<Rightarrow> [])
      in if digits = [] \<or> \<not> list_all is_digit digits then None
         else let n = foldl (\<lambda>n d. n * 10 + (d - 48)) 0 digits
              in if n \<le> max_value then Some n else None)"

fun decimal :: "nat \<Rightarrow> str" where
  "decimal n = (if n < 10 then [48 + n] else decimal (n div 10) @ [48 + n mod 10])"

declare decimal.simps [simp del]

lemma decimal_digits: "decimal n \<noteq> [] \<and> list_all is_digit (decimal n)"
proof (induction n rule: decimal.induct)
  case (1 n)
  then show ?case by (cases "n < 10") (auto simp: decimal.simps [of n] is_digit_def)
qed

lemma foldl_decimal: "foldl (\<lambda>n d. n * 10 + (d - 48)) 0 (decimal n) = n"
proof (induction n rule: decimal.induct)
  case (1 n)
  then show ?case by (cases "n < 10") (auto simp: decimal.simps [of n])
qed

lemma parse_uint_decimal: "parse_uint max_value (decimal n) = (if n \<le> max_value then Some n else None)"
proof -
  have "hd (decimal n) \<noteq> 43"
    using decimal_digits [of n] by (cases "decimal n") (auto simp: is_digit_def)
  then have "(case decimal n of c # rest \<Rightarrow> if c = 43 \<and> rest \<noteq> [] then rest else decimal n | [] \<Rightarrow> []) = decimal n"
    by (auto split: list.split)
  then show ?thesis using decimal_digits [of n] by (simp add: parse_uint_def Let_def foldl_decimal)
qed

section \<open>Lines of words\<close>

lemma of_char_nat_inject [simp]: "(of_char c :: nat) = of_char d \<longleftrightarrow> c = d"
  by simp

lemma lit_inject [simp]: "lit s = lit t \<longleftrightarrow> s = t"
  unfolding lit_def by (rule inj_map_eq_map) (simp add: inj_def)

lemma split_on_nonempty [simp]: "split_on c s \<noteq> []"
  by (induction s) (auto split: list.split)

lemma split_on_none: "c \<notin> set s \<Longrightarrow> split_on c s = [s]"
  by (induction s) auto

lemma split_on_append: "c \<notin> set s \<Longrightarrow> split_on c (s @ c # t) = s # split_on c t"
  by (induction s) auto

lemma split_once_append: "c \<notin> set s \<Longrightarrow> split_once c (s @ c # t) = Some (s, t)"
  by (induction s) (auto simp: split_once_def)

lemma trim_id: "s \<noteq> [] \<Longrightarrow> \<not> is_whitespace (hd s) \<Longrightarrow> \<not> is_whitespace (last s) \<Longrightarrow> trim s = s"
proof -
  have *: "dropWhile is_whitespace xs = xs" if "xs \<noteq> []" "\<not> is_whitespace (hd xs)" for xs using that by (cases xs) auto
  assume "s \<noteq> []" "\<not> is_whitespace (hd s)" "\<not> is_whitespace (last s)"
  then show "trim s = s" using * [of s] * [of "rev s"] by (simp add: trim_def trim_start_def hd_rev)
qed

text \<open>A word: not empty, without white space and without the character that starts a comment.\<close>

definition is_word :: "str \<Rightarrow> bool" where
  "is_word s \<longleftrightarrow> s \<noteq> [] \<and> list_all (\<lambda>c. \<not> is_whitespace c \<and> c \<noteq> 35) s"

lemma wordD: "is_word s \<Longrightarrow> s \<noteq> []" "is_word s \<Longrightarrow> c \<in> set s \<Longrightarrow> \<not> is_whitespace c \<and> c \<noteq> 35"
  by (auto simp: is_word_def list_all_iff)

lemma word_ends: "is_word s \<Longrightarrow> \<not> is_whitespace (hd s)" "is_word s \<Longrightarrow> \<not> is_whitespace (last s)"
  using wordD(2) [of s "hd s"] wordD(2) [of s "last s"] by (auto simp: is_word_def)

lemma trim_word: "is_word s \<Longrightarrow> trim s = s" "is_word s \<Longrightarrow> trim (32 # s) = s" "is_word s \<Longrightarrow> trim (s @ [32]) = s"
proof -
  assume s: "is_word s"
  note trim_id [OF wordD(1) [OF s] word_ends [OF s]]
  moreover have "trim (32 # s) = trim s" by (simp add: trim_def trim_start_def is_whitespace_def)
  moreover have "trim (s @ [32]) = trim s"
    using s word_ends(1) [OF s] by (cases s) (simp_all add: trim_def trim_start_def is_whitespace_def [of 32] wordD)
  ultimately show "trim s = s" "trim (32 # s) = s" "trim (s @ [32]) = s" by simp_all
qed

definition text_of :: "str list \<Rightarrow> str" where
  "text_of lines = concat (map (\<lambda>l. l @ [10]) lines)"

definition is_line :: "str \<Rightarrow> bool" where
  "is_line l \<longleftrightarrow> l \<noteq> [] \<and> 10 \<notin> set l \<and> last l \<noteq> 13"

lemma str_lines_text_of: "list_all is_line ls \<Longrightarrow> str_lines (text_of ls) = ls"
proof (induction ls)
  case (Cons l ls)
  have "split_on 10 (text_of (l # ls)) = l # split_on 10 (text_of ls)"
    using Cons.prems by (simp add: text_of_def is_line_def split_on_append)
  moreover have "strip_cr l = l" using Cons.prems by (simp add: strip_cr_def strip_suffix_def is_line_def)
  ultimately show ?case using Cons by (auto simp: str_lines_def Let_def split: if_splits)
qed (simp add: str_lines_def text_of_def)

lemma word_decimal: "is_word (decimal n)"
  using decimal_digits [of n] unfolding is_word_def list_all_iff by (auto simp: is_digit_def is_whitespace_def)

end
