(* ===== verification/Wire.thy ===== *)
theory Wire
  imports Prelude
begin

text \<open>
  The wire format: message types and lengths, the field ranges of the four messages
  (the constants of \<open>handshake.rs\<close>, \<open>transport.rs\<close> and \<open>cookies.rs\<close>), and the header
  parser \<open>MessageHeader::try_from\<close> of \<open>protocol/src/lib.rs\<close>, through which every packet
  from the network passes.
\<close>

section \<open>Layout constants\<close>

definition AEAD_TAG_SIZE :: nat where "AEAD_TAG_SIZE = 16"
definition MAC_SIZE :: nat where "MAC_SIZE = 16"

text \<open>A Rust \<open>Range<usize>\<close> is the pair of its bounds.\<close>

type_synonym range = "nat \<times> nat"

definition INIT_SENDER :: range where "INIT_SENDER = (4, 8)"
definition INIT_EPHEMERAL_PK :: range where
  "INIT_EPHEMERAL_PK = (snd INIT_SENDER, snd INIT_SENDER + 32)"
definition INIT_ENCRYPTED_STATIC_PK :: range where
  "INIT_ENCRYPTED_STATIC_PK =
     (snd INIT_EPHEMERAL_PK, snd INIT_EPHEMERAL_PK + 32 + AEAD_TAG_SIZE)"
definition INIT_ENCRYPTED_TIMESTAMP :: range where
  "INIT_ENCRYPTED_TIMESTAMP =
     (snd INIT_ENCRYPTED_STATIC_PK, snd INIT_ENCRYPTED_STATIC_PK + 12 + AEAD_TAG_SIZE)"
definition INIT_MAC1 :: range where
  "INIT_MAC1 = (snd INIT_ENCRYPTED_TIMESTAMP, snd INIT_ENCRYPTED_TIMESTAMP + MAC_SIZE)"
definition INIT_MAC2 :: range where "INIT_MAC2 = (snd INIT_MAC1, snd INIT_MAC1 + MAC_SIZE)"
definition INIT_MSG_LENGTH :: nat where "INIT_MSG_LENGTH = snd INIT_MAC2"

definition RESP_SENDER :: range where "RESP_SENDER = (4, 8)"
definition RESP_RECEIVER :: range where "RESP_RECEIVER = (snd RESP_SENDER, snd RESP_SENDER + 4)"
definition RESP_EPHEMERAL_PK :: range where
  "RESP_EPHEMERAL_PK = (snd RESP_RECEIVER, snd RESP_RECEIVER + 32)"
definition RESP_ENCRYPTED_EMPTY_TAG :: range where
  "RESP_ENCRYPTED_EMPTY_TAG = (snd RESP_EPHEMERAL_PK, snd RESP_EPHEMERAL_PK + AEAD_TAG_SIZE)"
definition RESP_MAC1 :: range where
  "RESP_MAC1 = (snd RESP_ENCRYPTED_EMPTY_TAG, snd RESP_ENCRYPTED_EMPTY_TAG + MAC_SIZE)"
definition RESP_MAC2 :: range where "RESP_MAC2 = (snd RESP_MAC1, snd RESP_MAC1 + MAC_SIZE)"
definition RESP_MSG_LENGTH :: nat where "RESP_MSG_LENGTH = snd RESP_MAC2"

definition DATA_RECEIVER :: range where "DATA_RECEIVER = (4, 8)"
definition DATA_COUNTER :: range where "DATA_COUNTER = (snd DATA_RECEIVER, snd DATA_RECEIVER + 8)"
definition DATA_PAYLOAD_OFFSET :: nat where "DATA_PAYLOAD_OFFSET = snd DATA_COUNTER"
definition TRANSPORT_OVERHEAD :: nat where "TRANSPORT_OVERHEAD = DATA_PAYLOAD_OFFSET + AEAD_TAG_SIZE"
definition TRANSPORT_PADDING_MULTIPLE :: nat where "TRANSPORT_PADDING_MULTIPLE = 16"

definition COOKIE_SIZE :: nat where "COOKIE_SIZE = 16"
definition CR_RECEIVER :: range where "CR_RECEIVER = (4, 8)"
definition CR_NONCE :: range where "CR_NONCE = (snd CR_RECEIVER, snd CR_RECEIVER + 24)"
definition CR_COOKIE :: range where "CR_COOKIE = (snd CR_NONCE, snd CR_NONCE + COOKIE_SIZE)"
definition CR_ENCRYPTED :: range where "CR_ENCRYPTED = (fst CR_COOKIE, snd CR_COOKIE + AEAD_TAG_SIZE)"
definition COOKIE_REPLY_LENGTH :: nat where "COOKIE_REPLY_LENGTH = snd CR_ENCRYPTED"

text \<open>\<open>Transport::packet_len\<close>.\<close>

definition packet_len :: "nat \<Rightarrow> nat" where
  "packet_len payload_size = TRANSPORT_OVERHEAD + payload_size"

lemma layout_sizes [simp]:
  "AEAD_TAG_SIZE = 16" "MAC_SIZE = 16" "COOKIE_SIZE = 16" "TRANSPORT_PADDING_MULTIPLE = 16"
  by (simp_all add: AEAD_TAG_SIZE_def MAC_SIZE_def COOKIE_SIZE_def TRANSPORT_PADDING_MULTIPLE_def)

lemma layout_init [simp]:
  "INIT_SENDER = (4, 8)" "INIT_EPHEMERAL_PK = (8, 40)" "INIT_ENCRYPTED_STATIC_PK = (40, 88)"
  "INIT_ENCRYPTED_TIMESTAMP = (88, 116)" "INIT_MAC1 = (116, 132)" "INIT_MAC2 = (132, 148)"
  "INIT_MSG_LENGTH = 148"
  by (simp_all add: INIT_SENDER_def INIT_EPHEMERAL_PK_def INIT_ENCRYPTED_STATIC_PK_def
    INIT_ENCRYPTED_TIMESTAMP_def INIT_MAC1_def INIT_MAC2_def INIT_MSG_LENGTH_def)

lemma layout_resp [simp]:
  "RESP_SENDER = (4, 8)" "RESP_RECEIVER = (8, 12)" "RESP_EPHEMERAL_PK = (12, 44)"
  "RESP_ENCRYPTED_EMPTY_TAG = (44, 60)" "RESP_MAC1 = (60, 76)" "RESP_MAC2 = (76, 92)"
  "RESP_MSG_LENGTH = 92"
  by (simp_all add: RESP_SENDER_def RESP_RECEIVER_def RESP_EPHEMERAL_PK_def
    RESP_ENCRYPTED_EMPTY_TAG_def RESP_MAC1_def RESP_MAC2_def RESP_MSG_LENGTH_def)

lemma layout_data [simp]:
  "DATA_RECEIVER = (4, 8)" "DATA_COUNTER = (8, 16)" "DATA_PAYLOAD_OFFSET = 16"
  "TRANSPORT_OVERHEAD = 32" "packet_len n = 32 + n"
  by (simp_all add: DATA_RECEIVER_def DATA_COUNTER_def DATA_PAYLOAD_OFFSET_def
    TRANSPORT_OVERHEAD_def packet_len_def)

lemma layout_cookie [simp]:
  "CR_RECEIVER = (4, 8)" "CR_NONCE = (8, 32)" "CR_COOKIE = (32, 48)" "CR_ENCRYPTED = (32, 64)"
  "COOKIE_REPLY_LENGTH = 64"
  by (simp_all add: CR_RECEIVER_def CR_NONCE_def CR_COOKIE_def CR_ENCRYPTED_def
    COOKIE_REPLY_LENGTH_def)

text \<open>Reading and writing a named field.\<close>

definition field :: "bytes \<Rightarrow> range \<Rightarrow> bytes option" where
  "field xs r = subslice xs (fst r) (snd r)"

definition set_field :: "bytes \<Rightarrow> range \<Rightarrow> bytes \<Rightarrow> bytes option" where
  "set_field xs r ys = copy_into xs (fst r) (snd r) ys"

lemma field_Some [buf_simps]: "a \<le> b \<Longrightarrow> b \<le> length xs \<Longrightarrow> field xs (a, b) = Some (sub xs a b)"
  by (simp add: field_def buf_simps)

lemma set_field_Some [buf_simps]:
  "a \<le> b \<Longrightarrow> b \<le> length xs \<Longrightarrow> length ys = b - a \<Longrightarrow> set_field xs (a, b) ys = Some (patch xs a ys)"
  by (simp add: set_field_def buf_simps)

lemma field_fill [fill_simps]: "field xs (a, b) = subslice xs a b"
  by (simp add: field_def)

lemma set_field_fill [fill_simps]: "set_field xs (a, b) ys = copy_into xs a b ys"
  by (simp add: set_field_def)

section \<open>Message headers\<close>

datatype MessageType = MT_HandshakeInit | MT_HandshakeResp | MT_Cookie | MT_Data

text \<open>The cast \<open>MessageType as u8\<close> and \<open>MessageType::try_from(u8)\<close>.\<close>

fun type_byte :: "MessageType \<Rightarrow> u8" where
  "type_byte MT_HandshakeInit = 1"
| "type_byte MT_HandshakeResp = 2"
| "type_byte MT_Cookie = 3"
| "type_byte MT_Data = 4"

datatype MessageHeaderParseError = HdrInvalidLength | HdrInvalidHeader | HdrInvalidMessageType

definition MessageType_try_from :: "u8 \<Rightarrow> MessageHeaderParseError + MessageType" where
  "MessageType_try_from x =
     (if x = type_byte MT_HandshakeInit then Inr MT_HandshakeInit
      else if x = type_byte MT_HandshakeResp then Inr MT_HandshakeResp
      else if x = type_byte MT_Cookie then Inr MT_Cookie
      else if x = type_byte MT_Data then Inr MT_Data
      else Inl HdrInvalidMessageType)"

datatype MessageHeader =
    HandshakeInit
  | HandshakeResponse u32
  | CookieReply u32
  | Data u32

fun valid_length :: "MessageType \<Rightarrow> nat \<Rightarrow> bool" where
  "valid_length MT_HandshakeInit n = (n = INIT_MSG_LENGTH)"
| "valid_length MT_HandshakeResp n = (n = RESP_MSG_LENGTH)"
| "valid_length MT_Cookie n = (n = COOKIE_REPLY_LENGTH)"
| "valid_length MT_Data n = (packet_len 0 \<le> n)"

fun index_range :: "MessageType \<Rightarrow> range" where
  "index_range MT_HandshakeInit = (4, 8)"
| "index_range MT_Cookie = (4, 8)"
| "index_range MT_Data = (4, 8)"
| "index_range MT_HandshakeResp = (8, 12)"

fun mk_header :: "MessageType \<Rightarrow> u32 \<Rightarrow> MessageHeader" where
  "mk_header MT_HandshakeInit i = HandshakeInit"
| "mk_header MT_Cookie i = CookieReply i"
| "mk_header MT_HandshakeResp i = HandshakeResponse i"
| "mk_header MT_Data i = Data i"

definition MessageHeader_try_from :: "bytes \<Rightarrow> (MessageHeaderParseError + MessageHeader) option" where
  "MessageHeader_try_from value =
     (if length value < 4 then Some (Inl HdrInvalidLength) else do {
        b0 \<leftarrow> index_at value 0;
        case MessageType_try_from b0 of Inl e \<Rightarrow> Some (Inl e) | Inr msg_type \<Rightarrow> do {
          reserved \<leftarrow> subslice value 1 4;
          if reserved \<noteq> replicate 3 0 then Some (Inl HdrInvalidHeader)
          else if \<not> valid_length msg_type (length value) then Some (Inl HdrInvalidLength)
          else do {
            idx \<leftarrow> field value (index_range msg_type);
            Some (Inr (mk_header msg_type (of_le_bytes idx)))
          }
        }
      })"

text \<open>
  \<open>matches!(header, HandshakeInit | HandshakeResponse { .. })\<close>, which the cookie code and the
  read loop both test.
\<close>

definition is_handshake :: "MessageHeaderParseError + MessageHeader \<Rightarrow> bool" where
  "is_handshake r = (case r of Inr HandshakeInit \<Rightarrow> True | Inr (HandshakeResponse _) \<Rightarrow> True | _ \<Rightarrow> False)"

lemma type_byte_inject [simp]: "type_byte s = type_byte t \<longleftrightarrow> s = t"
  by (cases s; cases t) simp_all

lemma MessageType_try_from_byte [simp]: "MessageType_try_from (type_byte t) = Inr t"
  by (cases t) (simp_all add: MessageType_try_from_def)

lemma MessageType_try_from_Inr: "MessageType_try_from b = Inr t \<longleftrightarrow> b = type_byte t"
  by (cases t) (auto simp: MessageType_try_from_def)

lemma MessageType_try_from_err:
  "MessageType_try_from b = Inl e \<longleftrightarrow> e = HdrInvalidMessageType \<and> b \<notin> range type_byte"
proof (cases "MessageType_try_from b")
  case (Inl e')
  then have "e' = HdrInvalidMessageType" by (auto simp: MessageType_try_from_def split: if_splits)
  moreover have "b \<notin> range type_byte" using Inl by auto
  ultimately show ?thesis using Inl by auto
next
  case (Inr t)
  then show ?thesis by (auto simp: MessageType_try_from_Inr)
qed

lemma mk_header_eq [simp]:
  "mk_header t i = HandshakeInit \<longleftrightarrow> t = MT_HandshakeInit"
  "mk_header t i = HandshakeResponse j \<longleftrightarrow> t = MT_HandshakeResp \<and> i = j"
  "mk_header t i = CookieReply j \<longleftrightarrow> t = MT_Cookie \<and> i = j"
  "mk_header t i = Data j \<longleftrightarrow> t = MT_Data \<and> i = j"
  by (cases t; simp)+

lemma valid_length_index: "valid_length t n \<Longrightarrow> snd (index_range t) \<le> n"
  by (cases t) auto

lemma index_range_ordered: "fst (index_range t) \<le> snd (index_range t)"
  by (cases t) auto

text \<open>What the parser computes, with the panics discharged.\<close>

lemma MessageHeader_try_from_eq:
  "MessageHeader_try_from v = Some
     (if length v < 4 then Inl HdrInvalidLength
      else case MessageType_try_from (v ! 0) of Inl e \<Rightarrow> Inl e | Inr t \<Rightarrow>
        if sub v 1 4 \<noteq> replicate 3 0 then Inl HdrInvalidHeader
        else if \<not> valid_length t (length v) then Inl HdrInvalidLength
        else Inr (mk_header t (of_le_bytes (sub v (fst (index_range t)) (snd (index_range t))))))"
proof (cases "length v < 4")
  case True
  then show ?thesis by (simp add: MessageHeader_try_from_def)
next
  case False
  then have "v \<noteq> []" and "4 \<le> length v" by auto
  then show ?thesis
    by (auto simp: MessageHeader_try_from_def buf_simps field_def valid_length_index
        index_range_ordered split: sum.splits)
qed

lemma MessageHeader_try_from_Inr:
  "MessageHeader_try_from v = Some (Inr h) \<longleftrightarrow>
     (\<exists>t. 4 \<le> length v \<and> v ! 0 = type_byte t \<and> sub v 1 4 = replicate 3 0 \<and>
          valid_length t (length v) \<and>
          h = mk_header t (of_le_bytes (sub v (fst (index_range t)) (snd (index_range t)))))"
  by (auto simp: MessageHeader_try_from_eq MessageType_try_from_Inr split: sum.splits)

section \<open>Properties\<close>

text \<open>
  C32: the header parser, the first code that touches a packet from the network, never panics, and
  it accepts exactly the packets of the protocol: the type byte, three zero bytes, the exact length
  of the message type (at least a header and a tag for data), and the receiver index from the
  field where that message type has it.
\<close>

theorem header_parser_exact:
  "\<exists>r. MessageHeader_try_from v = Some r \<and>
     (r = Inr HandshakeInit \<longleftrightarrow> length v = 148 \<and> take 4 v = [1, 0, 0, 0]) \<and>
     (r = Inr (HandshakeResponse i) \<longleftrightarrow>
        length v = 92 \<and> take 4 v = [2, 0, 0, 0] \<and> of_le_bytes (sub v 8 12) = i) \<and>
     (r = Inr (CookieReply i) \<longleftrightarrow>
        length v = 64 \<and> take 4 v = [3, 0, 0, 0] \<and> of_le_bytes (sub v 4 8) = i) \<and>
     (r = Inr (Data i) \<longleftrightarrow> 32 \<le> length v \<and> take 4 v = [4, 0, 0, 0] \<and> of_le_bytes (sub v 4 8) = i)"
proof -
  have four: "take 4 v = [b, 0, 0, 0] \<longleftrightarrow> v ! 0 = b \<and> sub v 1 4 = replicate 3 0" if "4 \<le> length v" for b
  proof -
    have "take 4 v = v ! 0 # sub v 1 4" using that by (cases v) (auto simp: sub_def take_Cons')
    then show ?thesis by (simp add: numeral_3_eq_3)
  qed
  show ?thesis
  proof (cases "length v < 4")
    case True
    then show ?thesis by (simp add: MessageHeader_try_from_eq)
  next
    case False
    obtain r where r: "MessageHeader_try_from v = Some r" by (simp add: MessageHeader_try_from_eq)
    have acc: "r = Inr h \<longleftrightarrow> (\<exists>t. v ! 0 = type_byte t \<and> sub v 1 4 = replicate 3 0 \<and>
          valid_length t (length v) \<and>
          h = mk_header t (of_le_bytes (sub v (fst (index_range t)) (snd (index_range t)))))" for h
      using MessageHeader_try_from_Inr [of v h] r False by simp
    show ?thesis
      using False r by (intro exI [of _ r]) (auto simp: acc four eq_commute [of HandshakeInit]
          eq_commute [of "HandshakeResponse i"] eq_commute [of "CookieReply i"] eq_commute [of "Data i"])
  qed
qed

end
