(* ===== verification/Crypto.thy ===== *)
theory Crypto
  imports Wire
begin

text \<open>
  The crypto wrappers of \<open>protocol/src/crypto.rs\<close>.

  The primitives themselves come from third-party crates (\<open>blake2\<close>, \<open>hmac\<close>,
  \<open>chacha20poly1305\<close>, \<open>x25519-dalek\<close>): they are the fields of the record \<open>crypto\<close>, an argument
  of every definition that uses them. What the code relies on is the predicate \<open>crypto_ok\<close>: output
  sizes, in-place operations that keep the length, decryption that inverts encryption, and a
  commutative Diffie-Hellman. Nothing is assumed about secrecy or collisions.
\<close>

section \<open>The primitives\<close>

record crypto =
  blake2s256 :: "bytes \<Rightarrow> bytes"
  blake2s_mac :: "bytes \<Rightarrow> bytes \<Rightarrow> bytes option" \<comment> \<open>key, data; \<open>None\<close>: bad key length\<close>
  hmac_blake2s :: "bytes \<Rightarrow> bytes \<Rightarrow> bytes option"
  chacha_encrypt :: "bytes \<Rightarrow> bytes \<Rightarrow> bytes \<Rightarrow> bytes \<Rightarrow> (bytes \<times> bytes) option"
    \<comment> \<open>key, nonce, associated data, buffer; the buffer after, and the tag\<close>
  chacha_decrypt :: "bytes \<Rightarrow> bytes \<Rightarrow> bytes \<Rightarrow> bytes \<Rightarrow> bytes \<Rightarrow> bool \<times> bytes"
    \<comment> \<open>key, nonce, associated data, buffer, tag; success, and the buffer after\<close>
  xchacha_new :: "bytes \<Rightarrow> bytes option"
  xchacha_encrypt :: "bytes \<Rightarrow> bytes \<Rightarrow> bytes \<Rightarrow> bytes \<Rightarrow> (bytes \<times> bytes) option"
  xchacha_decrypt :: "bytes \<Rightarrow> bytes \<Rightarrow> bytes \<Rightarrow> bytes \<Rightarrow> bytes \<Rightarrow> bool \<times> bytes"
  x25519_public :: "bytes \<Rightarrow> bytes"
  x25519_dh :: "bytes \<Rightarrow> bytes \<Rightarrow> bytes" \<comment> \<open>secret, public\<close>
  was_contributory :: "bytes \<Rightarrow> bool"

text \<open>The longest message ChaCha20-Poly1305 encrypts (RFC 8439).\<close>

definition AEAD_P_MAX :: nat where "AEAD_P_MAX = 2 ^ 38 - 64"

definition aead_law ::
  "nat \<Rightarrow> (bytes \<Rightarrow> bytes \<Rightarrow> bytes \<Rightarrow> bytes \<Rightarrow> (bytes \<times> bytes) option) \<Rightarrow>
   (bytes \<Rightarrow> bytes \<Rightarrow> bytes \<Rightarrow> bytes \<Rightarrow> bytes \<Rightarrow> bool \<times> bytes) \<Rightarrow> bool" where
  "aead_law nonce_len enc dec \<longleftrightarrow>
     (\<forall>k n a p. length k = 32 \<longrightarrow> length n = nonce_len \<longrightarrow> length p < AEAD_P_MAX \<longrightarrow>
        (\<exists>c t. enc k n a p = Some (c, t) \<and> length c = length p \<and> length t = 16 \<and>
               dec k n a c t = (True, p))) \<and>
     (\<forall>k n a c t. length (snd (dec k n a c t)) = length c)"

definition crypto_ok :: "crypto \<Rightarrow> bool" where
  "crypto_ok C \<longleftrightarrow>
     (\<forall>x. length (blake2s256 C x) = 32) \<and>
     (\<forall>k x. length k \<le> 32 \<longrightarrow> (\<exists>m. blake2s_mac C k x = Some m \<and> length m = 16)) \<and>
     (\<forall>k x. \<exists>m. hmac_blake2s C k x = Some m \<and> length m = 32) \<and>
     aead_law 12 (chacha_encrypt C) (chacha_decrypt C) \<and>
     (\<forall>k. length k = 32 \<longrightarrow> xchacha_new C k = Some k) \<and>
     aead_law 24 (xchacha_encrypt C) (xchacha_decrypt C) \<and>
     (\<forall>s. length (x25519_public C s) = 32) \<and>
     (\<forall>s p. length (x25519_dh C s p) = 32) \<and>
     (\<forall>s s'. x25519_dh C s (x25519_public C s') = x25519_dh C s' (x25519_public C s))"

section \<open>Hashes and key derivation\<close>

definition hash :: "crypto \<Rightarrow> bytes list \<Rightarrow> bytes" where
  "hash C input = blake2s256 C (concat input)"

definition mac :: "crypto \<Rightarrow> bytes \<Rightarrow> bytes list \<Rightarrow> bytes option" where
  "mac C key input = blake2s_mac C key (concat input)"

definition hmac :: "crypto \<Rightarrow> bytes \<Rightarrow> bytes list \<Rightarrow> bytes option" where
  "hmac C key input = hmac_blake2s C key (concat input)"

text \<open>The loop \<open>for i in 1..N { out[i] = hmac(t0, [out[i - 1], [(i + 1) as u8]]) }\<close>.\<close>

function kdf_loop :: "crypto \<Rightarrow> bytes \<Rightarrow> nat \<Rightarrow> nat \<Rightarrow> bytes \<Rightarrow> bytes list option" where
  "kdf_loop C t0 n i prev =
     (if i < n then do {
        out \<leftarrow> hmac C t0 [prev, [of_nat (i + 1)]];
        rest \<leftarrow> kdf_loop C t0 n (Suc i) out;
        Some (out # rest)
      } else Some [])"
  by pat_completeness auto
termination
  by (relation "measure (\<lambda>(C, t0, n, i, prev). n - i)") auto

declare kdf_loop.simps [simp del]

definition kdf :: "crypto \<Rightarrow> nat \<Rightarrow> bytes \<Rightarrow> bytes \<Rightarrow> bytes list option" where
  "kdf C n key input =
     (if n = 0 \<or> 255 < n then None else do {
        t0 \<leftarrow> hmac C key [input];
        out0 \<leftarrow> hmac C t0 [[1]];
        rest \<leftarrow> kdf_loop C t0 n 1 out0;
        Some (out0 # rest)
      })"

text \<open>The destructurings \<open>let [a] = kdf::<1>(..)\<close>, \<open>let [a, b] = kdf::<2>(..)\<close>, \<open>let [a, b, c] = kdf::<3>(..)\<close>.\<close>

definition kdf1 :: "crypto \<Rightarrow> bytes \<Rightarrow> bytes \<Rightarrow> bytes option" where
  "kdf1 C key input = do { out \<leftarrow> kdf C 1 key input; case out of [a] \<Rightarrow> Some a | _ \<Rightarrow> None }"

definition kdf2 :: "crypto \<Rightarrow> bytes \<Rightarrow> bytes \<Rightarrow> (bytes \<times> bytes) option" where
  "kdf2 C key input = do { out \<leftarrow> kdf C 2 key input; case out of [a, b] \<Rightarrow> Some (a, b) | _ \<Rightarrow> None }"

definition kdf3 :: "crypto \<Rightarrow> bytes \<Rightarrow> bytes \<Rightarrow> (bytes \<times> bytes \<times> bytes) option" where
  "kdf3 C key input =
     do { out \<leftarrow> kdf C 3 key input; case out of [a, b, c] \<Rightarrow> Some (a, b, c) | _ \<Rightarrow> None }"

section \<open>Authenticated encryption\<close>

type_synonym AeadKey = bytes

definition init_aead :: "bytes \<Rightarrow> AeadKey" where
  "init_aead key = key"

definition aead_nonce :: "u64 \<Rightarrow> bytes" where
  "aead_nonce counter = patch (replicate 12 0) 4 (le_bytes counter)"

definition aead_seal :: "crypto \<Rightarrow> AeadKey \<Rightarrow> u64 \<Rightarrow> bytes \<Rightarrow> bytes \<Rightarrow> bytes option" where
  "aead_seal C key counter auth_text data =
     (if length data < AEAD_TAG_SIZE then None else do {
        let plaintext_len = length data - AEAD_TAG_SIZE;
        (ciphertext, tag) \<leftarrow> chacha_encrypt C key (aead_nonce counter) auth_text (take plaintext_len data);
        tag_out \<leftarrow> copy_into (drop plaintext_len data) 0 AEAD_TAG_SIZE tag;
        Some (ciphertext @ tag_out)
      })"

definition aead_open_within ::
  "crypto \<Rightarrow> AeadKey \<Rightarrow> u64 \<Rightarrow> bytes \<Rightarrow> bytes \<Rightarrow> nat \<Rightarrow> (bool \<times> bytes) option" where
  "aead_open_within C key counter auth_text data start =
     (if length data < AEAD_TAG_SIZE then Some (False, data)
      else
        let tag_start = length data - AEAD_TAG_SIZE
        in if tag_start < start then Some (False, data) else do {
             tag \<leftarrow> subslice data tag_start (length data);
             ciphertext \<leftarrow> subslice data start tag_start;
             let (ok, plaintext) = chacha_decrypt C key (aead_nonce counter) auth_text ciphertext tag;
             data \<leftarrow> copy_into data start tag_start plaintext;
             if \<not> ok then Some (False, data)
             else if start \<noteq> 0 then do {
               seg \<leftarrow> subslice data start tag_start;
               data \<leftarrow> copy_into data 0 (length seg) seg;
               Some (True, data)
             } else Some (True, data)
           })"

definition aead_open :: "crypto \<Rightarrow> AeadKey \<Rightarrow> u64 \<Rightarrow> bytes \<Rightarrow> bytes \<Rightarrow> (bool \<times> bytes) option" where
  "aead_open C key counter auth_text cipher_text =
     aead_open_within C key counter auth_text cipher_text 0"

definition xaead_seal :: "crypto \<Rightarrow> bytes \<Rightarrow> bytes \<Rightarrow> bytes \<Rightarrow> bytes \<Rightarrow> bytes option" where
  "xaead_seal C cipher nonce auth_text data =
     (if length data < AEAD_TAG_SIZE then None else do {
        let plaintext_len = length data - AEAD_TAG_SIZE;
        (buf, tag) \<leftarrow> xchacha_encrypt C cipher nonce auth_text (take plaintext_len data);
        tag_buf \<leftarrow> copy_into (drop plaintext_len data) 0 AEAD_TAG_SIZE tag;
        Some (buf @ tag_buf)
      })"

text \<open>\<open>xaead_open\<close> fails on a tag of the wrong length; else it decrypts the buffer in place.\<close>

definition xaead_open :: "crypto \<Rightarrow> bytes \<Rightarrow> bytes \<Rightarrow> bytes \<Rightarrow> bytes \<Rightarrow> bytes \<Rightarrow> bool \<times> bytes" where
  "xaead_open C cipher nonce auth_text cipher_text tag =
     (if length tag \<noteq> AEAD_TAG_SIZE then (False, cipher_text)
      else xchacha_decrypt C cipher nonce auth_text cipher_text tag)"

section \<open>Sizes and totality\<close>

definition hmac_out :: "crypto \<Rightarrow> bytes \<Rightarrow> bytes list \<Rightarrow> bytes" where
  "hmac_out C k xs = the (hmac C k xs)"

definition mac_out :: "crypto \<Rightarrow> bytes \<Rightarrow> bytes list \<Rightarrow> bytes" where
  "mac_out C k xs = the (mac C k xs)"

lemma length_hash [len_simps]: "crypto_ok C \<Longrightarrow> length (hash C xs) = 32"
  by (simp add: crypto_ok_def hash_def)

lemma hmac_total:
  assumes "crypto_ok C"
  shows "hmac C k xs = Some (hmac_out C k xs)" and "length (hmac_out C k xs) = 32"
proof -
  obtain m where "hmac_blake2s C k (concat xs) = Some m" "length m = 32"
    using assms unfolding crypto_ok_def by metis
  then show "hmac C k xs = Some (hmac_out C k xs)" "length (hmac_out C k xs) = 32"
    by (simp_all add: hmac_def hmac_out_def)
qed

lemma mac_total:
  assumes "crypto_ok C" and "length k \<le> 32"
  shows "mac C k xs = Some (mac_out C k xs)" and "length (mac_out C k xs) = 16"
proof -
  obtain m where "blake2s_mac C k (concat xs) = Some m" "length m = 16"
    using assms unfolding crypto_ok_def by metis
  then show "mac C k xs = Some (mac_out C k xs)" "length (mac_out C k xs) = 16"
    by (simp_all add: mac_def mac_out_def)
qed

lemma length_public [len_simps]: "crypto_ok C \<Longrightarrow> length (x25519_public C s) = 32"
  by (simp add: crypto_ok_def)

lemma length_dh [len_simps]: "crypto_ok C \<Longrightarrow> length (x25519_dh C s p) = 32"
  by (simp add: crypto_ok_def)

lemma dh_commute:
  "crypto_ok C \<Longrightarrow> x25519_dh C s (x25519_public C s') = x25519_dh C s' (x25519_public C s)"
  unfolding crypto_ok_def by blast

lemma xchacha_new_total: "crypto_ok C \<Longrightarrow> length k = 32 \<Longrightarrow> xchacha_new C k = Some k"
  by (simp add: crypto_ok_def)

lemma length_aead_nonce [len_simps, simp]: "length (aead_nonce c) = 12"
  by (simp add: aead_nonce_def)

text \<open>The KDF's outputs: \<open>n\<close> values, each an HMAC under \<open>t0\<close> of the one before and its number.\<close>

lemma kdf_loop_total:
  assumes "crypto_ok C"
  shows "\<exists>outs. kdf_loop C t0 n i prev = Some outs \<and> length outs = n - i \<and>
    (\<forall>j < n - i. outs ! j =
       hmac_out C t0 [if j = 0 then prev else outs ! (j - 1), [of_nat (i + j + 1)]])"
proof (induction "n - i" arbitrary: i prev)
  case 0
  then show ?case by (simp add: kdf_loop.simps [of C t0 n i prev])
next
  case (Suc d)
  let ?out = "hmac_out C t0 [prev, [of_nat (i + 1)]]"
  have d: "d = n - Suc i" and lt: "i < n" using Suc.hyps(2) by auto
  obtain outs where outs: "kdf_loop C t0 n (Suc i) ?out = Some outs" "length outs = n - Suc i"
    "\<forall>j < n - Suc i. outs ! j =
       hmac_out C t0 [if j = 0 then ?out else outs ! (j - 1), [of_nat (Suc i + j + 1)]]"
    using Suc.hyps(1) [OF d, of ?out] by blast
  have "kdf_loop C t0 n i prev = Some (?out # outs)"
    using lt outs(1) by (simp add: kdf_loop.simps [of C t0 n i prev] hmac_total(1) [OF assms])
  moreover have "(?out # outs) ! j =
      hmac_out C t0 [if j = 0 then prev else (?out # outs) ! (j - 1), [of_nat (i + j + 1)]]"
    if "j < n - i" for j
  proof (cases j)
    case (Suc m)
    then show ?thesis using that outs(3) [rule_format, of m] by (cases m) simp_all
  qed simp
  ultimately show ?case using outs(2) lt by (intro exI [of _ "?out # outs"]) simp
qed

lemma kdf_total:
  assumes "crypto_ok C" and "0 < n" and "n \<le> 255"
  shows "\<exists>outs. kdf C n key input = Some outs \<and> length outs = n \<and>
    (\<forall>j < n. outs ! j = hmac_out C (hmac_out C key [input])
       (if j = 0 then [[1]] else [outs ! (j - 1), [of_nat (j + 1)]]))"
proof -
  let ?t0 = "hmac_out C key [input]"
  let ?out = "hmac_out C ?t0 [[1]]"
  obtain outs where outs: "kdf_loop C ?t0 n 1 ?out = Some outs" "length outs = n - 1"
    "\<forall>j < n - 1. outs ! j =
       hmac_out C ?t0 [if j = 0 then ?out else outs ! (j - 1), [of_nat (1 + j + 1)]]"
    using kdf_loop_total [OF assms(1)] by blast
  have "kdf C n key input = Some (?out # outs)"
    using assms outs(1) by (simp add: kdf_def hmac_total(1))
  moreover have "(?out # outs) ! j = hmac_out C ?t0
       (if j = 0 then [[1]] else [(?out # outs) ! (j - 1), [of_nat (j + 1)]])" if "j < n" for j
  proof (cases j)
    case (Suc m)
    then show ?thesis using that outs(3) [rule_format, of m] by (cases m) simp_all
  qed simp
  ultimately show ?thesis using outs(2) assms(2) by (intro exI [of _ "?out # outs"]) simp
qed

lemma kdf_lengths:
  assumes "crypto_ok C" and "0 < n" and "n \<le> 255"
  obtains outs where "kdf C n key input = Some outs" "length outs = n" "\<forall>x \<in> set outs. length x = 32"
proof -
  obtain outs where outs: "kdf C n key input = Some outs" "length outs = n"
    "\<forall>j < n. \<exists>k xs. outs ! j = hmac_out C k xs"
    using kdf_total [OF assms] by metis
  then have "\<forall>x \<in> set outs. length x = 32"
    by (metis in_set_conv_nth hmac_total(2) assms(1))
  with outs show thesis using that by blast
qed

definition kdf1_out :: "crypto \<Rightarrow> bytes \<Rightarrow> bytes \<Rightarrow> bytes" where
  "kdf1_out C k x = the (kdf1 C k x)"

definition kdf2_out :: "crypto \<Rightarrow> bytes \<Rightarrow> bytes \<Rightarrow> bytes \<times> bytes" where
  "kdf2_out C k x = the (kdf2 C k x)"

definition kdf3_out :: "crypto \<Rightarrow> bytes \<Rightarrow> bytes \<Rightarrow> bytes \<times> bytes \<times> bytes" where
  "kdf3_out C k x = the (kdf3 C k x)"

lemma kdf1_total:
  assumes "crypto_ok C"
  shows "kdf1 C k x = Some (kdf1_out C k x)" and "length (kdf1_out C k x) = 32"
proof -
  obtain outs where "kdf C 1 k x = Some outs" "length outs = 1" "\<forall>x \<in> set outs. length x = 32"
    by (rule kdf_lengths [OF assms, of 1 k x]) auto
  then show "kdf1 C k x = Some (kdf1_out C k x)" "length (kdf1_out C k x) = 32"
    by (auto simp: kdf1_def kdf1_out_def length_Suc_conv)
qed

lemma kdf2_total:
  assumes "crypto_ok C"
  shows "kdf2 C k x = Some (kdf2_out C k x)"
    and "length (fst (kdf2_out C k x)) = 32" and "length (snd (kdf2_out C k x)) = 32"
proof -
  obtain outs where "kdf C 2 k x = Some outs" "length outs = 2" "\<forall>x \<in> set outs. length x = 32"
    by (rule kdf_lengths [OF assms, of 2 k x]) auto
  then show "kdf2 C k x = Some (kdf2_out C k x)"
    "length (fst (kdf2_out C k x)) = 32" "length (snd (kdf2_out C k x)) = 32"
    by (auto simp: kdf2_def kdf2_out_def length_Suc_conv numeral_2_eq_2)
qed

lemma kdf3_total:
  assumes "crypto_ok C"
  shows "kdf3 C k x = Some (kdf3_out C k x)"
    and "length (fst (kdf3_out C k x)) = 32" and "length (fst (snd (kdf3_out C k x))) = 32"
    and "length (snd (snd (kdf3_out C k x))) = 32"
proof -
  obtain outs where "kdf C 3 k x = Some outs" "length outs = 3" "\<forall>x \<in> set outs. length x = 32"
    by (rule kdf_lengths [OF assms, of 3 k x]) auto
  then show "kdf3 C k x = Some (kdf3_out C k x)"
    "length (fst (kdf3_out C k x)) = 32" "length (fst (snd (kdf3_out C k x))) = 32"
    "length (snd (snd (kdf3_out C k x))) = 32"
    by (auto simp: kdf3_def kdf3_out_def length_Suc_conv numeral_3_eq_3)
qed

lemmas kdf_totals = kdf1_total(1) kdf2_total(1) kdf3_total(1)
lemmas kdf_length [len_simps] = kdf1_total(2) kdf2_total(2,3) kdf3_total(2,3,4)


section \<open>Sealing and opening\<close>

definition seal_out :: "crypto \<Rightarrow> AeadKey \<Rightarrow> u64 \<Rightarrow> bytes \<Rightarrow> bytes \<Rightarrow> bytes" where
  "seal_out C key counter auth_text data = the (aead_seal C key counter auth_text data)"

lemma copy_into_all: "length ys = length xs \<Longrightarrow> copy_into xs 0 (length xs) ys = Some ys"
  by (simp add: copy_into_def patch_def)

lemma aead_law_encrypt:
  assumes "aead_law nl enc dec" and "length k = 32" "length n = nl" "length p < AEAD_P_MAX"
  obtains c t where "enc k n a p = Some (c, t)" "length c = length p" "length t = 16"
    "dec k n a c t = (True, p)"
  using assms unfolding aead_law_def by blast

lemma aead_law_dec_length: "aead_law nl enc dec \<Longrightarrow> length (snd (dec k n a c t)) = length c"
  unfolding aead_law_def by blast

lemma crypto_ok_aead: "crypto_ok C \<Longrightarrow> aead_law 12 (chacha_encrypt C) (chacha_decrypt C)"
  "crypto_ok C \<Longrightarrow> aead_law 24 (xchacha_encrypt C) (xchacha_decrypt C)"
  by (simp_all add: crypto_ok_def)

lemma aead_seal_parts:
  assumes "crypto_ok C" and "length key = 32" and "16 \<le> length data"
    and "length data - 16 < AEAD_P_MAX"
  obtains c t where "aead_seal C key ctr a data = Some (c @ t)" "length c = length data - 16"
    "length t = 16" "chacha_decrypt C key (aead_nonce ctr) a c t = (True, take (length data - 16) data)"
proof -
  have "length (take (length data - 16) data) < AEAD_P_MAX" using assms(4) by simp
  then obtain c t where ct:
    "chacha_encrypt C key (aead_nonce ctr) a (take (length data - 16) data) = Some (c, t)"
    "length c = length data - 16" "length t = 16"
    "chacha_decrypt C key (aead_nonce ctr) a c t = (True, take (length data - 16) data)"
    using aead_law_encrypt [OF crypto_ok_aead(1) [OF assms(1)] assms(2) length_aead_nonce, of _ ctr a]
    by (metis diff_le_self length_take min.absorb2)
  have "copy_into (drop (length data - 16) data) 0 16 t = Some t"
    using copy_into_all [of t "drop (length data - 16) data"] ct(3) assms(3) by simp
  then have "aead_seal C key ctr a data = Some (c @ t)"
    using assms(3) ct(1) by (simp add: aead_seal_def)
  then show thesis using ct that by blast
qed

lemma aead_seal_total:
  assumes "crypto_ok C" and "length key = 32" and "16 \<le> length data"
    and "length data - 16 < AEAD_P_MAX"
  shows "aead_seal C key ctr a data = Some (seal_out C key ctr a data)"
    and "length (seal_out C key ctr a data) = length data"
proof -
  obtain c t where "aead_seal C key ctr a data = Some (c @ t)" "length c = length data - 16" "length t = 16"
    by (rule aead_seal_parts [OF assms])
  then show "aead_seal C key ctr a data = Some (seal_out C key ctr a data)"
    "length (seal_out C key ctr a data) = length data"
    using assms(3) by (simp_all add: seal_out_def)
qed

lemma aead_open_within_total:
  assumes "crypto_ok C"
  shows "\<exists>ok d. aead_open_within C key ctr a data start = Some (ok, d) \<and> length d = length data"
proof -
  have "length (snd (chacha_decrypt C key (aead_nonce ctr) a c t)) = length c" for c t
    using aead_law_dec_length [OF crypto_ok_aead(1) [OF assms]] .
  then have len: "length p = length c" if "chacha_decrypt C key (aead_nonce ctr) a c t = (ok, p)" for ok p c t
    using that by (metis snd_conv)
  show ?thesis
    by (auto simp: aead_open_within_def Let_def buf_simps not_less len split: prod.splits)
qed

text \<open>
  Opening what was sealed: whatever precedes the sealed part of the buffer, the plaintext ends up
  at its beginning.
\<close>

lemma aead_open_within_seal:
  assumes "crypto_ok C" and "length key = 32" and "16 \<le> length data"
    and "length data - 16 < AEAD_P_MAX"
    and "length buf = start + length data" and "drop start buf = seal_out C key ctr a data"
  shows "\<exists>buf'. aead_open_within C key ctr a buf start = Some (True, buf') \<and>
    length buf' = length buf \<and> take (length data - 16) buf' = take (length data - 16) data"
proof -
  let ?n = "length data - 16"
  obtain c t where seal: "aead_seal C key ctr a data = Some (c @ t)" and lc: "length c = ?n"
    and lt: "length t = 16" and dec: "chacha_decrypt C key (aead_nonce ctr) a c t = (True, take ?n data)"
    by (rule aead_seal_parts [OF assms(1-4)])
  have ct: "drop start buf = c @ t" using seal assms(6) by (simp add: seal_out_def)
  have lens: "\<not> length buf < 16" "\<not> length buf - 16 < start" "length buf - 16 = start + ?n"
    using assms(3,5) by auto
  have tag: "sub buf (length buf - 16) (length buf) = t"
    using arg_cong [OF ct, of "drop ?n"] lens assms(3,5) lc lt by (simp add: sub_def add.commute)
  have cip: "sub buf start (length buf - 16) = c"
    using ct lens(3) lc by (simp add: sub_def)
  let ?b = "patch buf start (take ?n data)"
  have b: "copy_into buf start (length buf - 16) (take ?n data) = Some ?b" "length ?b = length buf"
    "sub ?b start (start + ?n) = take ?n data"
    using lens assms(3,5) by (auto simp: buf_simps)
  show ?thesis
  proof (cases "start = 0")
    case True
    have "take ?n ?b = take ?n data" using True assms(3,5) by (simp add: patch_def)
    then show ?thesis using True lens b tag cip dec
      by (simp add: aead_open_within_def buf_simps)
  next
    case False
    let ?b' = "patch ?b 0 (take ?n data)"
    have "copy_into ?b 0 ?n (take ?n data) = Some ?b'" and "length ?b' = length buf"
      using b(2) assms(3,5) by (simp_all add: buf_simps)
    moreover have "take ?n ?b' = take ?n data" using assms(3,5) by (simp add: patch_def)
    ultimately show ?thesis using False lens b tag cip dec assms(3)
      by (simp add: aead_open_within_def buf_simps)
  qed
qed


text \<open>Whatever opens has passed the cipher's tag check, and the plaintext is at the beginning.\<close>

lemma aead_open_within_True:
  assumes "crypto_ok C" and "aead_open_within C key ctr a data start = Some (True, d)"
  shows "start + 16 \<le> length data \<and>
    chacha_decrypt C key (aead_nonce ctr) a (sub data start (length data - 16))
      (sub data (length data - 16) (length data)) = (True, take (length data - 16 - start) d)"
proof -
  have l: "16 \<le> length data" "start \<le> length data - 16"
    using assms(2) by (auto simp: aead_open_within_def Let_def split: if_splits)
  let ?c = "sub data start (length data - 16)"
  obtain ok p where dec: "chacha_decrypt C key (aead_nonce ctr) a ?c
      (sub data (length data - 16) (length data)) = (ok, p)" by fastforce
  have lp: "length p = length data - 16 - start"
    using aead_law_dec_length [OF crypto_ok_aead(1) [OF assms(1)], of key "aead_nonce ctr" a ?c] dec
    by (metis diff_le_self length_sub snd_conv)
  have "ok \<and> take (length data - 16 - start) d = p"
  proof (cases "start = 0")
    case True
    then show ?thesis using assms(2) l dec lp
      by (auto simp: aead_open_within_def Let_def buf_simps patch_def split: if_splits)
  next
    case False
    then show ?thesis using assms(2) l dec lp
      by (auto simp: aead_open_within_def Let_def buf_simps split: if_splits) (simp add: patch_def)
  qed
  then show ?thesis using l dec by simp
qed

text \<open>\<open>aead_open\<close> on exactly the sealed bytes.\<close>

lemma aead_open_seal:
  assumes "crypto_ok C" and "length key = 32" and "16 \<le> length data"
    and "length data - 16 < AEAD_P_MAX"
  shows "\<exists>buf'. aead_open C key ctr a (seal_out C key ctr a data) = Some (True, buf') \<and>
    length buf' = length data \<and> take (length data - 16) buf' = take (length data - 16) data"
  using aead_open_within_seal [OF assms, of "seal_out C key ctr a data" 0 ctr a]
    aead_seal_total(2) [OF assms, of ctr a]
  by (simp add: aead_open_def)

lemma seal_out_cong:
  assumes "length data = length data'" and "16 \<le> length data"
    and "take (length data - 16) data = take (length data - 16) data'"
  shows "seal_out C key ctr a data = seal_out C key ctr a data'"
proof -
  have "copy_into (drop (length data - 16) xs) 0 16 t =
      (if length t = 16 then Some t else None)" if "length xs = length data" for xs t :: bytes
    using that assms(2) by (simp add: copy_into_def patch_def)
  then show ?thesis using assms by (simp add: seal_out_def aead_seal_def)
qed

text \<open>The room for the tag can hold anything before the call.\<close>

lemma aead_seal_tail:
  assumes "crypto_ok C" and "length key = 32" and "length p < AEAD_P_MAX" and "length t = 16"
  shows "aead_seal C key ctr a (p @ t) = Some (seal_out C key ctr a (p @ replicate 16 0))"
    and "length (seal_out C key ctr a (p @ replicate 16 0)) = length p + 16"
proof -
  show "aead_seal C key ctr a (p @ t) = Some (seal_out C key ctr a (p @ replicate 16 0))"
    using assms seal_out_cong [of "p @ t" "p @ replicate 16 0"]
    by (simp add: aead_seal_total(1))
  show "length (seal_out C key ctr a (p @ replicate 16 0)) = length p + 16"
    using assms by (simp add: aead_seal_total(2))
qed

section \<open>The extended-nonce variant\<close>

definition xseal_out :: "crypto \<Rightarrow> bytes \<Rightarrow> bytes \<Rightarrow> bytes \<Rightarrow> bytes \<Rightarrow> bytes" where
  "xseal_out C key nonce auth_text data = the (xaead_seal C key nonce auth_text data)"

lemma xaead_seal_parts:
  assumes "crypto_ok C" and "length key = 32" and "length nonce = 24" and "16 \<le> length data"
    and "length data - 16 < AEAD_P_MAX"
  obtains c t where "xaead_seal C key nonce a data = Some (c @ t)" "length c = length data - 16"
    "length t = 16" "xaead_open C key nonce a c t = (True, take (length data - 16) data)"
proof -
  have "length (take (length data - 16) data) < AEAD_P_MAX" using assms(5) by simp
  then obtain c t where ct:
    "xchacha_encrypt C key nonce a (take (length data - 16) data) = Some (c, t)"
    "length c = length data - 16" "length t = 16"
    "xchacha_decrypt C key nonce a c t = (True, take (length data - 16) data)"
    using aead_law_encrypt [OF crypto_ok_aead(2) [OF assms(1)] assms(2,3), of _ a]
    by (metis diff_le_self length_take min.absorb2)
  have "copy_into (drop (length data - 16) data) 0 16 t = Some t"
    using copy_into_all [of t "drop (length data - 16) data"] ct(3) assms(4) by simp
  then have "xaead_seal C key nonce a data = Some (c @ t)"
    using assms(4) ct(1) by (simp add: xaead_seal_def)
  then show thesis using ct that by (simp add: xaead_open_def)
qed

lemma xaead_seal_total:
  assumes "crypto_ok C" and "length key = 32" and "length nonce = 24" and "16 \<le> length data"
    and "length data - 16 < AEAD_P_MAX"
  shows "xaead_seal C key nonce a data = Some (xseal_out C key nonce a data)"
    and "length (xseal_out C key nonce a data) = length data"
    and "xaead_open C key nonce a (take (length data - 16) (xseal_out C key nonce a data))
      (drop (length data - 16) (xseal_out C key nonce a data)) = (True, take (length data - 16) data)"
proof -
  obtain c t where "xaead_seal C key nonce a data = Some (c @ t)" "length c = length data - 16"
    "length t = 16" "xaead_open C key nonce a c t = (True, take (length data - 16) data)"
    by (rule xaead_seal_parts [OF assms])
  then show "xaead_seal C key nonce a data = Some (xseal_out C key nonce a data)"
    "length (xseal_out C key nonce a data) = length data"
    "xaead_open C key nonce a (take (length data - 16) (xseal_out C key nonce a data))
      (drop (length data - 16) (xseal_out C key nonce a data)) = (True, take (length data - 16) data)"
    using assms(4) by (simp_all add: xseal_out_def)
qed

lemma xaead_seal_tail:
  assumes "crypto_ok C" and "length key = 32" and "length nonce = 24" and "length p < AEAD_P_MAX"
    and "length t = 16"
  shows "xaead_seal C key nonce a (p @ t) = Some (xseal_out C key nonce a (p @ replicate 16 0))"
    and "length (xseal_out C key nonce a (p @ replicate 16 0)) = length p + 16"
proof -
  have "copy_into xs 0 16 y = (if length y = 16 then Some y else None)" if "length xs = 16" for xs y :: bytes
    using that by (simp add: copy_into_def patch_def)
  then have "xaead_seal C key nonce a (p @ t) = xaead_seal C key nonce a (p @ replicate 16 0)"
    using assms(5) by (simp add: xaead_seal_def)
  then show "xaead_seal C key nonce a (p @ t) = Some (xseal_out C key nonce a (p @ replicate 16 0))"
    "length (xseal_out C key nonce a (p @ replicate 16 0)) = length p + 16"
    using assms by (simp_all add: xaead_seal_total(1,2))
qed

lemma xaead_open_length:
  assumes "crypto_ok C"
  shows "length (snd (xaead_open C key nonce a c t)) = length c"
  using aead_law_dec_length [OF crypto_ok_aead(2) [OF assms]] by (simp add: xaead_open_def)

section \<open>The key derivation chain\<close>

text \<open>
  The KDF loop computes the chain of its documentation. For every admissible number of
  outputs it returns \<open>n\<close> values of 32 bytes: with \<open>t0 = Hmac(key, input)\<close>, the first is
  \<open>Hmac(t0, 1)\<close> and each further one is \<open>Hmac(t0, previous || number)\<close>. Any other number of outputs
  is a panic.
\<close>

lemma kdf_chain:
  assumes "crypto_ok C"
  shows "(if n = 0 \<or> 255 < n then kdf C n key input = None
     else \<exists>t0 outs. hmac C key [input] = Some t0 \<and> kdf C n key input = Some outs \<and> length outs = n \<and>
       hmac C t0 [[1]] = Some (outs ! 0) \<and>
       (\<forall>i. Suc i < n \<longrightarrow> hmac C t0 [outs ! i, [of_nat (i + 2)]] = Some (outs ! Suc i)) \<and>
       (\<forall>out \<in> set outs. length out = 32))"
proof (cases "n = 0 \<or> 255 < n")
  case True
  then show ?thesis by (simp add: kdf_def)
next
  case False
  then have n: "0 < n" "n \<le> 255" by auto
  let ?t0 = "hmac_out C key [input]"
  obtain outs where outs: "kdf C n key input = Some outs" "length outs = n"
    "\<forall>j < n. outs ! j = hmac_out C ?t0 (if j = 0 then [[1]] else [outs ! (j - 1), [of_nat (j + 1)]])"
    using kdf_total [OF assms n] by blast
  have "length x = 32" if "x \<in> set outs" for x
    using kdf_lengths [OF assms n, of key input] outs(1) that by auto
  moreover have "hmac C ?t0 [[1]] = Some (outs ! 0)"
    using outs(3) [rule_format, of 0] n hmac_total(1) [OF assms] by simp
  moreover have "hmac C ?t0 [outs ! i, [of_nat (i + 2)]] = Some (outs ! Suc i)" if "Suc i < n" for i
    using outs(3) [rule_format, of "Suc i"] that hmac_total(1) [OF assms] by simp
  ultimately show ?thesis using False outs(1,2) hmac_total(1) [OF assms] by simp
qed

end
