(* ===== verification/Keys.thy ===== *)
theory Keys
  imports Text Crypto
begin

text \<open>
  The textual form of keys (\<open>protocol/src/keys.rs\<close>). The base64 engine comes from the crate \<open>base64\<close> and is a
  parameter: the decoder and the encoder of its standard alphabet. A key is its 32 bytes.
\<close>

section \<open>The engine\<close>

record base64 =
  b64_decode :: "bytes \<Rightarrow> bytes option"
  b64_encode :: "bytes \<Rightarrow> bytes"

text \<open>
  What the crate documents for \<open>BASE64_STANDARD\<close>: the encoder writes letters, digits and \<open>+\<close>, \<open>/\<close>, \<open>=\<close>,
  four characters per started group of three bytes; the decoder accepts exactly what the encoder writes
  (the padding is required and trailing bits must be zero).
\<close>

definition is_base64 :: "u8 \<Rightarrow> bool" where
  "is_base64 b \<longleftrightarrow> 65 \<le> b \<and> b \<le> 90 \<or> 97 \<le> b \<and> b \<le> 122 \<or> 48 \<le> b \<and> b \<le> 57 \<or> b \<in> {43, 47, 61}"

definition base64_ok :: "base64 \<Rightarrow> bool" where
  "base64_ok B \<longleftrightarrow>
     (\<forall>s d. b64_decode B s = Some d \<longleftrightarrow> s = b64_encode B d) \<and>
     (\<forall>d. length (b64_encode B d) = 4 * ((length d + 2) div 3)) \<and>
     (\<forall>d. list_all is_base64 (b64_encode B d))"

text \<open>\<open>decode_slice\<close> and \<open>encode_slice\<close>: the number of bytes written, or an error if they do not fit.\<close>

definition decode_slice :: "base64 \<Rightarrow> bytes \<Rightarrow> bytes \<Rightarrow> (nat \<times> bytes) option" where
  "decode_slice B s buf =
     (case b64_decode B s of
        None \<Rightarrow> None
      | Some d \<Rightarrow> if length d \<le> length buf then Some (length d, patch buf 0 d) else None)"

definition encode_slice :: "base64 \<Rightarrow> bytes \<Rightarrow> bytes \<Rightarrow> (nat \<times> bytes) option" where
  "encode_slice B key buf =
     (let s = b64_encode B key
      in if length s \<le> length buf then Some (length s, patch buf 0 s) else None)"

section \<open>Parsing and printing\<close>

definition KEY_BASE64_LEN :: nat where "KEY_BASE64_LEN = 44"

datatype KeyParseError = InvalidEncoding | KeyInvalidLength

definition key_from_base64 :: "base64 \<Rightarrow> str \<Rightarrow> (KeyParseError + bytes) option" where
  "key_from_base64 B s =
     (if str_len s \<noteq> KEY_BASE64_LEN then Some (Inl KeyInvalidLength)
      else
        let buf = replicate KEY_BASE64_LEN 0
        in case decode_slice B (str_bytes s) buf of
             None \<Rightarrow> Some (Inl InvalidEncoding)
           | Some (n, buf) \<Rightarrow> do {
               key \<leftarrow> subslice buf 0 n;
               Some (if length key = 32 then Inr key else Inl KeyInvalidLength)
             })"

datatype FmtError = FmtError

definition fmt_key_base64 :: "base64 \<Rightarrow> bytes \<Rightarrow> (FmtError + str) option" where
  "fmt_key_base64 B key =
     (let buf = replicate KEY_BASE64_LEN 0
      in case encode_slice B key buf of
           None \<Rightarrow> Some (Inl FmtError)
         | Some (n, buf) \<Rightarrow> do {
             text \<leftarrow> subslice buf 0 n;
             Some (case from_utf8 text of None \<Rightarrow> Inl FmtError | Some s \<Rightarrow> Inr s)
           })"

definition PublicKey_from_str :: "base64 \<Rightarrow> str \<Rightarrow> (KeyParseError + bytes) option" where
  "PublicKey_from_str B s = key_from_base64 B s"

definition PrivateKey_from_str :: "base64 \<Rightarrow> str \<Rightarrow> (KeyParseError + bytes) option" where
  "PrivateKey_from_str B s = key_from_base64 B s"

definition PresharedKey_from_str :: "base64 \<Rightarrow> str \<Rightarrow> (KeyParseError + bytes) option" where
  "PresharedKey_from_str B s = key_from_base64 B s"

definition PublicKey_display :: "base64 \<Rightarrow> bytes \<Rightarrow> (FmtError + str) option" where
  "PublicKey_display B key = fmt_key_base64 B key"

definition PublicKey_debug :: "base64 \<Rightarrow> bytes \<Rightarrow> (FmtError + str) option" where
  "PublicKey_debug B key = do {
     r \<leftarrow> PublicKey_display B key;
     Some (case r of Inl e \<Rightarrow> Inl e | Inr s \<Rightarrow> Inr (lit ''PublicKey('' @ s @ lit '')''))
   }"

text \<open>Secret keys print as an ellipsis, U+2026, in brackets.\<close>

definition PrivateKey_debug :: "bytes \<Rightarrow> str" where
  "PrivateKey_debug key = lit ''PrivateKey('' @ [0x2026] @ lit '')''"

definition PresharedKey_debug :: "bytes \<Rightarrow> str" where
  "PresharedKey_debug key = lit ''PresharedKey('' @ [0x2026] @ lit '')''"

definition PrivateKey_public_key :: "crypto \<Rightarrow> bytes \<Rightarrow> bytes" where
  "PrivateKey_public_key C key = x25519_public C key"

text \<open>
  The label of a peer in the log (\<open>tunnel/src/actor.rs\<close>). A string is sliced by bytes, and a slice that cuts a character
  is a panic, as is \<open>to_string\<close> of a key that does not print.
\<close>

definition str_slice :: "str \<Rightarrow> nat \<Rightarrow> nat \<Rightarrow> str option" where
  "str_slice s a b = do {
     piece \<leftarrow> subslice (str_bytes s) a b;
     from_utf8 piece
   }"

definition peer_label :: "base64 \<Rightarrow> bytes \<Rightarrow> str option" where
  "peer_label B key = do {
     r \<leftarrow> PublicKey_display B key;
     b64 \<leftarrow> (case r of Inl _ \<Rightarrow> None | Inr s \<Rightarrow> Some s);
     head \<leftarrow> str_slice b64 0 4;
     tail \<leftarrow> str_slice b64 39 43;
     Some (head @ [0x2026] @ tail)
   }"

section \<open>An engine for examples\<close>

text \<open>Standard base64, over six-bit digits.\<close>

definition digit_char :: "nat \<Rightarrow> u8" where
  "digit_char n = of_nat
     (if n < 26 then n + 65 else if n < 52 then n + 71 else if n < 62 then n - 4 else if n = 62 then 43 else 47)"

definition char_digit :: "u8 \<Rightarrow> nat option" where
  "char_digit c = (let c = unat c in
     if 65 \<le> c \<and> c < 91 then Some (c - 65) else if 97 \<le> c \<and> c < 123 then Some (c - 71)
     else if 48 \<le> c \<and> c < 58 then Some (c + 4) else if c = 43 then Some 62 else if c = 47 then Some 63 else None)"

fun ex_encode :: "bytes \<Rightarrow> bytes" where
  "ex_encode [] = []"
| "ex_encode [a] = [digit_char (unat a div 4), digit_char (unat a mod 4 * 16), 61, 61]"
| "ex_encode [a, b] =
     [digit_char (unat a div 4), digit_char (unat a mod 4 * 16 + unat b div 16), digit_char (unat b mod 16 * 4), 61]"
| "ex_encode (a # b # c # bs) =
     digit_char (unat a div 4) # digit_char (unat a mod 4 * 16 + unat b div 16) #
     digit_char (unat b mod 16 * 4 + unat c div 64) # digit_char (unat c mod 64) # ex_encode bs"

definition byte1 :: "nat \<Rightarrow> nat \<Rightarrow> u8" where "byte1 x y = of_nat (x * 4 + y div 16)"
definition byte2 :: "nat \<Rightarrow> nat \<Rightarrow> u8" where "byte2 y z = of_nat (y mod 16 * 16 + z div 4)"
definition byte3 :: "nat \<Rightarrow> nat \<Rightarrow> u8" where "byte3 z w = of_nat (z mod 4 * 64 + w)"

fun ex_decode :: "bytes \<Rightarrow> bytes option" where
  "ex_decode [] = Some []"
| "ex_decode (p # q # r # s # rest) =
     (case (char_digit p, char_digit q) of
        (Some x, Some y) \<Rightarrow>
          (if s = 61 \<and> rest = [] then
             (if r = 61 then (if y mod 16 = 0 then Some [byte1 x y] else None)
              else case char_digit r of
                None \<Rightarrow> None
              | Some z \<Rightarrow> if z mod 4 = 0 then Some [byte1 x y, byte2 y z] else None)
           else case (char_digit r, char_digit s) of
             (Some z, Some w) \<Rightarrow> map_option (\<lambda>ds. byte1 x y # byte2 y z # byte3 z w # ds) (ex_decode rest)
           | _ \<Rightarrow> None)
      | _ \<Rightarrow> None)"
| "ex_decode _ = None"

definition ex_base64 :: base64 where
  "ex_base64 = \<lparr>b64_decode = ex_decode, b64_encode = ex_encode\<rparr>"

lemma u8_lt: "unat (a :: u8) < 256"
  using unsigned_less [of a] by simp

lemma u8_of_nat: "n < 256 \<Longrightarrow> unat (of_nat n :: u8) = n"
  by (simp add: unat_of_nat)

lemma digit_char_digit: "n < 64 \<Longrightarrow> char_digit (digit_char n) = Some n \<and> digit_char n \<noteq> 61 \<and> is_base64 (digit_char n)"
  by (auto simp: Let_def digit_char_def char_digit_def is_base64_def unat_of_nat word_le_nat_alt word_unat_eq_iff)

lemma char_digit_char: "char_digit c = Some n \<Longrightarrow> n < 64 \<and> digit_char n = c"
  by (auto simp: digit_char_def char_digit_def Let_def unat_of_nat word_unat_eq_iff split: if_splits)

lemma quotient_lt [simp]: "unat (a :: u8) div 4 < 64" "unat a div 16 < 16" "unat a div 64 < 4"
  using u8_lt [of a] by linarith+

lemma join_parts [simp]:
  fixes k m n :: nat
  assumes "n < k"
  shows "(m * k + n) div k = m" "(m * k + n) mod k = n"
  using assms by simp_all

lemma parts_lt: "(m :: nat) < i \<Longrightarrow> n < k \<Longrightarrow> m * k + n < i * k"
proof -
  assume "m < i" "n < k"
  then have "m * k + n < (m + 1) * k" by simp
  also have "\<dots> \<le> i * k" using \<open>m < i\<close> by (intro mult_le_mono1) simp
  finally show ?thesis .
qed

lemma digits_lt [simp]:
  fixes a b c :: u8
  shows "unat a mod 4 * 16 + unat b div 16 < 64" "unat a mod 4 * 16 < 64"
    "unat b mod 16 * 4 + unat c div 64 < 64" "unat b mod 16 * 4 < 64"
  using parts_lt [of "unat a mod 4" 4 "unat b div 16" 16] parts_lt [of "unat a mod 4" 4 0 16]
    parts_lt [of "unat b mod 16" 16 "unat c div 64" 4] parts_lt [of "unat b mod 16" 16 0 4] by simp_all

lemma bytes_of_digits:
  fixes a b c :: u8
  shows "byte1 (unat a div 4) (unat a mod 4 * 16 + unat b div 16) = a"
    and "byte1 (unat a div 4) (unat a mod 4 * 16) = a"
    and "byte2 (unat a mod 4 * 16 + unat b div 16) (unat b mod 16 * 4 + unat c div 64) = b"
    and "byte2 (unat a mod 4 * 16 + unat b div 16) (unat b mod 16 * 4) = b"
    and "byte3 (unat b mod 16 * 4 + unat c div 64) (unat c mod 64) = c"
  unfolding byte1_def byte2_def byte3_def join_parts [OF quotient_lt(2)] join_parts [OF quotient_lt(3)]
  by simp_all

lemma digits_of_bytes:
  "x < 64 \<Longrightarrow> y < 64 \<Longrightarrow> unat (byte1 x y) div 4 = x" "x < 64 \<Longrightarrow> y < 64 \<Longrightarrow> unat (byte1 x y) mod 4 = y div 16"
  "z < 64 \<Longrightarrow> unat (byte2 y z) div 16 = y mod 16" "z < 64 \<Longrightarrow> unat (byte2 y z) mod 16 = z div 4"
  "w < 64 \<Longrightarrow> unat (byte3 z w) div 64 = z mod 4" "w < 64 \<Longrightarrow> unat (byte3 z w) mod 64 = w"
proof -
  have lt: "y < 64 \<Longrightarrow> y div 16 < 4" "z < 64 \<Longrightarrow> z div 4 < 16" by linarith+
  have "unat (byte1 x y) = x * 4 + y div 16" if "x < 64" "y < 64"
    unfolding byte1_def using parts_lt [OF that(1) lt(1) [OF that(2)]] by (simp only: u8_of_nat)
  then show "x < 64 \<Longrightarrow> y < 64 \<Longrightarrow> unat (byte1 x y) div 4 = x" "x < 64 \<Longrightarrow> y < 64 \<Longrightarrow> unat (byte1 x y) mod 4 = y div 16"
    using lt by simp_all
  have "unat (byte2 y z) = y mod 16 * 16 + z div 4" if "z < 64"
    unfolding byte2_def using parts_lt [of "y mod 16" 16, OF _ lt(2) [OF that]] by (intro u8_of_nat) simp
  then show "z < 64 \<Longrightarrow> unat (byte2 y z) div 16 = y mod 16" "z < 64 \<Longrightarrow> unat (byte2 y z) mod 16 = z div 4"
    using lt by simp_all
  have "unat (byte3 z w) = z mod 4 * 64 + w" if "w < 64"
    unfolding byte3_def using parts_lt [of "z mod 4" 4 w 64] that by (intro u8_of_nat) simp
  then show "w < 64 \<Longrightarrow> unat (byte3 z w) div 64 = z mod 4" "w < 64 \<Longrightarrow> unat (byte3 z w) mod 64 = w"
    by simp_all
qed

lemma ex_decode_encode: "ex_decode (ex_encode d) = Some d"
  by (induction d rule: ex_encode.induct) (simp_all add: digit_char_digit bytes_of_digits)

lemma ex_encode_decode: "ex_decode s = Some d \<Longrightarrow> ex_encode d = s"
proof (induction s arbitrary: d rule: ex_decode.induct)
  case (2 p q r s rest)
  obtain x y where xy: "char_digit p = Some x" "char_digit q = Some y" using "2.prems" by (auto split: option.splits)
  note c = char_digit_char [OF xy(1)] char_digit_char [OF xy(2)]
  show ?case
  proof (cases "s = 61 \<and> rest = []")
    case True
    then show ?thesis using "2.prems" xy c
      by (auto simp: digits_of_bytes dest!: char_digit_char split: if_splits option.splits)
  next
    case False
    then obtain z w ds where zw: "char_digit r = Some z" "char_digit s = Some w" "ex_decode rest = Some ds"
      and d: "d = byte1 x y # byte2 y z # byte3 z w # ds"
      using "2.prems" xy by (auto split: option.splits)
    then have "ex_encode ds = rest" using "2.IH" xy False by blast
    then show ?thesis using d c char_digit_char [OF zw(1)] char_digit_char [OF zw(2)] by (simp add: digits_of_bytes)
  qed
qed auto

lemma ex_base64_ok: "base64_ok ex_base64"
proof -
  have "length (ex_encode d) = 4 * ((length d + 2) div 3)" for d
    by (induction d rule: ex_encode.induct) (simp_all, presburger)
  moreover have "list_all is_base64 (ex_encode d)" for d
    by (induction d rule: ex_encode.induct) (simp_all add: digit_char_digit is_base64_def [of 61])
  ultimately show ?thesis unfolding base64_ok_def ex_base64_def
    using ex_decode_encode ex_encode_decode by auto
qed

section \<open>Keys as text\<close>

lemma base64_okD:
  assumes "base64_ok B"
  shows "b64_decode B s = Some d \<longleftrightarrow> s = b64_encode B d" "length (b64_encode B d) = 4 * ((length d + 2) div 3)"
    "list_all is_base64 (b64_encode B d)"
  using assms unfolding base64_ok_def by blast+

lemma base64_ascii: "base64_ok B \<Longrightarrow> \<forall>b \<in> set (b64_encode B d). b < 0x80"
  using base64_okD(3) [of B d] by (auto simp: list_all_iff is_base64_def word_less_nat_alt word_le_nat_alt)

text \<open>The text of a key is its encoding, read as a string.\<close>

definition key_text :: "base64 \<Rightarrow> bytes \<Rightarrow> str" where
  "key_text B key = map unat (b64_encode B key)"

lemma str_bytes_key_text: "base64_ok B \<Longrightarrow> str_bytes (key_text B key) = b64_encode B key"
  by (simp add: key_text_def str_bytes_ascii base64_ascii)

lemma fmt_key_base64_eq:
  assumes "base64_ok B" and "length key = 32"
  shows "fmt_key_base64 B key = Some (Inr (key_text B key))"
proof -
  have "length (b64_encode B key) = 44" using base64_okD(2) [OF assms(1)] assms(2) by simp
  then show ?thesis
    by (simp add: fmt_key_base64_def encode_slice_def KEY_BASE64_LEN_def buf_simps patch_def
        from_utf8_ascii [OF base64_ascii [OF assms(1)]] key_text_def)
qed

lemma decode_slice_key:
  assumes "base64_ok B" and "length s = 44"
  shows "decode_slice B s (replicate 44 0) =
    map_option (\<lambda>d. (length d, patch (replicate 44 0) 0 d)) (b64_decode B s)"
    and "b64_decode B s = Some d \<Longrightarrow> length d \<le> 33"
proof -
  show "length d \<le> 33" if "b64_decode B s = Some d" for d
    using base64_okD(1) [OF assms(1), of s d] base64_okD(2) [OF assms(1), of d] that assms(2) by simp
  then show "decode_slice B s (replicate 44 0) =
    map_option (\<lambda>d. (length d, patch (replicate 44 0) 0 d)) (b64_decode B s)"
    by (fastforce simp: decode_slice_def split: option.split)
qed

lemma key_from_base64_eq:
  assumes "base64_ok B"
  shows "key_from_base64 B s = Some
    (if str_len s \<noteq> 44 then Inl KeyInvalidLength
     else case b64_decode B (str_bytes s) of
            None \<Rightarrow> Inl InvalidEncoding
          | Some key \<Rightarrow> if length key = 32 then Inr key else Inl KeyInvalidLength)"
proof (cases "str_len s = 44")
  case True
  then have l: "length (str_bytes s) = 44" by (simp add: str_len_def)
  show ?thesis
  proof (cases "b64_decode B (str_bytes s)")
    case (Some d)
    then show ?thesis using True decode_slice_key(2) [OF assms l Some]
      by (simp add: key_from_base64_def KEY_BASE64_LEN_def decode_slice_key(1) [OF assms l] buf_simps)
  qed (simp add: key_from_base64_def KEY_BASE64_LEN_def True decode_slice_key(1) [OF assms l])
qed (simp add: key_from_base64_def KEY_BASE64_LEN_def)

lemma key_from_base64_total: "base64_ok B \<Longrightarrow> \<exists>r. key_from_base64 B s = Some r"
  by (simp add: key_from_base64_eq)

lemma key_from_base64_32: "base64_ok B \<Longrightarrow> key_from_base64 B s = Some (Inr key) \<Longrightarrow> length key = 32"
  by (auto simp: key_from_base64_eq split: if_splits option.splits)

lemma key_from_base64_iff:
  assumes "base64_ok B"
  shows "key_from_base64 B s = Some (Inr key) \<longleftrightarrow> length key = 32 \<and> str_bytes s = b64_encode B key"
  using base64_okD(1) [OF assms, of "str_bytes s" key] base64_okD(2) [OF assms, of key]
  by (cases "b64_decode B (str_bytes s)") (auto simp: key_from_base64_eq [OF assms] str_len_def)

text \<open>The label of a peer never cuts a character.\<close>

lemma peer_label_total:
  assumes "base64_ok B" and "length key = 32"
  shows "\<exists>label. peer_label B key = Some label \<and> length label = 9"
proof -
  let ?s = "b64_encode B key"
  have l: "length ?s = 44" using base64_okD(2) [OF assms(1), of key] assms(2) by simp
  have "str_slice (key_text B key) a b = Some (map unat (sub ?s a b))" if "a \<le> b" "b \<le> 44" for a b
  proof -
    have "\<forall>x \<in> set (sub ?s a b). x < 0x80"
      using base64_ascii [OF assms(1), of key] by (auto simp: sub_def dest!: in_set_takeD in_set_dropD)
    then show ?thesis using that l by (simp add: str_slice_def str_bytes_key_text [OF assms(1)] buf_simps from_utf8_ascii)
  qed
  then show ?thesis
    using l by (simp add: peer_label_def PublicKey_display_def fmt_key_base64_eq [OF assms] sub_def)
qed



end
