(* ===== verification/Net.thy ===== *)
theory Net
  imports Prelude
begin

text \<open>
  The address types of the standard library that the code copies, compares and encodes:
  \<open>IpAddr\<close> and \<open>SocketAddr\<close>. An address is its number in network order; the flow information and
  scope id of an IPv6 socket address are never read by the code and are left out.
\<close>

datatype IpAddr = V4 "32 word" | V6 "128 word"

record SocketAddr =
  sa_ip :: IpAddr
  sa_port :: u16

text \<open>\<open>Ipv4Addr::octets\<close> and \<open>Ipv6Addr::octets\<close>, and back (\<open>From<[u8; N]>\<close>).\<close>

fun octets :: "IpAddr \<Rightarrow> bytes" where
  "octets (V4 a) = be_bytes a"
| "octets (V6 a) = be_bytes a"

definition v4_from :: "bytes \<Rightarrow> IpAddr" where
  "v4_from bs = V4 (of_be_bytes bs)"

definition v6_from :: "bytes \<Rightarrow> IpAddr" where
  "v6_from bs = V6 (of_be_bytes bs)"

text \<open>An address for examples.\<close>

definition ex_addr :: SocketAddr where
  "ex_addr = \<lparr>sa_ip = V4 0x7F000001, sa_port = 51820\<rparr>"

lemma of_be_bytes_be_bytes: "8 dvd LENGTH('a::len) \<Longrightarrow> of_be_bytes (be_bytes (w :: 'a word)) = w"
  by (simp add: of_be_bytes_def be_bytes_def of_le_bytes_le_bytes)

lemma be_bytes_inject:
  assumes "8 dvd LENGTH('a::len)"
  shows "be_bytes (v :: 'a word) = be_bytes w \<longleftrightarrow> v = w"
  by (metis of_be_bytes_be_bytes [OF assms])

lemma be_bytes_injects [simp]:
  "be_bytes (a :: 32 word) = be_bytes b \<longleftrightarrow> a = b"
  "be_bytes (c :: 128 word) = be_bytes d \<longleftrightarrow> c = d"
  "be_bytes (p :: u16) = be_bytes q \<longleftrightarrow> p = q"
  by (rule be_bytes_inject; simp)+

lemma octets_length: "length (octets a) = (case a of V4 _ \<Rightarrow> 4 | V6 _ \<Rightarrow> 16)"
  by (cases a) simp_all

lemma octets_from [simp]: "v4_from (octets (V4 a)) = V4 a" "v6_from (octets (V6 b)) = V6 b"
  by (simp_all add: v4_from_def v6_from_def of_be_bytes_be_bytes)

end
