(* ===== verification/AllowedIps.thy ===== *)
theory AllowedIps
  imports Net
begin

text \<open>
  The cryptokey routing table (\<open>tunstile/src/allowed_ips.rs\<close>): a list of prefixes with their
  values, looked up by longest prefix. Prefixes come from the crate \<open>ipnet\<close> and are a parameter: the
  type of networks with the three operations the table calls.

  The locale \<open>prefix_table\<close> is the contract of such a table: it stands for a finite map from
  truncated prefixes to values. What its clients use is proved from the contract.
\<close>

section \<open>Networks\<close>

record 'net ipnet =
  net_trunc :: "'net \<Rightarrow> 'net"
  net_contains :: "'net \<Rightarrow> IpAddr \<Rightarrow> bool"
  net_prefix_len :: "'net \<Rightarrow> nat"

text \<open>
  What \<open>ipnet\<close> documents: \<open>trunc\<close> clears the host bits, which changes neither the addresses nor the
  length of the prefix, and networks of one length are equal or disjoint.
\<close>

definition ipnet_ok :: "'net ipnet \<Rightarrow> bool" where
  "ipnet_ok N \<longleftrightarrow>
     (\<forall>n. net_trunc N (net_trunc N n) = net_trunc N n) \<and>
     (\<forall>n a. net_contains N (net_trunc N n) a = net_contains N n a) \<and>
     (\<forall>n. net_prefix_len N (net_trunc N n) = net_prefix_len N n) \<and>
     (\<forall>m n a. net_prefix_len N m = net_prefix_len N n \<longrightarrow> net_contains N m a \<longrightarrow> net_contains N n a \<longrightarrow>
        net_trunc N m = net_trunc N n)"

lemma ipnet_okD:
  assumes "ipnet_ok N"
  shows "net_trunc N (net_trunc N n) = net_trunc N n"
    and "net_contains N (net_trunc N n) a = net_contains N n a"
    and "net_prefix_len N (net_trunc N n) = net_prefix_len N n"
    and "net_prefix_len N m = net_prefix_len N n \<Longrightarrow> net_contains N m a \<Longrightarrow> net_contains N n a \<Longrightarrow>
      net_trunc N m = net_trunc N n"
  using assms unfolding ipnet_ok_def by blast+

section \<open>The table\<close>

record ('net, 'v) AllowedIps =
  ai_entries :: "('net \<times> 'v) list"

definition AllowedIps_default :: "('net, 'v) AllowedIps" where
  "AllowedIps_default = \<lparr>ai_entries = []\<rparr>"

definition AllowedIps_new :: "('net, 'v) AllowedIps" where
  "AllowedIps_new = AllowedIps_default"

text \<open>\<open>iter_mut().find(..)\<close> and the assignment through what it finds.\<close>

fun replace_first :: "('net \<times> 'v) list \<Rightarrow> 'net \<Rightarrow> 'v \<Rightarrow> ('net \<times> 'v) list option" where
  "replace_first [] net v = None"
| "replace_first ((n, w) # es) net v =
     (if n = net then Some ((n, v) # es) else map_option ((#) (n, w)) (replace_first es net v))"

definition AllowedIps_insert ::
  "'net ipnet \<Rightarrow> ('net, 'v) AllowedIps \<Rightarrow> 'net \<Rightarrow> 'v \<Rightarrow> ('net, 'v) AllowedIps" where
  "AllowedIps_insert N t net v =
     (let net = net_trunc N net
      in case replace_first (ai_entries t) net v of
           Some es \<Rightarrow> t\<lparr>ai_entries := es\<rparr>
         | None \<Rightarrow> t\<lparr>ai_entries := ai_entries t @ [(net, v)]\<rparr>)"

definition AllowedIps_retain :: "('net, 'v) AllowedIps \<Rightarrow> ('v \<Rightarrow> bool) \<Rightarrow> ('net, 'v) AllowedIps" where
  "AllowedIps_retain t keep = t\<lparr>ai_entries := filter (\<lambda>(_, v). keep v) (ai_entries t)\<rparr>"

text \<open>\<open>Iterator::max_by_key\<close>: the last element with the greatest key.\<close>

fun max_by_key :: "('a \<Rightarrow> nat) \<Rightarrow> 'a list \<Rightarrow> 'a option" where
  "max_by_key key [] = None"
| "max_by_key key (x # xs) = Some (foldl (\<lambda>best y. if key best > key y then best else y) x xs)"

definition longest_match :: "'net ipnet \<Rightarrow> ('net, 'v) AllowedIps \<Rightarrow> IpAddr \<Rightarrow> 'v option" where
  "longest_match N t addr =
     map_option snd
       (max_by_key (\<lambda>(n, _). net_prefix_len N n) (filter (\<lambda>(n, _). net_contains N n addr) (ai_entries t)))"

section \<open>The contract\<close>

text \<open>
  A table stands for a map from prefixes to values. A lookup finds the value of the longest prefix
  in the map that contains the address.
\<close>

definition longest :: "('net \<rightharpoonup> 'v) \<Rightarrow> ('net \<Rightarrow> IpAddr \<Rightarrow> bool) \<Rightarrow> ('net \<Rightarrow> nat) \<Rightarrow> IpAddr \<Rightarrow> 'net \<Rightarrow> bool" where
  "longest m covers len addr n \<longleftrightarrow> n \<in> dom m \<and> covers n addr \<and>
     (\<forall>n' \<in> dom m. covers n' addr \<longrightarrow> len n' \<le> len n)"

definition restrict_values :: "('k \<rightharpoonup> 'v) \<Rightarrow> ('v \<Rightarrow> bool) \<Rightarrow> 'k \<rightharpoonup> 'v" where
  "restrict_values m keep = (\<lambda>k. case m k of Some v \<Rightarrow> if keep v then Some v else None | None \<Rightarrow> None)"

lemma restrict_values_Some: "restrict_values m keep k = Some v \<longleftrightarrow> m k = Some v \<and> keep v"
  by (auto simp: restrict_values_def split: option.splits)

locale prefix_table =
  fixes inv :: "'t \<Rightarrow> bool" and abs :: "'t \<Rightarrow> 'net \<rightharpoonup> 'v"
    and insert :: "'t \<Rightarrow> 'net \<Rightarrow> 'v \<Rightarrow> 't" and retain :: "'t \<Rightarrow> ('v \<Rightarrow> bool) \<Rightarrow> 't"
    and lookup :: "'t \<Rightarrow> IpAddr \<Rightarrow> 'v option"
    and trunc :: "'net \<Rightarrow> 'net" and covers :: "'net \<Rightarrow> IpAddr \<Rightarrow> bool" and len :: "'net \<Rightarrow> nat"
  assumes inv_insert: "inv t \<Longrightarrow> inv (insert t n v)"
    and inv_retain: "inv t \<Longrightarrow> inv (retain t keep)"
    and abs_insert: "inv t \<Longrightarrow> abs (insert t n v) = (abs t)(trunc n \<mapsto> v)"
    and abs_retain: "inv t \<Longrightarrow> abs (retain t keep) = restrict_values (abs t) keep"
    and covers_trunc: "inv t \<Longrightarrow> covers (trunc n) addr = covers n addr"
    and lookup_iff: "inv t \<Longrightarrow> lookup t addr = Some v \<longleftrightarrow> (\<exists>n. longest (abs t) covers len addr n \<and> abs t n = Some v)"
    and lookup_covered: "inv t \<Longrightarrow> n \<in> dom (abs t) \<Longrightarrow> covers n addr \<Longrightarrow> lookup t addr \<noteq> None"
    and longest_unique: "inv t \<Longrightarrow> longest (abs t) covers len addr n \<Longrightarrow> longest (abs t) covers len addr n' \<Longrightarrow> n = n'"
begin

lemma lookup_None: "inv t \<Longrightarrow> lookup t addr = None \<longleftrightarrow> (\<forall>n. \<not> longest (abs t) covers len addr n)"
  using lookup_iff [of t addr] by (metis domD longest_def option.collapse option.distinct(1))

lemma lookup_owner: "inv t \<Longrightarrow> lookup t addr = Some v \<Longrightarrow> v \<in> ran (abs t)"
  using lookup_iff by (metis ranI)

text \<open>An insertion changes the lookup only of addresses inside the prefix.\<close>

lemma lookup_insert_outside:
  assumes t: "inv t" and out: "\<not> covers n addr"
  shows "lookup (insert t n v) addr = lookup t addr"
proof -
  have "longest (abs (insert t n v)) covers len addr n' = longest (abs t) covers len addr n'" for n'
    using out covers_trunc [OF t] by (auto simp: longest_def abs_insert [OF t])
  moreover have "abs (insert t n v) n' = abs t n'" if "covers n' addr" for n'
    using out that covers_trunc [OF t] by (auto simp: abs_insert [OF t])
  ultimately have "lookup (insert t n v) addr = Some w \<longleftrightarrow> lookup t addr = Some w" for w
    unfolding lookup_iff [OF t] lookup_iff [OF inv_insert [OF t]] by (metis longest_def)
  then show ?thesis by (metis not_None_eq)
qed

text \<open>Inside it, the new value is found unless a longer prefix is in the table.\<close>

lemma lookup_insert_inside:
  assumes t: "inv t" and "covers n addr"
    and "\<And>n'. n' \<in> dom (abs t) \<Longrightarrow> covers n' addr \<Longrightarrow> len n' \<le> len (trunc n)"
  shows "lookup (insert t n v) addr = Some v"
  unfolding lookup_iff [OF inv_insert [OF t]] abs_insert [OF t] longest_def
  by (rule exI [of _ "trunc n"]) (use assms covers_trunc [OF t] in auto)

text \<open>Dropping values: what is found is kept by the predicate, and a kept answer stays the answer.\<close>

lemma lookup_retain:
  assumes "inv t" and "lookup (retain t keep) addr = Some v"
  shows "keep v"
  using assms lookup_owner [OF inv_retain [OF assms(1)] assms(2)]
  by (auto simp: abs_retain ran_def restrict_values_Some)

lemma lookup_retain_kept:
  assumes t: "inv t" and "lookup t addr = Some v" and "keep v"
  shows "lookup (retain t keep) addr = Some v"
proof -
  obtain n where "longest (abs t) covers len addr n" "abs t n = Some v"
    using assms(2) lookup_iff [OF t] by blast
  then have "longest (abs (retain t keep)) covers len addr n" "abs (retain t keep) n = Some v"
    using assms(3) by (auto simp: longest_def abs_retain [OF t] restrict_values_Some dom_def)
  then show ?thesis using lookup_iff [OF inv_retain [OF t]] by blast
qed

lemma inv_inserts: "inv t \<Longrightarrow> inv (foldl (\<lambda>t n. insert t n v) t ns)"
  by (induction ns arbitrary: t) (simp_all add: inv_insert)

lemma abs_inserts:
  "inv t \<Longrightarrow> abs (foldl (\<lambda>t n. insert t n v) t ns) =
     (\<lambda>n. if n \<in> trunc ` set ns then Some v else abs t n)"
  by (induction ns arbitrary: t) (auto simp: inv_insert abs_insert fun_eq_iff)

text \<open>With one value for all prefixes, every address they cover has that value.\<close>

lemma lookup_inserts:
  assumes t: "inv t" "abs t = Map.empty" and n: "n \<in> set ns" "covers n addr"
  shows "lookup (foldl (\<lambda>t n. insert t n v) t ns) addr = Some v"
proof -
  let ?t = "foldl (\<lambda>t n. insert t n v) t ns"
  have map: "abs ?t = (\<lambda>n. if n \<in> trunc ` set ns then Some v else None)"
    unfolding abs_inserts [OF t(1)] t(2) by simp
  have "trunc n \<in> dom (abs ?t)" "covers (trunc n) addr" using n covers_trunc [OF t(1)] by (auto simp: map dom_def)
  then obtain w where w: "lookup ?t addr = Some w" using lookup_covered [OF inv_inserts [OF t(1)]] by blast
  then have "w = v" using lookup_owner [OF inv_inserts [OF t(1)] w] by (auto simp: map ran_def split: if_splits)
  with w show ?thesis by simp
qed

end

section \<open>The list implements the contract\<close>

definition AllowedIps_ok :: "'net ipnet \<Rightarrow> ('net, 'v) AllowedIps \<Rightarrow> bool" where
  "AllowedIps_ok N t \<longleftrightarrow> distinct (map fst (ai_entries t)) \<and> (\<forall>n \<in> fst ` set (ai_entries t). net_trunc N n = n)"

definition AllowedIps_abs :: "('net, 'v) AllowedIps \<Rightarrow> 'net \<rightharpoonup> 'v" where
  "AllowedIps_abs t = map_of (ai_entries t)"

lemma replace_first_Some:
  "replace_first es net v = Some es' \<Longrightarrow> map fst es' = map fst es \<and> map_of es' = (map_of es)(net \<mapsto> v)"
  by (induction es arbitrary: es') (auto simp: fun_upd_twist split: if_splits)

lemma replace_first_None: "replace_first es net v = None \<longleftrightarrow> net \<notin> fst ` set es"
  by (induction es net v rule: replace_first.induct) auto

lemma AllowedIps_new_ok: "AllowedIps_ok N AllowedIps_new" "AllowedIps_abs AllowedIps_new = Map.empty"
  by (simp_all add: AllowedIps_ok_def AllowedIps_abs_def AllowedIps_new_def AllowedIps_default_def)

lemma AllowedIps_insert_ok:
  assumes N: "ipnet_ok N" and t: "AllowedIps_ok N t"
  shows "AllowedIps_ok N (AllowedIps_insert N t net v)"
    and "AllowedIps_abs (AllowedIps_insert N t net v) = (AllowedIps_abs t)(net_trunc N net \<mapsto> v)"
proof -
  let ?n = "net_trunc N net"
  have "AllowedIps_ok N (AllowedIps_insert N t net v) \<and>
    AllowedIps_abs (AllowedIps_insert N t net v) = (AllowedIps_abs t)(?n \<mapsto> v)"
  proof (cases "replace_first (ai_entries t) ?n v")
    case None
    then have "?n \<notin> fst ` set (ai_entries t)" by (simp add: replace_first_None)
    moreover from this have "map_of (ai_entries t) ?n = None" by (simp add: map_of_eq_None_iff)
    ultimately show ?thesis using None t ipnet_okD(1) [OF N]
      by (auto simp: AllowedIps_ok_def AllowedIps_abs_def AllowedIps_insert_def Let_def map_add_def fun_eq_iff
          split: option.split)
  next
    case (Some es)
    have "fst ` set es = fst ` set (ai_entries t)"
      using replace_first_Some [OF Some] by (metis list.set_map)
    then show ?thesis using Some t replace_first_Some [OF Some]
      by (simp add: AllowedIps_ok_def AllowedIps_abs_def AllowedIps_insert_def Let_def)
  qed
  then show "AllowedIps_ok N (AllowedIps_insert N t net v)"
    "AllowedIps_abs (AllowedIps_insert N t net v) = (AllowedIps_abs t)(?n \<mapsto> v)" by blast+
qed

lemma AllowedIps_retain_ok:
  assumes t: "AllowedIps_ok N t"
  shows "AllowedIps_ok N (AllowedIps_retain t keep)"
    and "AllowedIps_abs (AllowedIps_retain t keep) = restrict_values (AllowedIps_abs t) keep"
proof -
  show "AllowedIps_ok N (AllowedIps_retain t keep)"
    using t by (auto simp: AllowedIps_ok_def AllowedIps_retain_def intro: distinct_map_filter)
  have "distinct (map fst es) \<Longrightarrow> map_of (filter (\<lambda>(_, v). keep v) es) = restrict_values (map_of es) keep"
    for es :: "('a \<times> 'b) list"
  proof (induction es)
    case (Cons e es)
    then have "map_of es (fst e) = None" by (simp add: map_of_eq_None_iff)
    then show ?case using Cons by (cases e) (auto simp: restrict_values_def fun_eq_iff)
  qed (simp add: restrict_values_def)
  then show "AllowedIps_abs (AllowedIps_retain t keep) = restrict_values (AllowedIps_abs t) keep"
    using t by (simp add: AllowedIps_abs_def AllowedIps_retain_def AllowedIps_ok_def)
qed

lemma foldl_best:
  "foldl (\<lambda>best y. if key best > (key y :: nat) then best else y) x xs \<in> set (x # xs) \<and>
   (\<forall>y \<in> set (x # xs). key y \<le> key (foldl (\<lambda>best y. if key best > key y then best else y) x xs))"
proof (induction xs arbitrary: x)
  case (Cons y xs)
  show ?case
  proof (cases "key y < key x")
    case True
    then show ?thesis using Cons.IH [of x] by (auto intro: order_trans less_imp_le)
  next
    case False
    then show ?thesis using Cons.IH [of y] by (auto intro: order_trans)
  qed
qed simp

lemma max_by_key_Some: "max_by_key key xs = Some x \<Longrightarrow> x \<in> set xs \<and> (\<forall>y \<in> set xs. key y \<le> key x)"
  using foldl_best by (cases xs) fastforce+

lemma max_by_key_None: "max_by_key key xs = None \<longleftrightarrow> xs = []"
  by (cases xs) simp_all

lemma longest_unique:
  assumes N: "ipnet_ok N" and t: "AllowedIps_ok N t"
    and "longest (AllowedIps_abs t) (net_contains N) (net_prefix_len N) addr n"
    and "longest (AllowedIps_abs t) (net_contains N) (net_prefix_len N) addr n'"
  shows "n = n'"
proof -
  have "net_prefix_len N n = net_prefix_len N n'" "net_contains N n addr" "net_contains N n' addr"
    using assms(3,4) by (auto simp: longest_def intro: order_antisym)
  then have "net_trunc N n = net_trunc N n'" by (rule ipnet_okD(4) [OF N])
  moreover have "net_trunc N k = k" if "k \<in> dom (AllowedIps_abs t)" for k
    using t that by (auto simp: AllowedIps_ok_def AllowedIps_abs_def dom_map_of_conv_image_fst)
  ultimately show ?thesis using assms(3,4) unfolding longest_def by metis
qed

lemma longest_match_iff:
  assumes N: "ipnet_ok N" and t: "AllowedIps_ok N t"
  shows "longest_match N t addr = Some v \<longleftrightarrow>
    (\<exists>n. longest (AllowedIps_abs t) (net_contains N) (net_prefix_len N) addr n \<and> AllowedIps_abs t n = Some v)"
    (is "?l \<longleftrightarrow> (\<exists>n. ?best n \<and> _)")
proof -
  let ?es = "filter (\<lambda>(n, _). net_contains N n addr) (ai_entries t)"
  let ?max = "max_by_key (\<lambda>(n, _). net_prefix_len N n) ?es"
  have of: "AllowedIps_abs t n = Some w \<longleftrightarrow> (n, w) \<in> set (ai_entries t)" for n w
    using t by (simp add: AllowedIps_abs_def AllowedIps_ok_def)
  have best: "?best n \<and> AllowedIps_abs t n = Some w" if "?max = Some (n, w)" for n w
    using max_by_key_Some [OF that] by (fastforce simp: longest_def of dom_def)
  show ?thesis
  proof
    assume ?l
    then show "\<exists>n. ?best n \<and> AllowedIps_abs t n = Some v" using best by (auto simp: longest_match_def)
  next
    assume "\<exists>n. ?best n \<and> AllowedIps_abs t n = Some v"
    then obtain n where n: "?best n" "AllowedIps_abs t n = Some v" by blast
    then have "(n, v) \<in> set ?es" by (simp add: of longest_def)
    then have "?es \<noteq> []" by (metis empty_iff empty_set)
    then obtain n' w where max: "?max = Some (n', w)"
      by (metis max_by_key_None not_None_eq surj_pair)
    then have "n' = n" using best [OF max] longest_unique [OF N t _ n(1)] by blast
    then have "w = v" using best [OF max] n(2) by simp
    then show ?l using max by (simp add: longest_match_def)
  qed
qed

lemma longest_match_covered:
  assumes "n \<in> dom (AllowedIps_abs t)" and "net_contains N n addr"
  shows "longest_match N t addr \<noteq> None"
proof -
  obtain w where "(n, w) \<in> set (filter (\<lambda>(n, _). net_contains N n addr) (ai_entries t))"
    using assms by (auto simp: AllowedIps_abs_def dest: map_of_SomeD)
  then have "filter (\<lambda>(n, _). net_contains N n addr) (ai_entries t) \<noteq> []" by (metis empty_iff empty_set)
  then show ?thesis by (simp add: longest_match_def max_by_key_None)
qed

interpretation allowed: prefix_table "\<lambda>t. ipnet_ok N \<and> AllowedIps_ok N t" AllowedIps_abs "AllowedIps_insert N"
  AllowedIps_retain "longest_match N" "net_trunc N" "net_contains N" "net_prefix_len N" for N
  by (unfold_locales; (elim conjE longest_match_covered; assumption)?)
    (auto simp: AllowedIps_insert_ok AllowedIps_retain_ok longest_match_iff ipnet_okD intro: longest_unique)

section \<open>Networks for examples\<close>

datatype ex_net = Net IpAddr nat

fun ex_trunc :: "ex_net \<Rightarrow> ex_net" where
  "ex_trunc (Net (V4 a) n) = Net (V4 (push_bit (32 - n) (drop_bit (32 - n) a))) n"
| "ex_trunc (Net (V6 a) n) = Net (V6 (push_bit (128 - n) (drop_bit (128 - n) a))) n"

fun ex_contains :: "ex_net \<Rightarrow> IpAddr \<Rightarrow> bool" where
  "ex_contains (Net (V4 a) n) (V4 b) \<longleftrightarrow> drop_bit (32 - n) a = drop_bit (32 - n) b"
| "ex_contains (Net (V6 a) n) (V6 b) \<longleftrightarrow> drop_bit (128 - n) a = drop_bit (128 - n) b"
| "ex_contains _ _ \<longleftrightarrow> False"

fun ex_prefix_len :: "ex_net \<Rightarrow> nat" where
  "ex_prefix_len (Net _ n) = n"

definition ex_ipnet :: "ex_net ipnet" where
  "ex_ipnet = \<lparr>net_trunc = ex_trunc, net_contains = ex_contains, net_prefix_len = ex_prefix_len\<rparr>"

lemma drop_push_drop: "drop_bit k (push_bit k (drop_bit k a)) = drop_bit k (a :: 'a::len word)"
  by (rule bit_word_eqI) (auto simp: bit_drop_bit_eq bit_push_bit_iff dest: bit_imp_le_length)

lemma ex_ipnet_ok [simp]: "ipnet_ok ex_ipnet"
proof -
  have "ex_trunc (ex_trunc n) = ex_trunc n" for n
    by (cases n rule: ex_trunc.cases) (simp_all add: drop_push_drop)
  moreover have "ex_contains (ex_trunc n) a = ex_contains n a" for n a
    by (cases n rule: ex_trunc.cases; cases a) (simp_all add: drop_push_drop)
  moreover have "ex_prefix_len (ex_trunc n) = ex_prefix_len n" for n
    by (cases n rule: ex_trunc.cases) simp_all
  moreover have "ex_trunc m = ex_trunc n"
    if "ex_prefix_len m = ex_prefix_len n" "ex_contains m a" "ex_contains n a" for m n a
    using that by (cases m rule: ex_trunc.cases; cases n rule: ex_trunc.cases; cases a) simp_all
  ultimately show ?thesis unfolding ipnet_ok_def ex_ipnet_def ipnet.select_convs by blast
qed

section \<open>Properties\<close>

datatype ('net, 'v) table_op = Insert 'net 'v | Retain "'v \<Rightarrow> bool"

fun table_apply :: "'net ipnet \<Rightarrow> ('net, 'v) AllowedIps \<Rightarrow> ('net, 'v) table_op \<Rightarrow> ('net, 'v) AllowedIps" where
  "table_apply N t (Insert n v) = AllowedIps_insert N t n v"
| "table_apply N t (Retain keep) = AllowedIps_retain t keep"

text \<open>The same operations on a map from prefixes to values.\<close>

fun map_apply :: "'net ipnet \<Rightarrow> ('net \<rightharpoonup> 'v) \<Rightarrow> ('net, 'v) table_op \<Rightarrow> 'net \<rightharpoonup> 'v" where
  "map_apply N m (Insert n v) = m(net_trunc N n \<mapsto> v)"
| "map_apply N m (Retain keep) = restrict_values m keep"

lemma table_apply_refines:
  assumes N: "ipnet_ok N"
  shows "AllowedIps_ok N t \<Longrightarrow> AllowedIps_ok N (foldl (table_apply N) t ops) \<and>
    AllowedIps_abs (foldl (table_apply N) t ops) = foldl (map_apply N) (AllowedIps_abs t) ops"
proof (induction ops arbitrary: t)
  case (Cons op ops)
  then show ?case using N by (cases op) (simp_all add: AllowedIps_insert_ok AllowedIps_retain_ok fun_upd_def)
qed simp

text \<open>
  C12: the scan of the routing table is longest-prefix match. Whatever prefixes are inserted and
  values dropped, in any order, a lookup finds the value that a map from truncated prefixes to
  values, updated the same way, holds for the longest of its prefixes that contain the address,
  and nothing if none does: neither the order of the list nor host bits of an inserted prefix matter.
\<close>

theorem longest_match_refines:
  assumes "ipnet_ok N"
  shows "longest_match N (foldl (table_apply N) AllowedIps_new ops) addr = Some v \<longleftrightarrow>
    (\<exists>n. foldl (map_apply N) Map.empty ops n = Some v \<and> net_contains N n addr \<and>
      (\<forall>n' \<in> dom (foldl (map_apply N) Map.empty ops). net_contains N n' addr \<longrightarrow>
        net_prefix_len N n' \<le> net_prefix_len N n))"
proof -
  let ?t = "foldl (table_apply N) AllowedIps_new ops :: ('a, 'b) AllowedIps"
  have t: "AllowedIps_ok N ?t" "AllowedIps_abs ?t = foldl (map_apply N) Map.empty ops"
    using table_apply_refines [OF assms AllowedIps_new_ok(1), of ops] unfolding AllowedIps_new_ok(2) by blast+
  show ?thesis unfolding longest_match_iff [OF assms t(1)] t(2) longest_def by blast
qed

definition ex_ops :: "(ex_net, nat) table_op list" where
  "ex_ops = [Insert (Net (V4 0) 0) 1, Insert (Net (V4 0x0A000001) 8) 2, Insert (Net (V4 0x0A000002) 24) 3,
     Insert (Net (V4 0x0A000003) 24) 4, Retain (\<lambda>v. v \<noteq> 2)]"

theorem longest_match_refines_witness:
  "longest_match ex_ipnet (foldl (table_apply ex_ipnet) AllowedIps_new ex_ops) (V4 0x0A000007) = Some 4 \<and>
   (\<exists>n. foldl (map_apply ex_ipnet) Map.empty ex_ops n = Some 4 \<and> ex_contains n (V4 0x0A000007) \<and>
     (\<forall>n' \<in> dom (foldl (map_apply ex_ipnet) Map.empty ex_ops). ex_contains n' (V4 0x0A000007) \<longrightarrow>
       ex_prefix_len n' \<le> ex_prefix_len n))"
proof -
  have "longest_match ex_ipnet (foldl (table_apply ex_ipnet) AllowedIps_new ex_ops) (V4 0x0A000007) = Some 4"
    by code_simp
  then show ?thesis
    using longest_match_refines [OF ex_ipnet_ok, of ex_ops "V4 0x0A000007" 4]
    unfolding ex_ipnet_def ipnet.select_convs by blast
qed

end
