(* ===== verification/Timebase.thy ===== *)
theory Timebase
  imports Prelude
begin

text \<open>
  The clock-free time types of \<open>protocol/src/time.rs\<close> and the protocol's time constants
  of \<open>protocol/src/peer/session.rs\<close> and \<open>protocol/src/cookies.rs\<close>.

  A \<open>Duration\<close> is a number of nanoseconds. Rust stores whole seconds in a \<open>u64\<close> and
  the rest in a \<open>u32\<close>, so the largest duration is \<open>DURATION_MAX\<close>, where \<open>saturating_add\<close>
  stops; \<open>saturating_sub\<close> stops at zero, as subtraction on \<open>nat\<close> does.
\<close>

type_synonym Duration = nat

definition DURATION_MAX :: Duration where
  "DURATION_MAX = (2 ^ 64 - 1) * 1000000000 + 999999999"

definition from_secs :: "nat \<Rightarrow> Duration" where
  "from_secs s = s * 1000000000"

definition from_millis :: "nat \<Rightarrow> Duration" where
  "from_millis m = m * 1000000"

definition saturating_add :: "Duration \<Rightarrow> Duration \<Rightarrow> Duration" where
  "saturating_add a b = min (a + b) DURATION_MAX"

definition saturating_sub :: "Duration \<Rightarrow> Duration \<Rightarrow> Duration" where
  "saturating_sub a b = a - b"

datatype Instant = Instant (since_epoch: Duration)

instantiation Instant :: linorder
begin
definition less_eq_Instant :: "Instant \<Rightarrow> Instant \<Rightarrow> bool" where
  "less_eq_Instant a b \<longleftrightarrow> since_epoch a \<le> since_epoch b"
definition less_Instant :: "Instant \<Rightarrow> Instant \<Rightarrow> bool" where
  "less_Instant a b \<longleftrightarrow> since_epoch a < since_epoch b"
instance
  by standard (auto simp: less_eq_Instant_def less_Instant_def Instant.expand)
end

text \<open>\<open>Instant::default\<close>, \<open>Instant::duration_since\<close> and \<open>Instant + Duration\<close>.\<close>

definition Instant_default :: Instant where
  "Instant_default = Instant 0"

definition duration_since :: "Instant \<Rightarrow> Instant \<Rightarrow> Duration" where
  "duration_since self earlier = saturating_sub (since_epoch self) (since_epoch earlier)"

definition instant_add :: "Instant \<Rightarrow> Duration \<Rightarrow> Instant" where
  "instant_add self rhs = Instant (saturating_add (since_epoch self) rhs)"

section \<open>Protocol time constants\<close>

definition REKEY_TIMEOUT :: Duration where "REKEY_TIMEOUT = from_secs 5"
definition REKEY_TIMEOUT_JITTER_MAX :: Duration where "REKEY_TIMEOUT_JITTER_MAX = from_millis 334"
definition REKEY_ATTEMPT_TIME :: Duration where "REKEY_ATTEMPT_TIME = from_secs 90"
definition REKEY_AFTER_TIME :: Duration where "REKEY_AFTER_TIME = from_secs 120"
definition REJECT_AFTER_TIME :: Duration where "REJECT_AFTER_TIME = from_secs 180"
definition KEEPALIVE_TIMEOUT :: Duration where "KEEPALIVE_TIMEOUT = from_secs 10"
definition REKEY_AFTER_TIME_RECEIVING :: Duration where
  "REKEY_AFTER_TIME_RECEIVING = from_secs (180 - 10 - 5)"
definition COOKIE_REFRESH_INTERVAL :: Duration where "COOKIE_REFRESH_INTERVAL = from_secs 120"

lemmas time_consts =
  REKEY_TIMEOUT_def REKEY_TIMEOUT_JITTER_MAX_def REKEY_ATTEMPT_TIME_def REKEY_AFTER_TIME_def
  REJECT_AFTER_TIME_def KEEPALIVE_TIMEOUT_def REKEY_AFTER_TIME_RECEIVING_def
  COOKIE_REFRESH_INTERVAL_def from_secs_def from_millis_def

section \<open>Facts about the clock\<close>

text \<open>An instant the driver's clock can hold.\<close>

definition Instant_ok :: "Instant \<Rightarrow> bool" where
  "Instant_ok t \<longleftrightarrow> since_epoch t \<le> DURATION_MAX"

lemma Instant_less_iff [simp]: "Instant a < Instant b \<longleftrightarrow> a < b"
  by (simp add: less_Instant_def)

lemma Instant_le_iff [simp]: "Instant a \<le> Instant b \<longleftrightarrow> a \<le> b"
  by (simp add: less_eq_Instant_def)

lemma since_epoch_add [simp]:
  "since_epoch (instant_add t d) = min (since_epoch t + d) DURATION_MAX"
  by (simp add: instant_add_def saturating_add_def)

lemma instant_add_ok [simp]: "Instant_ok (instant_add t d)"
  by (simp add: Instant_ok_def)

lemma duration_since_self [simp]: "duration_since t t = 0"
  by (simp add: duration_since_def saturating_sub_def)

lemma duration_since_mono: "t \<le> t' \<Longrightarrow> duration_since t s \<le> duration_since t' s"
  by (simp add: duration_since_def saturating_sub_def less_eq_Instant_def)

lemma duration_since_add:
  assumes "since_epoch t + d \<le> DURATION_MAX"
  shows "duration_since (instant_add t d) t = d"
  using assms by (simp add: duration_since_def saturating_sub_def)

text \<open>
  Reaching the deadline \<open>t + d\<close> is having \<open>d\<close> elapsed since \<open>t\<close>, unless the addition
  saturates: the two ways the code tests a deadline agree.
\<close>

lemma deadline_iff_elapsed:
  assumes "since_epoch t + d \<le> DURATION_MAX" and "0 < d"
  shows "instant_add t d \<le> now \<longleftrightarrow> d \<le> duration_since now t"
  using assms by (auto simp: less_eq_Instant_def duration_since_def saturating_sub_def)

section \<open>Wall-clock timestamps\<close>

text \<open>
  \<open>Tai64N\<close> comes from the crate \<open>tai64\<close>: its values are a linearly ordered type \<open>'ts\<close> and its
  operations a parameter of the definitions that use them. The code relies on a 12-byte encoding
  that \<open>from_slice\<close> reads back, and on \<open>duration_since\<close> being the elapsed time of two ordered
  timestamps and an error otherwise.
\<close>

record 'ts tai =
  tai_to_bytes :: "'ts \<Rightarrow> bytes"
  tai_from_slice :: "bytes \<Rightarrow> 'ts option"
  tai_duration_since :: "'ts \<Rightarrow> 'ts \<Rightarrow> Duration + Duration"

definition tai_ok :: "('ts::linorder) tai \<Rightarrow> bool" where
  "tai_ok T \<longleftrightarrow>
     (\<forall>t. length (tai_to_bytes T t) = 12 \<and> tai_from_slice T (tai_to_bytes T t) = Some t) \<and>
     (\<forall>t s. s \<le> t \<longleftrightarrow> (\<exists>d. tai_duration_since T t s = Inr d)) \<and>
     (\<forall>t. tai_duration_since T t t = Inr 0)"

lemma tai_bytes [simp]:
  "tai_ok T \<Longrightarrow> length (tai_to_bytes T t) = 12"
  "tai_ok T \<Longrightarrow> tai_from_slice T (tai_to_bytes T t) = Some t"
  by (simp_all add: tai_ok_def)

text \<open>An instance: a 64-bit number of nanoseconds, padded to 12 bytes.\<close>

definition ex_tai :: "u64 tai" where
  "ex_tai = \<lparr>tai_to_bytes = (\<lambda>t. le_bytes t @ replicate 4 0),
     tai_from_slice = (\<lambda>bs. if length bs = 12 then Some (of_le_bytes (take 8 bs)) else None),
     tai_duration_since = (\<lambda>t s. if s \<le> t then Inr (unat (t - s)) else Inl (unat (s - t)))\<rparr>"

lemma ex_tai_ok [simp]: "tai_ok ex_tai"
  by (simp add: tai_ok_def ex_tai_def)

end
