(* ===== verification/Example_Crypto.thy ===== *)
theory Example_Crypto
  imports Crypto
begin

text \<open>
  Concrete primitives with the sizes, the invertibility and the commutativity \<open>crypto_ok\<close> asks for.
  They are no cryptography: they only show that the hypotheses of the theorems can hold, and let
  the witnesses run the model.
\<close>

definition fit :: "nat \<Rightarrow> bytes \<Rightarrow> bytes" where
  "fit n xs = take n (xs @ replicate n 0)"

definition mix :: "bytes \<Rightarrow> u8" where
  "mix xs = fold (\<lambda>x acc. 7 * acc + x + 1) xs 0"

definition digest :: "nat \<Rightarrow> bytes \<Rightarrow> bytes" where
  "digest n xs = mix xs # fit (n - 1) xs"

definition ex_encrypt :: "bytes \<Rightarrow> bytes \<Rightarrow> bytes \<Rightarrow> bytes \<Rightarrow> (bytes \<times> bytes) option" where
  "ex_encrypt k n a p =
     (if length p < AEAD_P_MAX then Some (map (\<lambda>x. x XOR mix k) p, digest 16 (n @ a @ k)) else None)"

definition ex_decrypt :: "bytes \<Rightarrow> bytes \<Rightarrow> bytes \<Rightarrow> bytes \<Rightarrow> bytes \<Rightarrow> bool \<times> bytes" where
  "ex_decrypt k n a c t = (t = digest 16 (n @ a @ k), map (\<lambda>x. x XOR mix k) c)"

definition ex_crypto :: crypto where
  "ex_crypto = \<lparr>
     blake2s256 = digest 32,
     blake2s_mac = (\<lambda>k x. if length k \<le> 32 then Some (digest 16 (x @ k)) else None),
     hmac_blake2s = (\<lambda>k x. Some (digest 32 (x @ k))),
     chacha_encrypt = ex_encrypt,
     chacha_decrypt = ex_decrypt,
     xchacha_new = (\<lambda>k. if length k = 32 then Some k else None),
     xchacha_encrypt = ex_encrypt,
     xchacha_decrypt = ex_decrypt,
     x25519_public = fit 32,
     x25519_dh = (\<lambda>s p. map2 (XOR) (fit 32 s) (fit 32 p)),
     was_contributory = (\<lambda>x. x \<noteq> replicate 32 0)\<rparr>"

text \<open>A 32-byte key.\<close>

definition ex_key :: "u8 \<Rightarrow> bytes" where
  "ex_key b = replicate 32 b"

lemma length_ex_key [simp]: "length (ex_key b) = 32"
  by (simp add: ex_key_def)

lemma length_fit [simp]: "length (fit n xs) = n"
  by (simp add: fit_def)

lemma fit_fit [simp]: "fit n (fit n xs) = fit n xs"
  by (simp add: fit_def)

lemma length_digest [simp]: "0 < n \<Longrightarrow> length (digest n xs) = n"
  by (simp add: digest_def)

lemma map2_xor_commute: "map2 (XOR) xs ys = map2 (XOR) ys (xs :: bytes)"
  by (induction xs ys rule: list_induct2') (simp_all add: xor.commute)

lemma ex_aead: "aead_law n ex_encrypt ex_decrypt"
  by (auto simp: aead_law_def ex_encrypt_def ex_decrypt_def xor.assoc comp_def)

lemma ex_crypto_ok [simp]: "crypto_ok ex_crypto"
  by (simp add: crypto_ok_def ex_crypto_def ex_aead map2_xor_commute)

lemma ex_dh [simp]:
  "x25519_dh ex_crypto (ex_key a) (x25519_public ex_crypto (ex_key b)) = ex_key (a XOR b)"
  by (simp add: ex_crypto_def ex_key_def fit_def zip_replicate)

lemma ex_contributory [simp]: "was_contributory ex_crypto (ex_key a) \<longleftrightarrow> a \<noteq> 0"
  by (auto simp: ex_crypto_def ex_key_def)

lemma kdf_chain_example:
  "\<exists>t0 outs. hmac ex_crypto [1] [[2]] = Some t0 \<and> kdf ex_crypto 2 [1] [2] = Some outs \<and> length outs = 2 \<and>
    hmac ex_crypto t0 [[1]] = Some (outs ! 0)"
  using kdf_chain [OF ex_crypto_ok, of 2 "[1]" "[2]"] by auto

end
