(* ===== verification/Cookies.thy ===== *)
theory Cookies
  imports Timebase Example_Crypto
begin

text \<open>
  Handshake MACs and cookie replies (\<open>protocol/src/cookies.rs\<close>): the \<open>Generator\<close> that writes the
  MAC fields of outgoing handshake messages and stores cookies, and the \<open>Verifier\<close> that checks
  incoming ones and issues cookie replies under load.
\<close>

section \<open>State\<close>

datatype CookieError = CookieInvalid | CookieBufferTooSmall nat

definition LABEL_MAC_1 :: bytes where "LABEL_MAC_1 = ascii ''mac1----''"
definition LABEL_COOKIE :: bytes where "LABEL_COOKIE = ascii ''cookie--''"

definition mac1_offset :: "bytes \<Rightarrow> nat option" where
  "mac1_offset msg = minus_usize (length msg) (2 * MAC_SIZE)"

definition mac2_offset :: "bytes \<Rightarrow> nat option" where
  "mac2_offset msg = minus_usize (length msg) MAC_SIZE"

record 'ts LastCookie =
  lc_received_timestamp :: 'ts
  lc_cookie :: bytes

record 'ts Generator =
  g_mac1_key :: bytes
  g_cookie_key :: bytes
  g_last_cookie :: "'ts LastCookie option"
  g_last_sent_mac1 :: "bytes option"

record Verifier =
  v_mac1_key :: bytes
  v_cookie_key :: bytes

section \<open>The generator\<close>

definition Generator_new :: "crypto \<Rightarrow> bytes \<Rightarrow> 'ts Generator" where
  "Generator_new C public_key =
     \<lparr>g_mac1_key = hash C [LABEL_MAC_1, public_key], g_cookie_key = hash C [LABEL_COOKIE, public_key],
      g_last_cookie = None, g_last_sent_mac1 = None\<rparr>"

text \<open>\<open>duration_since(..).unwrap_or_default() <= COOKIE_REFRESH_INTERVAL\<close>.\<close>

definition cookie_fresh :: "'ts tai \<Rightarrow> 'ts \<Rightarrow> 'ts LastCookie \<Rightarrow> bool" where
  "cookie_fresh T now lc \<longleftrightarrow>
     (case tai_duration_since T now (lc_received_timestamp lc) of Inl _ \<Rightarrow> 0 | Inr d \<Rightarrow> d)
       \<le> COOKIE_REFRESH_INTERVAL"

definition add_macs ::
  "crypto \<Rightarrow> 'ts tai \<Rightarrow> 'ts Generator \<Rightarrow> 'ts \<Rightarrow> bytes \<Rightarrow>
     ((CookieError + unit) \<times> 'ts Generator \<times> bytes) option" where
  "add_macs C T g current_timestamp msg = do {
     header \<leftarrow> MessageHeader_try_from msg;
     if \<not> is_handshake header then Some (Inl CookieInvalid, g, msg) else do {
       mac_1_offset \<leftarrow> mac1_offset msg;
       mac_2_offset \<leftarrow> mac2_offset msg;
       body \<leftarrow> subslice msg 0 mac_1_offset;
       mac_1 \<leftarrow> mac C (g_mac1_key g) [body];
       msg \<leftarrow> copy_into msg mac_1_offset mac_2_offset mac_1;
       msg \<leftarrow> copy_into msg mac_2_offset (length msg) (replicate (length msg - mac_2_offset) 0);
       msg \<leftarrow> (case g_last_cookie g of
           None \<Rightarrow> Some msg
         | Some last_cookie \<Rightarrow>
             if cookie_fresh T current_timestamp last_cookie then do {
               body \<leftarrow> subslice msg 0 mac_2_offset;
               mac_2 \<leftarrow> mac C (lc_cookie last_cookie) [body];
               copy_into msg mac_2_offset (length msg) mac_2
             } else Some msg);
       Some (Inr (), g\<lparr>g_last_sent_mac1 := Some mac_1\<rparr>, msg)
     }
   }"

definition process_cookie_reply ::
  "crypto \<Rightarrow> 'ts Generator \<Rightarrow> bytes \<Rightarrow> 'ts \<Rightarrow> ((CookieError + unit) \<times> 'ts Generator) option" where
  "process_cookie_reply C g reply now = do {
     header \<leftarrow> MessageHeader_try_from reply;
     case header of
       Inr (CookieReply _) \<Rightarrow>
         (case g_last_sent_mac1 g of None \<Rightarrow> Some (Inl CookieInvalid, g) | Some sent_mac1 \<Rightarrow>
           (case xchacha_new C (g_cookie_key g) of None \<Rightarrow> Some (Inl CookieInvalid, g) | Some cipher \<Rightarrow> do {
              nonce \<leftarrow> field reply CR_NONCE;
              cookie \<leftarrow> field reply CR_COOKIE;
              tag \<leftarrow> subslice reply (snd CR_COOKIE) (snd CR_ENCRYPTED);
              let (ok, cookie) = xaead_open C cipher nonce sent_mac1 cookie tag;
              if \<not> ok then Some (Inl CookieInvalid, g)
              else Some (Inr (), g\<lparr>g_last_cookie :=
                Some \<lparr>lc_received_timestamp = now, lc_cookie = cookie\<rparr>\<rparr>)
            }))
     | _ \<Rightarrow> Some (Inl CookieInvalid, g)
   }"

section \<open>The verifier\<close>

definition Verifier_new :: "crypto \<Rightarrow> bytes \<Rightarrow> Verifier" where
  "Verifier_new C public_key =
     \<lparr>v_mac1_key = hash C [LABEL_MAC_1, public_key], v_cookie_key = hash C [LABEL_COOKIE, public_key]\<rparr>"

definition verify_mac_1 :: "crypto \<Rightarrow> Verifier \<Rightarrow> bytes \<Rightarrow> bool option" where
  "verify_mac_1 C v msg =
     (if length msg < 2 * MAC_SIZE then Some False else do {
        mac_1_offset \<leftarrow> mac1_offset msg;
        mac_2_offset \<leftarrow> mac2_offset msg;
        body \<leftarrow> subslice msg 0 mac_1_offset;
        mac_1 \<leftarrow> mac C (v_mac1_key v) [body];
        found \<leftarrow> subslice msg mac_1_offset mac_2_offset;
        Some (mac_1 = found)
      })"

definition Verifier_cookie :: "crypto \<Rightarrow> bytes \<Rightarrow> bytes \<Rightarrow> bytes option" where
  "Verifier_cookie C source secret = mac C secret [source]"

definition verify_mac_2 :: "crypto \<Rightarrow> Verifier \<Rightarrow> bytes \<Rightarrow> bytes \<Rightarrow> bytes \<Rightarrow> bool option" where
  "verify_mac_2 C v msg source secret =
     (if length msg < 2 * MAC_SIZE then Some False else do {
        cookie \<leftarrow> Verifier_cookie C source secret;
        mac_2_offset \<leftarrow> mac2_offset msg;
        body \<leftarrow> subslice msg 0 mac_2_offset;
        mac_2 \<leftarrow> mac C cookie [body];
        found \<leftarrow> subslice msg mac_2_offset (length msg);
        Some (mac_2 = found)
      })"

definition write_cookie_reply ::
  "crypto \<Rightarrow> Verifier \<Rightarrow> bytes \<Rightarrow> bytes \<Rightarrow> bytes \<Rightarrow> bytes \<Rightarrow> bytes \<Rightarrow>
     ((CookieError + unit) \<times> bytes) option" where
  "write_cookie_reply C v prompting source secret nonce out = do {
     header \<leftarrow> MessageHeader_try_from prompting;
     if \<not> is_handshake header then Some (Inl CookieInvalid, out)
     else if length out < COOKIE_REPLY_LENGTH then
       Some (Inl (CookieBufferTooSmall COOKIE_REPLY_LENGTH), out)
     else do {
       b \<leftarrow> subslice out 0 COOKIE_REPLY_LENGTH;
       cookie \<leftarrow> Verifier_cookie C source secret;
       m1 \<leftarrow> mac1_offset prompting;
       mac_1 \<leftarrow> subslice prompting m1 (m1 + MAC_SIZE);
       b \<leftarrow> copy_into b 0 1 [type_byte MT_Cookie];
       b \<leftarrow> copy_into b 1 4 (replicate 3 0);
       receiver \<leftarrow> subslice prompting 4 8;
       b \<leftarrow> set_field b CR_RECEIVER receiver;
       b \<leftarrow> set_field b CR_NONCE nonce;
       b \<leftarrow> set_field b CR_COOKIE cookie;
       cipher \<leftarrow> xchacha_new C (v_cookie_key v);
       data \<leftarrow> field b CR_ENCRYPTED;
       sealed \<leftarrow> xaead_seal C cipher nonce mac_1 data;
       b \<leftarrow> set_field b CR_ENCRYPTED sealed;
       Some (Inr (), b @ drop COOKIE_REPLY_LENGTH out)
     }
   }"

section \<open>Handshake messages\<close>

definition handshake_msg :: "bytes \<Rightarrow> bool" where
  "handshake_msg msg \<longleftrightarrow> (case MessageHeader_try_from msg of Some h \<Rightarrow> is_handshake h | None \<Rightarrow> False)"

lemma handshake_msg_iff:
  "handshake_msg msg \<longleftrightarrow>
     (length msg = 148 \<and> msg ! 0 = type_byte MT_HandshakeInit \<or>
      length msg = 92 \<and> msg ! 0 = type_byte MT_HandshakeResp) \<and> sub msg 1 4 = replicate 3 0"
  by (auto simp: handshake_msg_def is_handshake_def MessageHeader_try_from_eq MessageType_try_from_def
      split: if_splits)

lemma handshake_msg_header:
  "handshake_msg msg \<Longrightarrow> \<exists>h. MessageHeader_try_from msg = Some h \<and> is_handshake h"
  "\<not> handshake_msg msg \<Longrightarrow> \<exists>h. MessageHeader_try_from msg = Some h \<and> \<not> is_handshake h"
  by (auto simp: handshake_msg_def MessageHeader_try_from_eq)

lemma handshake_msg_length: "handshake_msg msg \<Longrightarrow> 92 \<le> length msg"
  by (auto simp: handshake_msg_iff)

text \<open>Changing the MAC fields, the last 32 bytes, changes no header.\<close>

lemma same_header:
  fixes msg msg' :: bytes
  assumes "length msg' = length msg" and "take 12 msg' = take 12 msg" and "44 \<le> length msg"
  shows "msg' ! 0 = msg ! 0" and "sub msg' 1 4 = sub msg 1 4" and "sub msg' 4 8 = sub msg 4 8"
    and "sub msg' 8 12 = sub msg 8 12"
proof -
  have cut: "sub xs a b = drop a (take b (take 12 xs))" if "b \<le> 12" for xs :: bytes and a b
    using that by (simp add: sub_def drop_take min_def)
  have eq: "sub msg' a b = sub msg a b" if "b \<le> 12" for a b
    using cut [OF that, of msg'] cut [OF that, of msg] assms(2) by simp
  show "sub msg' 1 4 = sub msg 1 4" "sub msg' 4 8 = sub msg 4 8" "sub msg' 8 12 = sub msg 8 12"
    by (rule eq; simp)+
  show "msg' ! 0 = msg ! 0" using arg_cong [OF assms(2), of "\<lambda>xs. xs ! 0"] by simp
qed

lemma handshake_msg_same_header:
  assumes "length msg' = length msg" and "take 12 msg' = take 12 msg" and "44 \<le> length msg"
  shows "handshake_msg msg' \<longleftrightarrow> handshake_msg msg"
  unfolding handshake_msg_iff using same_header [OF assms] assms(1) by simp

section \<open>What \<open>add_macs\<close> writes\<close>

definition Generator_ok :: "'ts Generator \<Rightarrow> bool" where
  "Generator_ok g \<longleftrightarrow> length (g_mac1_key g) = 32 \<and> length (g_cookie_key g) = 32 \<and>
     (\<forall>lc. g_last_cookie g = Some lc \<longrightarrow> length (lc_cookie lc) = 16) \<and>
     (\<forall>m. g_last_sent_mac1 g = Some m \<longrightarrow> length m = 16)"

definition mac1_for :: "crypto \<Rightarrow> 'ts Generator \<Rightarrow> bytes \<Rightarrow> bytes" where
  "mac1_for C g msg = mac_out C (g_mac1_key g) [take (length msg - 32) msg]"

definition mac2_for :: "crypto \<Rightarrow> 'ts tai \<Rightarrow> 'ts Generator \<Rightarrow> 'ts \<Rightarrow> bytes \<Rightarrow> bytes" where
  "mac2_for C T g now body =
     (case g_last_cookie g of
        Some lc \<Rightarrow> if cookie_fresh T now lc then mac_out C (lc_cookie lc) [body] else replicate 16 0
      | None \<Rightarrow> replicate 16 0)"

definition with_macs :: "crypto \<Rightarrow> 'ts tai \<Rightarrow> 'ts Generator \<Rightarrow> 'ts \<Rightarrow> bytes \<Rightarrow> bytes" where
  "with_macs C T g now msg =
     (let body = take (length msg - 32) msg @ mac1_for C g msg in body @ mac2_for C T g now body)"

lemma length_macs [len_simps]:
  assumes "crypto_ok C" and "Generator_ok g"
  shows "length (mac1_for C g msg) = 16" and "length (mac2_for C T g now body) = 16"
  using assms by (auto simp: mac1_for_def mac2_for_def mac_total(2) Generator_ok_def split: option.split)

lemma length_with_macs [len_simps]:
  assumes "crypto_ok C" and "Generator_ok g" and "32 \<le> length msg"
  shows "length (with_macs C T g now msg) = length msg"
  using assms by (simp add: with_macs_def length_macs)

lemma add_macs_eq:
  assumes C: "crypto_ok C" and g: "Generator_ok g" and msg: "handshake_msg msg"
  shows "add_macs C T g now msg =
    Some (Inr (), g\<lparr>g_last_sent_mac1 := Some (mac1_for C g msg)\<rparr>, with_macs C T g now msg)"
proof -
  obtain h where h: "MessageHeader_try_from msg = Some h" "is_handshake h"
    using handshake_msg_header(1) [OF msg] by blast
  define n where "n = length msg - 32"
  define body where "body = take n msg"
  define t1 where "t1 = take 16 (drop n msg)"
  define t2 where "t2 = drop 16 (drop n msg)"
  have n: "length msg = n + 32" using handshake_msg_length [OF msg] by (simp add: n_def)
  then have parts: "msg = body @ t1 @ t2" "length body = n" "length t1 = 16" "length t2 = 16"
    by (simp_all add: body_def t1_def t2_def del: drop_drop)
  let ?m1 = "mac1_for C g msg"
  have m1: "mac C (g_mac1_key g) [body] = Some ?m1" and l1: "length ?m1 = 16"
    using mac_total [OF C, of "g_mac1_key g" "[body]"] g n
    by (simp_all add: mac1_for_def body_def Generator_ok_def)
  have off: "mac1_offset msg = Some n" "mac2_offset msg = Some (n + 16)"
    using n by (simp_all add: mac1_offset_def mac2_offset_def buf_simps)
  have s: "subslice msg 0 n = Some body" "subslice (body @ ?m1 @ z) 0 (n + 16) = Some (body @ ?m1)" for z
    using parts l1 by (simp_all add: subslice_def sub_def)
  have c: "copy_into msg n (n + 16) ?m1 = Some (body @ ?m1 @ t2)"
    "length y = 16 \<Longrightarrow> length z = 16 \<Longrightarrow>
       copy_into (body @ ?m1 @ y) (n + 16) (length (body @ ?m1 @ y)) z = Some (body @ ?m1 @ z)" for y z
    using parts l1 by (simp_all add: copy_into_def patch_def)
  have z: "length (body @ ?m1 @ t2) - (n + 16) = 16" using parts l1 by simp
  have m2: "mac C (lc_cookie lc) xs = Some (mac_out C (lc_cookie lc) xs)"
    "length (mac_out C (lc_cookie lc) xs) = 16" if "g_last_cookie g = Some lc" for lc xs
    using mac_total [OF C, of "lc_cookie lc"] g that by (auto simp: Generator_ok_def)
  have out: "with_macs C T g now msg = body @ ?m1 @ mac2_for C T g now (body @ ?m1)"
    using n by (simp add: with_macs_def body_def)
  show ?thesis
  proof (cases "g_last_cookie g")
    case None
    then show ?thesis unfolding add_macs_def out using h m1 off s parts(4)
      by (simp add: c z mac2_for_def del: length_append)
  next
    case (Some lc)
    then show ?thesis unfolding add_macs_def out using h m1 off s parts(4) m2 [OF Some]
      by (simp add: c z mac2_for_def del: length_append)
  qed
qed

lemma add_macs_other: "\<not> handshake_msg msg \<Longrightarrow> add_macs C T g now msg = Some (Inl CookieInvalid, g, msg)"
  using handshake_msg_header(2) [of msg] by (auto simp: add_macs_def)

section \<open>Cookie replies\<close>

definition Verifier_ok :: "Verifier \<Rightarrow> bool" where
  "Verifier_ok v \<longleftrightarrow> length (v_mac1_key v) = 32 \<and> length (v_cookie_key v) = 32"

text \<open>The cookie, the MAC of the prompting message, and the reply they give.\<close>

definition cookie_for :: "crypto \<Rightarrow> bytes \<Rightarrow> bytes \<Rightarrow> bytes" where
  "cookie_for C source secret = mac_out C secret [source]"

definition sent_mac1 :: "bytes \<Rightarrow> bytes" where
  "sent_mac1 msg = sub msg (length msg - 32) (length msg - 16)"

definition cookie_packet ::
  "crypto \<Rightarrow> Verifier \<Rightarrow> bytes \<Rightarrow> bytes \<Rightarrow> bytes \<Rightarrow> bytes \<Rightarrow> bytes" where
  "cookie_packet C v prompting source secret nonce =
     [type_byte MT_Cookie] @ replicate 3 0 @ sub prompting 4 8 @ nonce @
     xseal_out C (v_cookie_key v) nonce (sent_mac1 prompting)
       (cookie_for C source secret @ replicate 16 0)"

lemma AEAD_P_MAX_small [simp]: "numeral n < AEAD_P_MAX \<longleftrightarrow> numeral n < (274877906880 :: nat)"
  "0 < AEAD_P_MAX"
  by (simp_all add: AEAD_P_MAX_def)

lemma write_cookie_reply_eq:
  assumes C: "crypto_ok C" and v: "Verifier_ok v" and msg: "handshake_msg prompting"
    and sizes: "length secret = 32" "length nonce = 24" "COOKIE_REPLY_LENGTH \<le> length out"
  shows "write_cookie_reply C v prompting source secret nonce out =
    Some (Inr (), cookie_packet C v prompting source secret nonce @ drop COOKIE_REPLY_LENGTH out)"
    and "length (cookie_packet C v prompting source secret nonce) = COOKIE_REPLY_LENGTH"
proof -
  obtain h where h: "MessageHeader_try_from prompting = Some h" "is_handshake h"
    using handshake_msg_header(1) [OF msg] by blast
  have n: "92 \<le> length prompting" using handshake_msg_length [OF msg] .
  have cookie: "Verifier_cookie C source secret = Some (cookie_for C source secret)"
    and lc: "length (cookie_for C source secret) = 16"
    using mac_total [OF C, of secret "[source]"] sizes by (simp_all add: Verifier_cookie_def cookie_for_def)
  have m1: "mac1_offset prompting = Some (length prompting - 32)"
    "subslice prompting (length prompting - 32) (length prompting - 32 + 16) = Some (sent_mac1 prompting)"
    using n by (simp_all add: mac1_offset_def sent_mac1_def buf_simps)
  have rcv: "subslice prompting 4 8 = Some (sub prompting 4 8)" "length (sub prompting 4 8) = 4"
    using n by (simp_all add: buf_simps)
  have key: "xchacha_new C (v_cookie_key v) = Some (v_cookie_key v)"
    and vk: "length (v_cookie_key v) = 32"
    using v xchacha_new_total [OF C] by (simp_all add: Verifier_ok_def)
  note seal = xaead_seal_tail [OF C vk sizes(2), of "cookie_for C source secret"]
  show "length (cookie_packet C v prompting source secret nonce) = COOKIE_REPLY_LENGTH"
    using seal(2) [of "replicate 16 0"] lc rcv sizes by (simp add: cookie_packet_def)
  have b0: "subslice out 0 COOKIE_REPLY_LENGTH = Some (take 64 out)" "length (take 64 out) = 64"
    using sizes(3) by (simp_all add: subslice_def sub_def)
  show "write_cookie_reply C v prompting source secret nonce out =
    Some (Inr (), cookie_packet C v prompting source secret nonce @ drop COOKIE_REPLY_LENGTH out)"
    unfolding write_cookie_reply_def cookie_packet_def
    using h sizes(2,3) cookie lc m1 rcv key seal b0
    by (simp add: fill_simps del: append_assoc append_Cons append_Nil length_take)
qed

lemma cookie_packet_header:
  assumes "crypto_ok C" and "Verifier_ok v" and "handshake_msg prompting"
    and "length secret = 32" and "length nonce = 24"
  shows "MessageHeader_try_from (cookie_packet C v prompting source secret nonce) =
    Some (Inr (CookieReply (of_le_bytes (sub prompting 4 8))))"
proof -
  have len: "length (cookie_packet C v prompting source secret nonce) = 64"
    using write_cookie_reply_eq(2) [OF assms, of "replicate 64 0"] by simp
  moreover have "length (sub prompting 4 8) = 4" using handshake_msg_length [OF assms(3)] by simp
  ultimately show ?thesis
    by (subst MessageHeader_try_from_Inr)
      (auto intro!: exI [of _ MT_Cookie] simp: cookie_packet_def sub_def numeral_3_eq_3)
qed

lemma process_cookie_reply_eq:
  assumes C: "crypto_ok C" and v: "Verifier_ok v" and msg: "handshake_msg prompting"
    and sizes: "length secret = 32" "length nonce = 24"
    and g: "g_cookie_key g = v_cookie_key v" "g_last_sent_mac1 g = Some (sent_mac1 prompting)"
  shows "process_cookie_reply C g (cookie_packet C v prompting source secret nonce) now =
    Some (Inr (), g\<lparr>g_last_cookie :=
      Some \<lparr>lc_received_timestamp = now, lc_cookie = cookie_for C source secret\<rparr>\<rparr>)"
proof -
  let ?pkt = "cookie_packet C v prompting source secret nonce"
  let ?key = "v_cookie_key v" and ?ad = "sent_mac1 prompting"
  let ?data = "cookie_for C source secret @ replicate 16 0"
  have key: "length ?key = 32" "xchacha_new C ?key = Some ?key"
    using v xchacha_new_total [OF C] by (simp_all add: Verifier_ok_def)
  have lc: "length (cookie_for C source secret) = 16"
    using mac_total(2) [OF C] sizes by (simp add: cookie_for_def)
  have seal: "length (xseal_out C ?key nonce ?ad ?data) = 32"
    "xaead_open C ?key nonce ?ad (take 16 (xseal_out C ?key nonce ?ad ?data))
      (drop 16 (xseal_out C ?key nonce ?ad ?data)) = (True, cookie_for C source secret)"
    using xaead_seal_total(2,3) [OF C key(1) sizes(2), of ?data ?ad] lc by simp_all
  have "length (sub prompting 4 8) = 4" using handshake_msg_length [OF msg] by simp
  then have "field ?pkt CR_NONCE = Some nonce"
    "field ?pkt CR_COOKIE = Some (take 16 (xseal_out C ?key nonce ?ad ?data))"
    "subslice ?pkt (snd CR_COOKIE) (snd CR_ENCRYPTED) = Some (drop 16 (xseal_out C ?key nonce ?ad ?data))"
    using seal(1) sizes by (simp_all add: field_def subslice_def sub_def cookie_packet_def)
  then show ?thesis
    using cookie_packet_header [OF C v msg sizes] key(2) seal(2) g
    by (simp add: process_cookie_reply_def del: layout_cookie)
qed

text \<open>Processing a reply never panics and keeps the generator well formed.\<close>

lemma process_cookie_reply_total:
  assumes C: "crypto_ok C" and g: "Generator_ok g"
  shows "\<exists>r g'. process_cookie_reply C g reply now = Some (r, g') \<and> Generator_ok g' \<and>
    (r \<noteq> Inr () \<longrightarrow> g' = g)"
proof -
  obtain h where h: "MessageHeader_try_from reply = Some h"
    by (simp add: MessageHeader_try_from_eq)
  show ?thesis
  proof (cases "\<exists>i. h = Inr (CookieReply i)")
    case False
    then show ?thesis using h g
      by (auto simp: process_cookie_reply_def split: sum.splits MessageHeader.splits)
  next
    case True
    then obtain i where i: "h = Inr (CookieReply i)" by blast
    then have len: "length reply = 64"
      using h by (auto simp: MessageHeader_try_from_Inr eq_commute [of "CookieReply i"])
    obtain ok c where open_: "xaead_open C (g_cookie_key g) (sub reply 8 32)
        (the (g_last_sent_mac1 g)) (sub reply 32 48) (sub reply 48 64) = (ok, c)" by fastforce
    then have "length c = 16"
      using xaead_open_length [OF C, of "g_cookie_key g" "sub reply 8 32" "the (g_last_sent_mac1 g)"
          "sub reply 32 48" "sub reply 48 64"] len by simp
    then show ?thesis using h i len g open_ xchacha_new_total [OF C, of "g_cookie_key g"]
      by (cases "g_last_sent_mac1 g")
        (auto simp: process_cookie_reply_def buf_simps Generator_ok_def)
  qed
qed

lemma Generator_ok_new: "crypto_ok C \<Longrightarrow> Generator_ok (Generator_new C pk)"
  by (simp add: Generator_ok_def Generator_new_def length_hash)

lemma Verifier_ok_new: "crypto_ok C \<Longrightarrow> Verifier_ok (Verifier_new C pk)"
  by (simp add: Verifier_ok_def Verifier_new_def length_hash)

lemma add_macs_total:
  assumes "crypto_ok C" and "Generator_ok g"
  shows "\<exists>r g' msg'. add_macs C T g now msg = Some (r, g', msg') \<and> Generator_ok g' \<and>
    length msg' = length msg"
proof (cases "handshake_msg msg")
  case True
  then show ?thesis
    using add_macs_eq [OF assms True] length_with_macs [OF assms, of msg] handshake_msg_length [OF True]
      length_macs(1) [OF assms] assms(2)
    by (auto simp: Generator_ok_def)
next
  case False
  then show ?thesis using assms by (simp add: add_macs_other)
qed

section \<open>Verification\<close>

lemma verify_mac_1_eq:
  assumes "crypto_ok C" and "Verifier_ok v" and "32 \<le> length msg"
  shows "verify_mac_1 C v msg =
    Some (mac_out C (v_mac1_key v) [take (length msg - 32) msg] = sent_mac1 msg)"
  using assms mac_total(1) [OF assms(1), of "v_mac1_key v"]
  by (simp add: verify_mac_1_def mac1_offset_def mac2_offset_def buf_simps sent_mac1_def Verifier_ok_def
      sub_def)

lemma verify_mac_2_eq:
  assumes "crypto_ok C" and "length secret = 32" and "32 \<le> length msg"
  shows "verify_mac_2 C v msg source secret =
    Some (mac_out C (cookie_for C source secret) [take (length msg - 16) msg] = drop (length msg - 16) msg)"
  using assms mac_total [OF assms(1)]
  by (simp add: verify_mac_2_def Verifier_cookie_def mac2_offset_def buf_simps cookie_for_def sub_def)

lemma with_macs_parts:
  assumes "crypto_ok C" and "Generator_ok g" and "32 \<le> length msg"
    and "out = with_macs C T g now msg"
  shows "take (length out - 32) out = take (length msg - 32) msg"
    and "sent_mac1 out = mac1_for C g msg"
    and "take (length out - 16) out = take (length msg - 32) msg @ mac1_for C g msg"
    and "drop (length out - 16) out = mac2_for C T g now (take (length msg - 32) msg @ mac1_for C g msg)"
  using assms(3) length_macs [OF assms(1,2)]
  by (simp_all add: assms(4) with_macs_def sent_mac1_def sub_def)

lemma take_with_macs: "n + 32 \<le> length msg \<Longrightarrow> take n (with_macs C T g now msg) = take n msg"
  by (simp add: with_macs_def min_absorb1 min_absorb2)

lemma with_macs_handshake:
  assumes "crypto_ok C" and "Generator_ok g" and "handshake_msg msg"
  shows "handshake_msg (with_macs C T g now msg)"
    and "MessageHeader_try_from (with_macs C T g now msg) = MessageHeader_try_from msg"
proof -
  have l: "92 \<le> length msg" using handshake_msg_length [OF assms(3)] .
  then have lens: "length (with_macs C T g now msg) = length msg" "44 \<le> length msg"
    using length_with_macs [OF assms(1,2)] by auto
  have "take 12 (with_macs C T g now msg) = take 12 msg"
    using l by (simp add: take_with_macs)
  note hdr = this same_header [OF lens(1) this lens(2)]
  then show "handshake_msg (with_macs C T g now msg)"
    using handshake_msg_same_header [OF lens(1) _ lens(2)] assms(3) by simp
  have "sub (with_macs C T g now msg) (fst (index_range t)) (snd (index_range t)) =
      sub msg (fst (index_range t)) (snd (index_range t))" for t
    using hdr by (cases t) simp_all
  then show "MessageHeader_try_from (with_macs C T g now msg) = MessageHeader_try_from msg"
    using hdr lens by (simp add: MessageHeader_try_from_eq split: sum.split)
qed

text \<open>A message from the generator passes the verifier for the same public key.\<close>

lemma with_macs_verify_1:
  assumes "crypto_ok C" and "Generator_ok g" and "Verifier_ok v" and "handshake_msg msg"
    and "g_mac1_key g = v_mac1_key v"
  shows "verify_mac_1 C v (with_macs C T g now msg) = Some True"
proof -
  have l: "32 \<le> length msg" using handshake_msg_length [OF assms(4)] by simp
  note p = with_macs_parts [OF assms(1,2) l refl, of T now]
  show ?thesis
    using verify_mac_1_eq [OF assms(1,3), of "with_macs C T g now msg"] l assms(5)
      length_with_macs [OF assms(1,2) l, of T now] p(1,2)
    by (simp add: mac1_for_def)
qed

lemma with_macs_verify_2:
  assumes "crypto_ok C" and "Generator_ok g" and "handshake_msg msg" and "length secret = 32"
    and "g_last_cookie g = Some lc" and "cookie_fresh T now lc" and "lc_cookie lc = cookie_for C source secret"
  shows "verify_mac_2 C v (with_macs C T g now msg) source secret = Some True"
proof -
  have l: "32 \<le> length msg" using handshake_msg_length [OF assms(3)] by simp
  note p = with_macs_parts [OF assms(1,2) l refl, of T now]
  show ?thesis
    using verify_mac_2_eq [OF assms(1,4), of "with_macs C T g now msg" v source] l assms(5-7)
      length_with_macs [OF assms(1,2) l, of T now] p(3,4)
    by (simp add: mac2_for_def)
qed

lemma new_keys_agree:
  "g_mac1_key (Generator_new C pk) = v_mac1_key (Verifier_new C pk)"
  "g_cookie_key (Generator_new C pk) = v_cookie_key (Verifier_new C pk)"
  by (simp_all add: Generator_new_def Verifier_new_def)

section \<open>Properties\<close>


definition ex_init :: bytes where
  "ex_init = [1, 0, 0, 0] @ replicate 144 0"

definition ex_resp :: bytes where
  "ex_resp = [2, 0, 0, 0] @ replicate 88 0"

lemma ex_msgs [simp]: "handshake_msg ex_init" "handshake_msg ex_resp"
  by (simp_all add: handshake_msg_iff ex_init_def ex_resp_def sub_def numeral_3_eq_3)


text \<open>
  C36: \<open>Generator::add_macs\<close> on any input. It never panics; a packet that is not a handshake message
  is refused and nothing changes. On a handshake message only the two MAC fields change, the header
  stays the same, the mac1 written is remembered for the cookie reply, and mac2 is zero unless a
  cookie at most \<open>COOKIE_REFRESH_INTERVAL\<close> old is held.
\<close>

theorem add_macs_spec:
  assumes "crypto_ok C" and "Generator_ok g"
  shows "\<exists>r g' msg'. add_macs C T g now msg = Some (r, g', msg') \<and> Generator_ok g' \<and>
    (if \<not> handshake_msg msg then r = Inl CookieInvalid \<and> g' = g \<and> msg' = msg
     else r = Inr () \<and> length msg' = length msg \<and>
       take (length msg - 32) msg' = take (length msg - 32) msg \<and>
       MessageHeader_try_from msg' = MessageHeader_try_from msg \<and>
       g' = g\<lparr>g_last_sent_mac1 := Some (sent_mac1 msg')\<rparr> \<and>
       (is_some_and (g_last_cookie g) (cookie_fresh T now) \<or>
        drop (length msg - 16) msg' = replicate 16 0))"
proof (cases "handshake_msg msg")
  case False
  then show ?thesis using assms by (simp add: add_macs_other)
next
  case True
  have l: "32 \<le> length msg" using handshake_msg_length [OF True] by simp
  note len = length_with_macs [OF assms l, of T now]
  have "g_last_cookie g = None \<or> (\<exists>lc. g_last_cookie g = Some lc \<and> \<not> cookie_fresh T now lc) \<Longrightarrow>
      mac2_for C T g now body = replicate 16 0" for body
    by (auto simp: mac2_for_def)
  then show ?thesis
    using add_macs_eq [OF assms True] add_macs_total [OF assms, of T now msg] len
      with_macs_parts [OF assms l refl, of T now] with_macs_handshake(2) [OF assms True] True
    by (cases "g_last_cookie g") auto
qed

theorem add_macs_spec_witness:
  "\<exists>r g' msg'. add_macs ex_crypto ex_tai (Generator_new ex_crypto (ex_key 5)) 10 ex_init =
    Some (r, g', msg') \<and> r = Inr () \<and> drop 132 msg' = replicate 16 0"
  using add_macs_spec [OF ex_crypto_ok Generator_ok_new [OF ex_crypto_ok], of ex_tai "ex_key 5" 10 ex_init]
  by (auto simp: Generator_new_def) (simp add: ex_init_def)

end
