(* ===== verification/Load.thy ===== *)
theory Load
  imports Net Cookies
begin

text \<open>
  The guard in front of the handshake code (\<open>protocol/src/peer/load.rs\<close>): it drops messages
  with a bad mac1, counts the others in windows of one second, and asks for a cookie above a rate.
\<close>

section \<open>State and operations\<close>

definition MAX_HANDSHAKES_PER_SECOND :: u32 where "MAX_HANDSHAKES_PER_SECOND = 25"

datatype HandshakeDecision = Process | Drop | Cookie bytes

record LoadGuard =
  lg_verifier :: Verifier
  lg_secret :: bytes
  lg_window_start :: Instant
  lg_handshakes :: u32
  lg_max_per_second :: u32

definition LoadGuard_new :: "crypto \<Rightarrow> bytes \<Rightarrow> bytes \<Rightarrow> LoadGuard" where
  "LoadGuard_new C our_public secret =
     \<lparr>lg_verifier = Verifier_new C our_public, lg_secret = secret, lg_window_start = Instant_default,
      lg_handshakes = 0, lg_max_per_second = MAX_HANDSHAKES_PER_SECOND\<rparr>"

definition with_max_rate :: "LoadGuard \<Rightarrow> u32 \<Rightarrow> LoadGuard" where
  "with_max_rate g max_handshakes_per_second = g\<lparr>lg_max_per_second := max_handshakes_per_second\<rparr>"

definition rotate_secret :: "LoadGuard \<Rightarrow> bytes \<Rightarrow> LoadGuard" where
  "rotate_secret g secret = g\<lparr>lg_secret := secret\<rparr>"

text \<open>\<open>source_bytes\<close> and the slice \<open>&source[..len]\<close> its caller takes.\<close>

definition source_bytes :: "SocketAddr \<Rightarrow> (bytes \<times> nat) option" where
  "source_bytes addr = do {
     let bytes = replicate 18 0;
     (bytes, ip_len) \<leftarrow> (case sa_ip addr of
         V4 ip \<Rightarrow> do { b \<leftarrow> copy_into bytes 0 4 (octets (V4 ip)); Some (b, 4) }
       | V6 ip \<Rightarrow> do { b \<leftarrow> copy_into bytes 0 16 (octets (V6 ip)); Some (b, 16) });
     bytes \<leftarrow> copy_into bytes ip_len (ip_len + 2) (be_bytes (sa_port addr));
     Some (bytes, ip_len + 2)
   }"

text \<open>\<open>self.handshakes += 1\<close>: an overflow of the counter is a panic.\<close>

definition count_up :: "u32 \<Rightarrow> u32 option" where
  "count_up n = (if n = - 1 then None else Some (n + 1))"

definition open_window :: "LoadGuard \<Rightarrow> Instant \<Rightarrow> LoadGuard" where
  "open_window g now =
     (if from_secs 1 \<le> duration_since now (lg_window_start g)
      then g\<lparr>lg_window_start := now, lg_handshakes := 0\<rparr> else g)"

definition check ::
  "crypto \<Rightarrow> LoadGuard \<Rightarrow> Instant \<Rightarrow> bytes \<Rightarrow> SocketAddr \<Rightarrow> bytes \<Rightarrow> (HandshakeDecision \<times> LoadGuard) option" where
  "check C g now msg source nonce = do {
     header \<leftarrow> MessageHeader_try_from msg;
     mac_1 \<leftarrow> (if is_handshake header then verify_mac_1 C (lg_verifier g) msg else Some False);
     if \<not> mac_1 then Some (Drop, g) else do {
       let g = open_window g now;
       n \<leftarrow> count_up (lg_handshakes g);
       let g = g\<lparr>lg_handshakes := n\<rparr>;
       if n \<le> lg_max_per_second g then Some (Process, g) else do {
         (source, len) \<leftarrow> source_bytes source;
         source \<leftarrow> subslice source 0 len;
         mac_2 \<leftarrow> verify_mac_2 C (lg_verifier g) msg source (lg_secret g);
         if mac_2 then Some (Process, g) else do {
           (r, reply) \<leftarrow> write_cookie_reply C (lg_verifier g) msg source (lg_secret g) nonce
             (replicate COOKIE_REPLY_LENGTH 0);
           Some (case r of Inl _ \<Rightarrow> Drop | Inr _ \<Rightarrow> Cookie reply, g)
         }
       }
     }
   }"

section \<open>Source addresses\<close>

definition source_id :: "SocketAddr \<Rightarrow> bytes" where
  "source_id addr = octets (sa_ip addr) @ be_bytes (sa_port addr)"

lemma source_bytes_eq:
  "\<exists>b. source_bytes addr = Some (b, length (source_id addr)) \<and>
     subslice b 0 (length (source_id addr)) = Some (source_id addr)"
  by (cases "sa_ip addr") (simp_all add: source_bytes_def source_id_def fill_simps subslice_def sub_def)

lemma source_id_inject: "source_id a = source_id b \<longleftrightarrow> sa_ip a = sa_ip b \<and> sa_port a = sa_port b"
proof
  assume eq: "source_id a = source_id b"
  then have "length (octets (sa_ip a)) = length (octets (sa_ip b))"
    using arg_cong [OF eq, of length] by (simp add: source_id_def)
  then have "octets (sa_ip a) = octets (sa_ip b)" "be_bytes (sa_port a) = be_bytes (sa_port b)"
    using eq by (simp_all add: source_id_def)
  then show "sa_ip a = sa_ip b \<and> sa_port a = sa_port b"
    by (cases "sa_ip a"; cases "sa_ip b") (auto dest: arg_cong [of _ _ length])
qed (simp add: source_id_def)

section \<open>What the guard decides\<close>

definition LoadGuard_ok :: "LoadGuard \<Rightarrow> bool" where
  "LoadGuard_ok g \<longleftrightarrow> Verifier_ok (lg_verifier g) \<and> length (lg_secret g) = 32"

text \<open>A message proves its source address if its mac2 is the one of the cookie for it.\<close>

definition proves_source :: "crypto \<Rightarrow> LoadGuard \<Rightarrow> bytes \<Rightarrow> SocketAddr \<Rightarrow> bool" where
  "proves_source C g msg source \<longleftrightarrow>
     verify_mac_2 C (lg_verifier g) msg (source_id source) (lg_secret g) = Some True"

definition mac1_valid :: "crypto \<Rightarrow> LoadGuard \<Rightarrow> bytes \<Rightarrow> bool" where
  "mac1_valid C g msg \<longleftrightarrow> handshake_msg msg \<and> verify_mac_1 C (lg_verifier g) msg = Some True"

lemma open_window_fields [simp]:
  "lg_verifier (open_window g now) = lg_verifier g" "lg_secret (open_window g now) = lg_secret g"
  "lg_max_per_second (open_window g now) = lg_max_per_second g"
  by (simp_all add: open_window_def)

lemma check_eq:
  assumes C: "crypto_ok C" and g: "LoadGuard_ok g" and n: "length nonce = 24"
    and room: "lg_handshakes g \<noteq> - 1"
    and g'_def: "g' = open_window g now"
  shows "check C g now msg source nonce = Some
    (if \<not> mac1_valid C g msg then (Drop, g)
     else
       (if lg_handshakes g' + 1 \<le> lg_max_per_second g \<or> proves_source C g msg source then Process
        else Cookie (cookie_packet C (lg_verifier g) msg (source_id source) (lg_secret g) nonce),
        g'\<lparr>lg_handshakes := lg_handshakes g' + 1\<rparr>))"
proof -
  obtain h where h: "MessageHeader_try_from msg = Some h" by (simp add: MessageHeader_try_from_eq)
  have hs: "is_handshake h = handshake_msg msg" by (simp add: handshake_msg_def h)
  obtain b where src: "source_bytes source = Some (b, length (source_id source))"
    "subslice b 0 (length (source_id source)) = Some (source_id source)"
    using source_bytes_eq by blast
  have up: "count_up (lg_handshakes g') = Some (lg_handshakes g' + 1)"
    using room by (simp add: count_up_def g'_def open_window_def)
  show ?thesis
  proof (cases "mac1_valid C g msg")
    case False
    have "verify_mac_1 C (lg_verifier g) msg \<noteq> None" if "handshake_msg msg"
      using verify_mac_1_eq [OF C, of "lg_verifier g" msg] g handshake_msg_length [OF that]
      by (simp add: LoadGuard_ok_def)
    then show ?thesis using False h hs by (auto simp: check_def mac1_valid_def)
  next
    case True
    then have m: "handshake_msg msg" and m1: "verify_mac_1 C (lg_verifier g) msg = Some True"
      by (simp_all add: mac1_valid_def)
    have m2: "verify_mac_2 C (lg_verifier g) msg (source_id source) (lg_secret g) =
        Some (proves_source C g msg source)"
      using verify_mac_2_eq [OF C, of "lg_secret g" msg "lg_verifier g" "source_id source"] g
        handshake_msg_length [OF m] by (simp add: LoadGuard_ok_def proves_source_def)
    have w: "write_cookie_reply C (lg_verifier g) msg (source_id source) (lg_secret g) nonce
        (replicate 64 0) = Some (Inr (), cookie_packet C (lg_verifier g) msg (source_id source) (lg_secret g) nonce)"
      using write_cookie_reply_eq(1) [OF C _ m _ n, of "lg_verifier g" "lg_secret g" "replicate 64 0"] g
      by (simp add: LoadGuard_ok_def)
    show ?thesis using True h hs m m1 m2 w src up
      by (simp add: check_def Let_def g'_def)
  qed
qed

section \<open>Runs of the guard\<close>

text \<open>
  A run of the guard: messages to check and rotations of the secret, in any order. \<open>unproven\<close>
  counts the messages that are let through without a proof of their source address.
\<close>

datatype guard_op = CheckMsg Instant bytes SocketAddr bytes | Rotate bytes

fun op_ok :: "Instant \<Rightarrow> guard_op \<Rightarrow> bool" where
  "op_ok until (CheckMsg now msg source nonce) \<longleftrightarrow> now \<le> until \<and> length nonce = 24"
| "op_ok until (Rotate secret) \<longleftrightarrow> length secret = 32"

fun unproven :: "crypto \<Rightarrow> LoadGuard \<Rightarrow> guard_op list \<Rightarrow> nat option" where
  "unproven C g [] = Some 0"
| "unproven C g (Rotate secret # ops) = unproven C (rotate_secret g secret) ops"
| "unproven C g (CheckMsg now msg source nonce # ops) = do {
     (decision, g') \<leftarrow> check C g now msg source nonce;
     n \<leftarrow> unproven C g' ops;
     Some ((if decision = Process \<and> \<not> proves_source C g msg source then 1 else 0) + n)
   }"

lemma count_up_unat: "unat (n :: u32) < 2 ^ 32 - 1 \<Longrightarrow> n \<noteq> - 1 \<and> unat (n + 1) = Suc (unat n)"
proof -
  assume "unat n < 2 ^ 32 - 1"
  then have "n \<noteq> - 1" by (auto simp: unsigned_minus_1_eq_mask mask_eq_exp_minus_1)
  moreover from this have "1 + n \<noteq> 0" by (metis add.commute eq_neg_iff_add_eq_0)
  ultimately show ?thesis using unatSuc [of n] by (simp add: add.commute)
qed

text \<open>
  Opening a window forgets the count but moves the start by at least a second, so the room
  that is left never grows.
\<close>

lemma window_room:
  assumes "now \<le> until"
  defines "room \<equiv> \<lambda>g. unat (lg_max_per_second g) *
      (1 + duration_since until (lg_window_start g) div from_secs 1) -
      min (unat (lg_handshakes g)) (unat (lg_max_per_second g))"
  shows "room (open_window g now) \<le> room g"
proof (cases "from_secs 1 \<le> duration_since now (lg_window_start g)")
  case False
  then show ?thesis by (simp add: open_window_def)
next
  case True
  let ?m = "unat (lg_max_per_second g)" and ?S = "from_secs 1"
  have "duration_since until now + ?S \<le> duration_since until (lg_window_start g)"
    using True assms(1) by (simp add: duration_since_def saturating_sub_def less_eq_Instant_def from_secs_def)
  then have "(duration_since until now + ?S) div ?S \<le> duration_since until (lg_window_start g) div ?S"
    by (rule div_le_mono)
  then have "1 + duration_since until now div ?S \<le> duration_since until (lg_window_start g) div ?S"
    by (simp add: from_secs_def)
  then have "?m * (1 + duration_since until now div ?S) \<le> ?m * (duration_since until (lg_window_start g) div ?S)"
    by (rule mult_le_mono2)
  then show ?thesis using True by (auto simp: room_def open_window_def min_def)
qed

lemma room_step:
  fixes m x h n k :: nat
  assumes "k \<le> 1" and "k = 1 \<longrightarrow> h < m" and "n \<le> m * (1 + x) - min (Suc h) m"
  shows "k + n \<le> m * (1 + x) - min h m"
proof -
  define M where "M = m * (1 + x)"
  have "m \<le> M" by (simp add: M_def)
  then show ?thesis
    using assms unfolding M_def [symmetric] by (cases "h < m") (auto simp: min_def)
qed

lemma unproven_bound:
  assumes C: "crypto_ok C"
  shows "LoadGuard_ok g \<Longrightarrow> \<forall>op \<in> set ops. op_ok until op \<Longrightarrow>
    unat (lg_handshakes g) + length ops < 2 ^ 32 \<Longrightarrow>
    \<exists>n. unproven C g ops = Some n \<and>
      n \<le> unat (lg_max_per_second g) * (1 + duration_since until (lg_window_start g) div from_secs 1) -
           min (unat (lg_handshakes g)) (unat (lg_max_per_second g))"
proof (induction ops arbitrary: g)
  case Nil
  then show ?case by simp
next
  case (Cons op ops)
  show ?case
  proof (cases op)
    case (Rotate secret)
    then show ?thesis using Cons.IH [of "rotate_secret g secret"] Cons.prems
      by (auto simp: rotate_secret_def LoadGuard_ok_def)
  next
    case (CheckMsg now msg source nonce)
    let ?g = "open_window g now"
    let ?g' = "?g\<lparr>lg_handshakes := lg_handshakes ?g + 1\<rparr>"
    have now: "now \<le> until" "length nonce = 24" using Cons.prems(2) CheckMsg by auto
    have h: "unat (lg_handshakes g) < 2 ^ 32 - 1" "unat (lg_handshakes ?g) \<le> unat (lg_handshakes g)"
      using Cons.prems(3) by (auto simp: open_window_def)
    then have up: "unat (lg_handshakes ?g + 1) = Suc (unat (lg_handshakes ?g))"
      using count_up_unat [of "lg_handshakes ?g"] by simp
    note eq = check_eq [OF C Cons.prems(1) now(2) _ refl, of now msg source]
    show ?thesis
    proof (cases "mac1_valid C g msg")
      case False
      then show ?thesis
        using eq count_up_unat [OF h(1)] Cons.IH [of g] Cons.prems CheckMsg by auto
    next
      case True
      have "LoadGuard_ok ?g'" using Cons.prems(1) by (simp add: LoadGuard_ok_def)
      then obtain n where n: "unproven C ?g' ops = Some n"
        "n \<le> unat (lg_max_per_second g) * (1 + duration_since until (lg_window_start ?g) div from_secs 1) -
           min (Suc (unat (lg_handshakes ?g))) (unat (lg_max_per_second g))"
        using Cons.IH [of ?g'] Cons.prems h up by auto
      obtain k where k: "unproven C g (op # ops) = Some (k + n)" "k \<le> 1"
          "k = 1 \<longrightarrow> unat (lg_handshakes ?g) < unat (lg_max_per_second g)"
        using eq True count_up_unat [OF h(1)] n(1) CheckMsg up by (auto simp: word_le_nat_alt)
      show ?thesis using k(1) room_step [OF k(2,3) n(2)] window_room [OF now(1), of g] by auto
    qed
  qed
qed

section \<open>Properties\<close>

text \<open>
  C18: the guard limits the rate of handshakes an unproven source can cause. Whatever messages
  arrive up to a time \<open>until\<close> (fewer than 2^32 of them) and however the secret is rotated in between,
  no call panics, and at most \<open>max_rate\<close> per started second are processed without a valid mac2.
\<close>

theorem load_guard_rate:
  assumes "crypto_ok C" and "length secret = 32" and "\<forall>op \<in> set ops. op_ok until op"
    and "length ops < 2 ^ 32"
  shows "\<exists>n. unproven C (with_max_rate (LoadGuard_new C our_public secret) max_rate) ops = Some n \<and>
    n \<le> unat max_rate * (1 + since_epoch until div from_secs 1)"
  using unproven_bound [OF assms(1) _ assms(3), of "with_max_rate (LoadGuard_new C our_public secret) max_rate"]
    assms(2,4) Verifier_ok_new [OF assms(1)]
  by (auto simp: with_max_rate_def LoadGuard_new_def LoadGuard_ok_def Instant_default_def duration_since_def
      saturating_sub_def)

theorem load_guard_rate_witness:
  "\<exists>n. unproven ex_crypto (with_max_rate (LoadGuard_new ex_crypto (ex_key 5) (ex_key 6)) 1)
      [CheckMsg (Instant 5) ex_init ex_addr (replicate 24 0), Rotate (ex_key 7),
       CheckMsg (Instant 6) ex_resp ex_addr (replicate 24 0)] = Some n \<and> n \<le> 1"
  using load_guard_rate [OF ex_crypto_ok, of "ex_key 6" "[CheckMsg (Instant 5) ex_init ex_addr (replicate 24 0),
      Rotate (ex_key 7), CheckMsg (Instant 6) ex_resp ex_addr (replicate 24 0)]" "Instant 7" "ex_key 5" 1]
  by (simp add: from_secs_def)

definition ex_guard :: "u32 \<Rightarrow> LoadGuard" where
  "ex_guard rate = with_max_rate (LoadGuard_new ex_crypto (ex_key 5) (ex_key 6)) rate"

lemma ex_mac_nonzero: "length k \<le> 32 \<Longrightarrow> b \<noteq> 0 \<Longrightarrow> mac_out ex_crypto k [b # xs] \<noteq> replicate 16 0"
  by (simp add: mac_out_def mac_def ex_crypto_def digest_def fit_def eval_nat_numeral)

lemma Generator_new_cookie: "g_last_cookie (Generator_new C pk) = None"
  by (simp add: Generator_new_def)

lemma ex_asked:
  "\<exists>gen1 m1 reply g'. add_macs ex_crypto ex_tai (Generator_new ex_crypto (ex_key 5)) 10 ex_init =
      Some (Inr (), gen1, m1) \<and>
    check ex_crypto (ex_guard 0) (Instant 5) m1 ex_addr (replicate 24 0) = Some (Cookie reply, g')"
proof -
  let ?gen = "Generator_new ex_crypto (ex_key 5) :: u64 Generator"
  note gen = Generator_ok_new [OF ex_crypto_ok, of "ex_key 5", where 'a = u64]
  define m1 where "m1 = with_macs ex_crypto ex_tai ?gen 10 ex_init"
  have l: "32 \<le> length ex_init" by (simp add: ex_init_def)
  have g: "LoadGuard_ok (ex_guard 0)"
    by (simp add: LoadGuard_ok_def ex_guard_def with_max_rate_def LoadGuard_new_def Verifier_ok_new)
  have v: "lg_verifier (ex_guard 0) = Verifier_new ex_crypto (ex_key 5)"
    by (simp add: ex_guard_def with_max_rate_def LoadGuard_new_def)
  have len: "length m1 = 148" using length_with_macs [OF ex_crypto_ok gen l] by (simp add: m1_def ex_init_def)
  have "take 4 m1 = [1, 0, 0, 0]" unfolding m1_def by (subst take_with_macs) (simp_all add: ex_init_def)
  then obtain xs where xs: "take 132 m1 = 1 # xs" using len
    by (cases m1) auto
  have "mac1_valid ex_crypto (ex_guard 0) m1"
    unfolding mac1_valid_def v m1_def using with_macs_handshake(1) [OF ex_crypto_ok gen ex_msgs(1)]
      with_macs_verify_1 [OF ex_crypto_ok gen Verifier_ok_new [OF ex_crypto_ok] ex_msgs(1) new_keys_agree(1)]
    by simp
  moreover have "drop 132 m1 = replicate 16 0"
    using with_macs_parts(4) [OF ex_crypto_ok gen l refl, of ex_tai 10] len
    by (simp add: m1_def [symmetric] mac2_for_def Generator_new_cookie)
  then have "\<not> proves_source ex_crypto (ex_guard 0) m1 ex_addr"
    using verify_mac_2_eq [OF ex_crypto_ok, of "lg_secret (ex_guard 0)" m1] g len xs
      ex_mac_nonzero [of "cookie_for ex_crypto (source_id ex_addr) (lg_secret (ex_guard 0))" 1 xs]
      mac_total(2) [OF ex_crypto_ok, of "lg_secret (ex_guard 0)"]
    by (simp add: proves_source_def LoadGuard_ok_def cookie_for_def)
  ultimately show ?thesis
    using check_eq [OF ex_crypto_ok g _ _ refl, of "replicate 24 0" "Instant 5" m1 ex_addr]
      add_macs_eq [OF ex_crypto_ok gen ex_msgs(1), of ex_tai 10]
    by (simp add: m1_def [symmetric] ex_guard_def with_max_rate_def LoadGuard_new_def open_window_def
        from_secs_def duration_since_def saturating_sub_def Instant_default_def)
qed



end
