(* ===== verification/Runs.thy ===== *)
theory Runs
  imports Main
begin

text \<open>
  Components as state machines: a step takes an operation and yields the next state, \<open>None\<close> being a
  panic. The locales are the contracts a component proves once for its operations. In \<open>guarded\<close> the state decides
  which steps are possible; in \<open>stateful\<close> every valid operation is, and yields a result. From a
  well-formed state no step panics and the next state is well formed; what follows for runs of any length is
  proved here.
\<close>

section \<open>Guarded steps\<close>

text \<open>The states that steps lead to, each taken in a state that allows it.\<close>

inductive reach :: "('s \<Rightarrow> 'o \<Rightarrow> 's option) \<Rightarrow> ('s \<Rightarrow> 'o \<Rightarrow> bool) \<Rightarrow> 's \<Rightarrow> 's \<Rightarrow> bool" for step enabled s where
  start [intro]: "reach step enabled s s"
| step: "reach step enabled s t \<Longrightarrow> enabled t x \<Longrightarrow> step t x = Some u \<Longrightarrow> reach step enabled s u"

lemma reach_one: "enabled s x \<Longrightarrow> step s x = Some t \<Longrightarrow> reach step enabled s t"
  by (rule reach.step [OF reach.start])

lemma reach_trans: "reach step enabled t u \<Longrightarrow> reach step enabled s t \<Longrightarrow> reach step enabled s u"
  by (induction rule: reach.induct) (auto intro: reach.step)

text \<open>The contract: from a state that satisfies the invariant, every step that is allowed is taken and keeps it.\<close>

locale guarded =
  fixes step :: "'s \<Rightarrow> 'o \<Rightarrow> 's option" and enabled :: "'s \<Rightarrow> 'o \<Rightarrow> bool" and ok :: "'s \<Rightarrow> bool"
  assumes progress: "ok s \<Longrightarrow> enabled s x \<Longrightarrow> \<exists>t. step s x = Some t \<and> ok t"
begin

lemma preserved: "ok s \<Longrightarrow> enabled s x \<Longrightarrow> step s x = Some t \<Longrightarrow> ok t"
  using progress by fastforce

lemma reach_ok: "reach step enabled s t \<Longrightarrow> ok s \<Longrightarrow> ok t"
  by (induction rule: reach.induct) (auto intro: preserved)

lemma reach_keeps:
  assumes "\<And>s x t. ok s \<Longrightarrow> enabled s x \<Longrightarrow> step s x = Some t \<Longrightarrow> P s \<Longrightarrow> P t"
  shows "reach step enabled s t \<Longrightarrow> ok s \<Longrightarrow> P s \<Longrightarrow> P t"
proof (induction rule: reach.induct)
  case (step t x u)
  then show ?case using assms [OF reach_ok [OF step.hyps(1)] step.hyps(2,3)] by blast
qed

end

section \<open>Steps with results\<close>

primrec run :: "('s \<Rightarrow> 'o \<Rightarrow> ('e \<times> 's) option) \<Rightarrow> 's \<Rightarrow> 'o list \<Rightarrow> ('e list \<times> 's) option" where
  "run step s [] = Some ([], s)"
| "run step s (x # xs) =
     (case step s x of
        None \<Rightarrow> None
      | Some (e, s') \<Rightarrow> (case run step s' xs of None \<Rightarrow> None | Some (es, t) \<Rightarrow> Some (e # es, t)))"

lemma run_append:
  "run step s (xs @ ys) =
     (case run step s xs of
        None \<Rightarrow> None
      | Some (es, s') \<Rightarrow> (case run step s' ys of None \<Rightarrow> None | Some (es', t) \<Rightarrow> Some (es @ es', t)))"
  by (induction xs arbitrary: s) (auto split: option.split prod.split)

lemma run_ConsE:
  assumes "run step s (x # xs) = Some (es, t)"
  obtains e s' es' where "step s x = Some (e, s')" "run step s' xs = Some (es', t)" "es = e # es'"
  using assms by (auto split: option.splits prod.splits)

locale stateful =
  fixes step :: "'s \<Rightarrow> 'o \<Rightarrow> ('e \<times> 's) option" and inv :: "'s \<Rightarrow> bool" and valid :: "'o \<Rightarrow> bool"
  assumes step_ok: "inv s \<Longrightarrow> valid x \<Longrightarrow> \<exists>e s'. step s x = Some (e, s') \<and> inv s'"
begin

lemma step_inv: "inv s \<Longrightarrow> valid x \<Longrightarrow> step s x = Some (e, s') \<Longrightarrow> inv s'"
  using step_ok by fastforce

lemma run_ok:
  assumes "inv s" and "\<forall>x \<in> set xs. valid x"
  shows "\<exists>es t. run step s xs = Some (es, t) \<and> inv t \<and> length es = length xs"
  using assms
proof (induction xs arbitrary: s)
  case Nil
  then show ?case by simp
next
  case (Cons x xs)
  then obtain e s' where "step s x = Some (e, s')" "inv s'" using step_ok by fastforce
  moreover from this obtain es t where "run step s' xs = Some (es, t)" "inv t" "length es = length xs"
    using Cons.IH [of s'] Cons.prems by auto
  ultimately show ?case by simp
qed

text \<open>A relation between states that every step keeps, and that composes, holds over a run.\<close>

lemma run_rel:
  assumes "\<And>s x e s'. inv s \<Longrightarrow> valid x \<Longrightarrow> step s x = Some (e, s') \<Longrightarrow> R s s'"
    and "\<And>s. R s s" and "\<And>a b c. R a b \<Longrightarrow> R b c \<Longrightarrow> R a c"
    and "inv s" and "\<forall>x \<in> set xs. valid x" and "run step s xs = Some (es, t)"
  shows "R s t"
  using assms(4-6)
proof (induction xs arbitrary: s es)
  case Nil
  then show ?case using assms(2) by simp
next
  case (Cons x xs)
  from Cons.prems(3) obtain e s' es' where "step s x = Some (e, s')" "run step s' xs = Some (es', t)"
    by (rule run_ConsE)
  then show ?case using Cons assms(1,3) step_inv by (metis list.set_intros)
qed

text \<open>An account kept per step (what a step adds and removes) balances over a run.\<close>

lemma run_account:
  fixes account :: "'s \<Rightarrow> 'a::comm_monoid_add"
  assumes "\<And>s x e s'. inv s \<Longrightarrow> valid x \<Longrightarrow> step s x = Some (e, s') \<Longrightarrow> account s' + out e = account s + inn e"
    and "inv s" and "\<forall>x \<in> set xs. valid x" and "run step s xs = Some (es, t)"
  shows "account t + sum_list (map out es) = account s + sum_list (map inn es)"
  using assms(2-4)
proof (induction xs arbitrary: s es)
  case Nil
  then show ?case by simp
next
  case (Cons x xs)
  from Cons.prems(3) obtain e s' es' where st: "step s x = Some (e, s')" and
    r: "run step s' xs = Some (es', t)" and es: "es = e # es'" by (rule run_ConsE)
  have ih: "account t + sum_list (map out es') = account s' + sum_list (map inn es')"
    using Cons.IH [OF _ _ r] Cons.prems st step_inv by auto
  have "account t + sum_list (map out es) = out e + (account t + sum_list (map out es'))"
    by (simp add: es ac_simps)
  also have "\<dots> = (account s' + out e) + sum_list (map inn es')" unfolding ih by (simp add: ac_simps)
  also have "\<dots> = account s + sum_list (map inn es)"
    using assms(1) [of s x e s'] Cons.prems st by (simp add: es ac_simps)
  finally show ?case .
qed

end

text \<open>Without the results, a component of the second kind is one of the first.\<close>

sublocale stateful \<subseteq> plain: guarded "\<lambda>s x. map_option snd (step s x)" "\<lambda>_. valid" inv
proof
  fix s x assume "inv s" "valid x"
  from step_ok [OF this] show "\<exists>t. map_option snd (step s x) = Some t \<and> inv t" by auto
qed

end
