(* ===== verification/Replay.thy ===== *)
theory Replay
  imports Wire
begin

text \<open>
  The sliding-window duplicate detection of \<open>protocol/src/transport.rs\<close>
  (\<open>ReplayFilter\<close>): a ring of 128 words of 64 bits, as in RFC 6479.

  \<open>ReplayFilter_validate\<close> is the code. \<open>replay_spec\<close> is what it promises: the largest
  counter seen and the set of all counters accepted so far. The refinement relation
  \<open>replay_rel\<close> connects the two, \<open>validate_refines\<close> is the simulation, and the locale
  \<open>anti_replay\<close> is the contract the session layer relies on.
\<close>

section \<open>The filter\<close>

definition COUNTER_BLOCK_BITS :: u64 where "COUNTER_BLOCK_BITS = 64"
definition COUNTER_BLOCKS :: nat where "COUNTER_BLOCKS = 128"
definition COUNTER_WINDOW :: u64 where
  "COUNTER_WINDOW = (of_nat COUNTER_BLOCKS - 1) * COUNTER_BLOCK_BITS"
definition REJECT_AFTER_MESSAGES :: u64 where
  "REJECT_AFTER_MESSAGES = - 1 - push_bit 13 1"
definition REKEY_AFTER_MESSAGES :: u64 where
  "REKEY_AFTER_MESSAGES = push_bit 60 1"

record ReplayFilter =
  rf_last :: u64
  rf_ring :: "u64 list"

definition ReplayFilter_new :: ReplayFilter where
  "ReplayFilter_new = \<lparr>rf_last = 0, rf_ring = replicate COUNTER_BLOCKS 0\<rparr>"

text \<open>The loop \<open>for i in lo..=hi { ring[i % COUNTER_BLOCKS] = 0 }\<close>.\<close>

definition clear_blocks :: "u64 \<Rightarrow> u64 \<Rightarrow> u64 list \<Rightarrow> u64 list" where
  "clear_blocks lo hi ring =
     fold (\<lambda>i r. r[i mod COUNTER_BLOCKS := 0]) [unat lo ..< Suc (unat hi)] ring"

text \<open>
  \<open>ReplayFilter::validate\<close>: the filter after the call and the verdict; its last part, which
  tests and sets the counter's bit, is \<open>ReplayFilter_mark\<close>, and the branch that moves the
  window forward is \<open>ReplayFilter_advance\<close>. The accesses
  \<open>ring[x % COUNTER_BLOCKS]\<close> are in range because the ring has \<open>COUNTER_BLOCKS\<close> entries
  (its Rust type is an array), so they cannot panic; \<open>replay_wf\<close> below records this.
\<close>

definition ReplayFilter_advance :: "ReplayFilter \<Rightarrow> u64 \<Rightarrow> ReplayFilter" where
  "ReplayFilter_advance f counter =
     (let index_block = counter div COUNTER_BLOCK_BITS;
          current_block = rf_last f div COUNTER_BLOCK_BITS;
          diff = min (index_block - current_block) (of_nat COUNTER_BLOCKS)
      in \<lparr>rf_last = counter,
          rf_ring = clear_blocks (current_block + 1) (current_block + diff) (rf_ring f)\<rparr>)"

definition ReplayFilter_mark :: "ReplayFilter \<Rightarrow> u64 \<Rightarrow> bool \<times> ReplayFilter" where
  "ReplayFilter_mark f counter =
     (let index_block = counter div COUNTER_BLOCK_BITS;
          bit_mask = push_bit (unat (counter mod COUNTER_BLOCK_BITS)) 1;
          slot = unat (index_block mod of_nat COUNTER_BLOCKS);
          block = rf_ring f ! slot
      in if block AND bit_mask \<noteq> 0 then (False, f)
         else (True, f\<lparr>rf_ring := (rf_ring f)[slot := block OR bit_mask]\<rparr>))"

definition ReplayFilter_validate :: "ReplayFilter \<Rightarrow> u64 \<Rightarrow> bool \<times> ReplayFilter" where
  "ReplayFilter_validate f counter =
     (if REJECT_AFTER_MESSAGES \<le> counter then (False, f)
      else if rf_last f < counter then ReplayFilter_mark (ReplayFilter_advance f counter) counter
      else if COUNTER_WINDOW < rf_last f - counter then (False, f)
      else ReplayFilter_mark f counter)"

section \<open>The specification\<close>

text \<open>The largest counter accepted (0 at the start) and all counters accepted so far.\<close>

record replay_spec =
  rs_last :: nat
  rs_seen :: "nat set"

definition spec_new :: replay_spec where
  "spec_new = \<lparr>rs_last = 0, rs_seen = {}\<rparr>"

definition spec_accepts :: "replay_spec \<Rightarrow> nat \<Rightarrow> bool" where
  "spec_accepts s c \<longleftrightarrow> c < 2 ^ 64 - 2 ^ 13 - 1 \<and> rs_last s \<le> c + 8128 \<and> c \<notin> rs_seen s"

definition spec_validate :: "replay_spec \<Rightarrow> nat \<Rightarrow> bool \<times> replay_spec" where
  "spec_validate s c =
     (if spec_accepts s c
      then (True, \<lparr>rs_last = max (rs_last s) c, rs_seen = insert c (rs_seen s)\<rparr>)
      else (False, s))"

section \<open>The ring\<close>

lemma length_clear_blocks [simp]: "length (clear_blocks lo hi ring) = length ring"
proof -
  have "length (fold (\<lambda>i r. r[i mod COUNTER_BLOCKS := 0]) ks ring) = length ring"
    for ks and ring :: "u64 list"
    by (induction ks arbitrary: ring) auto
  then show ?thesis by (simp add: clear_blocks_def)
qed

lemma clear_blocks_nth:
  assumes "j < length ring" and "length ring = COUNTER_BLOCKS"
  shows "clear_blocks lo hi ring ! j =
    (if \<exists>i \<in> {unat lo..unat hi}. i mod COUNTER_BLOCKS = j then 0 else ring ! j)"
proof -
  have "fold (\<lambda>i r. r[i mod COUNTER_BLOCKS := 0]) ks ring ! j =
      (if \<exists>i \<in> set ks. i mod COUNTER_BLOCKS = j then 0 else ring ! j)"
    if "j < length ring" for ks and ring :: "u64 list"
    using that by (induction ks arbitrary: ring) (auto simp: nth_list_update)
  then show ?thesis
    using assms by (simp only: clear_blocks_def set_upt atLeastLessThanSuc_atLeastAtMost)
qed

lemma and_one_bit: "k < 64 \<Longrightarrow> (w AND push_bit k 1 \<noteq> 0) \<longleftrightarrow> bit (w :: u64) k"
  by (metis and_exp_eq_0_iff_not_bit push_bit_of_1)

lemma bit_or_one_bit: "k < 64 \<Longrightarrow> bit ((w :: u64) OR push_bit k 1) n \<longleftrightarrow> bit w n \<or> n = k"
  by (auto simp: bit_or_iff bit_exp_iff dest: bit_imp_le_length)

lemma window_consts [simp]:
  "unat COUNTER_WINDOW = 8128" "unat REJECT_AFTER_MESSAGES = 2 ^ 64 - 2 ^ 13 - 1"
  "unat REKEY_AFTER_MESSAGES = 2 ^ 60"
  by (simp_all add: COUNTER_WINDOW_def COUNTER_BLOCKS_def COUNTER_BLOCK_BITS_def
      REJECT_AFTER_MESSAGES_def REKEY_AFTER_MESSAGES_def)

text \<open>
  Two blocks fewer than 128 apart share a slot of the ring only if they are the same block:
  why a window of 127 whole blocks fits a ring of 128.
\<close>

lemma same_slot_iff:
  assumes "a \<le> b" and "b < a + COUNTER_BLOCKS"
  shows "a mod COUNTER_BLOCKS = b mod COUNTER_BLOCKS \<longleftrightarrow> a = b"
proof
  assume "a mod COUNTER_BLOCKS = b mod COUNTER_BLOCKS"
  then have "COUNTER_BLOCKS dvd b - a" using assms(1) by (metis mod_eq_dvd_iff_nat)
  then obtain k where k: "b - a = 128 * k" by (auto simp: dvd_def COUNTER_BLOCKS_def)
  with assms have "128 * k < 128" by (simp add: COUNTER_BLOCKS_def)
  with k assms(1) show "a = b" by simp
qed simp

section \<open>Refinement\<close>

text \<open>
  The ring describes the window: for every counter whose block is one of the 128 up to the
  block of the largest counter, its bit says whether it was accepted.
\<close>

definition in_ring :: "nat \<Rightarrow> nat \<Rightarrow> bool" where
  "in_ring newest c \<longleftrightarrow> c div 64 \<le> newest div 64 \<and> newest div 64 < c div 64 + COUNTER_BLOCKS"

definition ring_bit :: "u64 list \<Rightarrow> nat \<Rightarrow> bool" where
  "ring_bit ring c = bit (ring ! (c div 64 mod COUNTER_BLOCKS)) (c mod 64)"

definition replay_wf :: "ReplayFilter \<Rightarrow> bool" where
  "replay_wf f \<longleftrightarrow> length (rf_ring f) = COUNTER_BLOCKS"

definition replay_rel :: "ReplayFilter \<Rightarrow> replay_spec \<Rightarrow> bool" where
  "replay_rel f s \<longleftrightarrow> replay_wf f \<and> unat (rf_last f) = rs_last s \<and>
     (\<forall>c \<in> rs_seen s. c \<le> rs_last s) \<and>
     (\<forall>c. in_ring (rs_last s) c \<longrightarrow> (ring_bit (rf_ring f) c \<longleftrightarrow> c \<in> rs_seen s))"

lemma replay_rel_new: "replay_rel ReplayFilter_new spec_new"
  by (auto simp: replay_rel_def replay_wf_def ReplayFilter_new_def spec_new_def ring_bit_def
      COUNTER_BLOCKS_def)

lemma in_ring_window:
  assumes "c \<le> newest" and "newest \<le> c + 8128"
  shows "in_ring newest c"
  using assms by (auto simp: in_ring_def COUNTER_BLOCKS_def)

text \<open>Advancing the window clears exactly the blocks that enter it.\<close>

lemma unat_block: "unat (w div COUNTER_BLOCK_BITS) = unat w div 64"
  by (simp add: COUNTER_BLOCK_BITS_def unat_div_distrib)

lemma clear_range:
  fixes newest counter :: u64
  assumes "newest < counter"
  defines "cb \<equiv> newest div COUNTER_BLOCK_BITS" and "nb \<equiv> counter div COUNTER_BLOCK_BITS"
  shows "unat (cb + 1) = unat newest div 64 + 1"
    and "unat (cb + min (nb - cb) (of_nat COUNTER_BLOCKS)) =
      unat newest div 64 + min (unat counter div 64 - unat newest div 64) COUNTER_BLOCKS"
proof -
  have cb: "unat cb = unat newest div 64" and nb: "unat nb = unat counter div 64"
    by (simp_all add: cb_def nb_def unat_block)
  have small: "unat newest div 64 < 2 ^ 58" using unsigned_less [of newest, where ?'a = nat] by simp
  show "unat (cb + 1) = unat newest div 64 + 1"
    using small by (simp add: unat_word_ariths cb)
  have "cb \<le> nb"
    using assms(1) by (simp add: word_le_nat_alt cb nb word_less_nat_alt div_le_mono)
  then have "unat (nb - cb) = unat counter div 64 - unat newest div 64"
    by (simp add: unat_sub cb nb)
  then have "unat (min (nb - cb) (of_nat COUNTER_BLOCKS)) =
      min (unat counter div 64 - unat newest div 64) COUNTER_BLOCKS"
    by (simp add: min_def word_le_nat_alt COUNTER_BLOCKS_def)
  then show "unat (cb + min (nb - cb) (of_nat COUNTER_BLOCKS)) =
      unat newest div 64 + min (unat counter div 64 - unat newest div 64) COUNTER_BLOCKS"
    using small by (simp add: unat_word_ariths cb COUNTER_BLOCKS_def min_def)
qed

text \<open>
  The blocks \<open>cb + 1 .. cb + min (nb - cb) 128\<close> are the slots of all blocks of the new
  window that lie above the old one.
\<close>

lemma entering_slot_iff:
  assumes "cb \<le> nb" and "b \<le> nb" and "nb < b + COUNTER_BLOCKS"
  shows "(\<exists>i \<in> {cb + 1..cb + min (nb - cb) COUNTER_BLOCKS}. i mod COUNTER_BLOCKS = b mod COUNTER_BLOCKS)
     \<longleftrightarrow> cb < b"
proof
  assume "\<exists>i \<in> {cb + 1..cb + min (nb - cb) COUNTER_BLOCKS}. i mod COUNTER_BLOCKS = b mod COUNTER_BLOCKS"
  then obtain i where i: "cb < i" "i \<le> cb + min (nb - cb) COUNTER_BLOCKS"
    and eq: "i mod COUNTER_BLOCKS = b mod COUNTER_BLOCKS" by (auto simp: Suc_le_eq)
  show "cb < b"
  proof (rule ccontr)
    assume "\<not> cb < b"
    with i assms have "b \<le> i" "i < b + COUNTER_BLOCKS" by auto
    then have "b = i" using same_slot_iff eq by metis
    with i \<open>\<not> cb < b\<close> show False by simp
  qed
next
  assume "cb < b"
  define r where "r = (b - (cb + 1)) mod COUNTER_BLOCKS"
  define i where "i = cb + 1 + r"
  have "r < COUNTER_BLOCKS" and "r \<le> b - (cb + 1)"
    by (simp_all add: r_def COUNTER_BLOCKS_def)
  then have "i \<in> {cb + 1..cb + min (nb - cb) COUNTER_BLOCKS}"
    using assms(2) \<open>cb < b\<close> by (auto simp: i_def)
  moreover have "i mod COUNTER_BLOCKS = b mod COUNTER_BLOCKS"
    using mod_add_right_eq [of "cb + 1" "b - (cb + 1)" COUNTER_BLOCKS] \<open>cb < b\<close>
    by (simp add: i_def r_def)
  ultimately show "\<exists>i \<in> {cb + 1..cb + min (nb - cb) COUNTER_BLOCKS}. i mod COUNTER_BLOCKS = b mod COUNTER_BLOCKS"
    by blast
qed

lemma clear_advance:
  fixes newest counter :: u64
  assumes len: "length ring = COUNTER_BLOCKS" and adv: "newest < counter"
    and inr: "in_ring (unat counter) c"
  shows "ring_bit (clear_blocks (newest div COUNTER_BLOCK_BITS + 1)
           (newest div COUNTER_BLOCK_BITS +
             min (counter div COUNTER_BLOCK_BITS - newest div COUNTER_BLOCK_BITS) (of_nat COUNTER_BLOCKS))
           ring) c \<longleftrightarrow> c div 64 \<le> unat newest div 64 \<and> ring_bit ring c"
proof -
  have "unat newest div 64 \<le> unat counter div 64"
    using adv by (simp add: word_less_nat_alt div_le_mono)
  then have "(\<exists>i \<in> {unat newest div 64 + 1..unat newest div 64 +
        min (unat counter div 64 - unat newest div 64) COUNTER_BLOCKS}.
        i mod COUNTER_BLOCKS = c div 64 mod COUNTER_BLOCKS) \<longleftrightarrow> unat newest div 64 < c div 64"
    using inr by (intro entering_slot_iff) (auto simp: in_ring_def)
  moreover have "c div 64 mod COUNTER_BLOCKS < length ring"
    by (simp add: len COUNTER_BLOCKS_def)
  ultimately show ?thesis
    by (simp add: ring_bit_def clear_blocks_nth len clear_range [OF adv] not_less [symmetric])
qed


text \<open>
  Marking a counter of the window sets its own bit and no other bit of the window.
\<close>

lemma ring_bit_mark:
  assumes "length ring = COUNTER_BLOCKS" and "in_ring m c" and "in_ring m d"
  defines "slot \<equiv> d div 64 mod COUNTER_BLOCKS"
  shows "ring_bit (ring[slot := ring ! slot OR push_bit (d mod 64) 1]) c \<longleftrightarrow> ring_bit ring c \<or> c = d"
proof -
  have "c div 64 mod COUNTER_BLOCKS = slot \<longleftrightarrow> c div 64 = d div 64"
  proof (cases "c div 64 \<le> d div 64")
    case True
    then show ?thesis using assms(2,3) unfolding slot_def
      by (intro same_slot_iff) (auto simp: in_ring_def)
  next
    case False
    then have "slot = c div 64 mod COUNTER_BLOCKS \<longleftrightarrow> d div 64 = c div 64"
      using assms(2,3) unfolding slot_def by (intro same_slot_iff) (auto simp: in_ring_def)
    then show ?thesis by auto
  qed
  moreover have "c = d \<longleftrightarrow> c div 64 = d div 64 \<and> c mod 64 = d mod 64"
    by (metis div_mult_mod_eq)
  moreover have "slot < length ring" by (simp add: slot_def assms(1) COUNTER_BLOCKS_def)
  ultimately show ?thesis
    by (auto simp: ring_bit_def nth_list_update bit_or_one_bit simp del: push_bit_of_1)
qed

text \<open>The simulation: one call of the code is one step of the specification.\<close>

lemma validate_mark:
  fixes counter :: u64
  defines "n \<equiv> unat counter"
  assumes rel: "replay_wf f" "unat (rf_last f) = m" "\<And>c. c \<in> S \<Longrightarrow> c \<le> m"
      "\<And>c. in_ring m c \<Longrightarrow> ring_bit (rf_ring f) c \<longleftrightarrow> c \<in> S"
    and n: "n \<le> m" "in_ring m n"
    and r: "ReplayFilter_mark f counter = (b, f')"
  shows "b \<longleftrightarrow> n \<notin> S" and "replay_rel f' \<lparr>rs_last = m, rs_seen = insert n S\<rparr>"
proof -
  have k: "unat (counter mod COUNTER_BLOCK_BITS) = n mod 64"
    by (simp add: COUNTER_BLOCK_BITS_def unat_mod_distrib n_def)
  have slot: "unat (counter div COUNTER_BLOCK_BITS mod of_nat COUNTER_BLOCKS) = n div 64 mod COUNTER_BLOCKS"
    by (simp add: COUNTER_BLOCK_BITS_def COUNTER_BLOCKS_def unat_mod_distrib unat_div_distrib n_def)
  have bit: "(rf_ring f ! (n div 64 mod COUNTER_BLOCKS) AND push_bit (n mod 64) 1 \<noteq> 0) \<longleftrightarrow> n \<in> S"
    using rel(4) [OF n(2)] by (simp add: and_one_bit ring_bit_def del: push_bit_of_1)
  then show "b \<longleftrightarrow> n \<notin> S"
    using r by (auto simp: ReplayFilter_mark_def Let_def k slot simp del: push_bit_of_1 split: if_splits)
  show "replay_rel f' \<lparr>rs_last = m, rs_seen = insert n S\<rparr>"
  proof (cases "n \<in> S")
    case True
    then have "f' = f" using r bit by (auto simp: ReplayFilter_mark_def Let_def k slot simp del: push_bit_of_1)
    then show ?thesis using rel True by (auto simp: replay_rel_def insert_absorb)
  next
    case False
    then have "f' = f\<lparr>rf_ring := (rf_ring f)[n div 64 mod COUNTER_BLOCKS :=
        rf_ring f ! (n div 64 mod COUNTER_BLOCKS) OR push_bit (n mod 64) 1]\<rparr>"
      using r bit by (auto simp: ReplayFilter_mark_def Let_def k slot simp del: push_bit_of_1)
    then show ?thesis
      using rel n by (auto simp: replay_rel_def replay_wf_def ring_bit_mark [where m = m]
          simp del: push_bit_of_1)
  qed
qed

lemma validate_advance:
  assumes rel: "replay_rel f s" and adv: "rf_last f < counter"
  defines "f1 \<equiv> ReplayFilter_advance f counter"
  shows "replay_wf f1" and "unat (rf_last f1) = unat counter" and "c \<in> rs_seen s \<Longrightarrow> c < unat counter"
    and "in_ring (unat counter) c \<Longrightarrow> ring_bit (rf_ring f1) c \<longleftrightarrow> c \<in> rs_seen s"
proof -
  have less: "rs_last s < unat counter"
    using rel adv by (simp add: replay_rel_def word_less_nat_alt)
  show "replay_wf f1" using rel by (simp add: f1_def ReplayFilter_advance_def Let_def replay_rel_def replay_wf_def)
  show "unat (rf_last f1) = unat counter" by (simp add: f1_def ReplayFilter_advance_def Let_def)
  show "c < unat counter" if "c \<in> rs_seen s"
    using rel that less by (auto simp: replay_rel_def)
  show "ring_bit (rf_ring f1) c \<longleftrightarrow> c \<in> rs_seen s" if "in_ring (unat counter) c"
  proof -
    have "ring_bit (rf_ring f1) c \<longleftrightarrow> c div 64 \<le> rs_last s div 64 \<and> ring_bit (rf_ring f) c"
      using rel that by (simp add: f1_def ReplayFilter_advance_def Let_def clear_advance [OF _ adv] replay_rel_def replay_wf_def)
    moreover have "in_ring (rs_last s) c" if "c div 64 \<le> rs_last s div 64"
      using that \<open>in_ring (unat counter) c\<close> div_le_mono [OF less [THEN less_imp_le], of 64]
      by (auto simp: in_ring_def)
    moreover have "c div 64 \<le> rs_last s div 64" if "c \<in> rs_seen s"
      using rel that by (auto simp: replay_rel_def div_le_mono)
    ultimately show ?thesis using rel by (auto simp: replay_rel_def)
  qed
qed

text \<open>A counter ahead of the window moves it; one inside the window is marked.\<close>

lemma refines_ahead:
  assumes rel: "replay_rel f s" and "counter < REJECT_AFTER_MESSAGES" and ahead: "rf_last f < counter"
    and run: "ReplayFilter_validate f counter = (b, f')" and spec: "spec_validate s (unat counter) = (b', s')"
  shows "b = b' \<and> replay_rel f' s'"
proof -
  let ?n = "unat counter"
  note v = validate_advance [OF rel ahead]
  have marked: "ReplayFilter_mark (ReplayFilter_advance f counter) counter = (b, f')"
    using run assms(2) ahead by (auto simp: ReplayFilter_validate_def split: if_splits)
  have le: "c \<le> ?n" if "c \<in> rs_seen s" for c using v(3) [OF that] by simp
  have inr: "in_ring ?n ?n" by (simp add: in_ring_def COUNTER_BLOCKS_def)
  have "b \<longleftrightarrow> ?n \<notin> rs_seen s" and "replay_rel f' \<lparr>rs_last = ?n, rs_seen = insert ?n (rs_seen s)\<rparr>"
    using validate_mark [OF v(1,2) le v(4) order_refl inr marked] by simp_all
  moreover have "?n \<notin> rs_seen s" using v(3) by blast
  moreover have "rs_last s < ?n" using ahead rel by (simp add: word_less_nat_alt replay_rel_def)
  ultimately show ?thesis using assms(2) spec
    by (auto simp: spec_validate_def spec_accepts_def word_less_nat_alt max_def split: if_splits)
qed

lemma refines_inside:
  assumes rel: "replay_rel f s" and mark: "counter < REJECT_AFTER_MESSAGES" "counter \<le> rf_last f"
      "rf_last f - counter \<le> COUNTER_WINDOW"
    and run: "ReplayFilter_validate f counter = (b, f')" and spec: "spec_validate s (unat counter) = (b', s')"
  shows "b = b' \<and> replay_rel f' s'"
proof -
  let ?n = "unat counter"
  have "unat (rf_last f) = rs_last s" using rel by (simp add: replay_rel_def)
  then have n: "?n \<le> rs_last s" "rs_last s - ?n \<le> 8128"
    using mark by (auto simp: word_le_nat_alt unat_sub)
  then have "in_ring (rs_last s) ?n" by (intro in_ring_window) auto
  moreover have "ReplayFilter_mark f counter = (b, f')"
    using run mark by (auto simp: ReplayFilter_validate_def split: if_splits)
  ultimately have "b \<longleftrightarrow> ?n \<notin> rs_seen s"
    and "replay_rel f' \<lparr>rs_last = rs_last s, rs_seen = insert ?n (rs_seen s)\<rparr>"
    using rel n validate_mark [of f "rs_last s" "rs_seen s" counter b f']
    by (auto simp: replay_rel_def)
  then show ?thesis using n mark(1) spec
    by (cases s; cases "?n \<in> rs_seen s")
      (auto simp: spec_validate_def spec_accepts_def word_less_nat_alt insert_absorb split: if_splits)
qed

lemma validate_refines:
  assumes rel: "replay_rel f s" and run: "ReplayFilter_validate f counter = (b, f')"
    and spec: "spec_validate s (unat counter) = (b', s')"
  shows "b = b' \<and> replay_rel f' s'"
proof -
  consider (reject) "REJECT_AFTER_MESSAGES \<le> counter"
    | (advance) "counter < REJECT_AFTER_MESSAGES" "rf_last f < counter"
    | (old) "counter < REJECT_AFTER_MESSAGES" "counter \<le> rf_last f" "COUNTER_WINDOW < rf_last f - counter"
    | (mark) "counter < REJECT_AFTER_MESSAGES" "counter \<le> rf_last f" "rf_last f - counter \<le> COUNTER_WINDOW"
    by force
  then show ?thesis
  proof cases
    case reject
    then show ?thesis using rel run spec
      by (auto simp: ReplayFilter_validate_def spec_validate_def spec_accepts_def word_le_nat_alt)
  next
    case advance
    then show ?thesis using refines_ahead [OF rel _ _ run spec] by blast
  next
    case old
    then have "8128 < rs_last s - unat counter"
      using rel by (simp add: word_less_nat_alt unat_sub replay_rel_def)
    then have "\<not> spec_accepts s (unat counter)" by (auto simp: spec_accepts_def)
    then show ?thesis using rel run spec old
      by (auto simp: ReplayFilter_validate_def spec_validate_def split: if_splits)
  next
    case mark
    then show ?thesis using refines_inside [OF rel _ _ _ run spec] by blast
  qed
qed

section \<open>Runs of a filter\<close>

text \<open>The verdicts on a sequence of counters, and the counters that were let through.\<close>

primrec verdicts :: "('s \<Rightarrow> 'c \<Rightarrow> bool \<times> 's) \<Rightarrow> 's \<Rightarrow> 'c list \<Rightarrow> bool list" where
  "verdicts step f [] = []"
| "verdicts step f (c # cs) = (let (b, f') = step f c in b # verdicts step f' cs)"

primrec accepted :: "('s \<Rightarrow> 'c \<Rightarrow> bool \<times> 's) \<Rightarrow> 's \<Rightarrow> 'c list \<Rightarrow> 'c list" where
  "accepted step f [] = []"
| "accepted step f (c # cs) =
     (let (b, f') = step f c in if b then c # accepted step f' cs else accepted step f' cs)"

lemma spec_accepted_fresh:
  "set (accepted spec_validate s cs) \<inter> rs_seen s = {} \<and> distinct (accepted spec_validate s cs)"
proof (induction cs arbitrary: s)
  case Nil
  then show ?case by simp
next
  case (Cons c cs)
  show ?case
    using Cons.IH [of s] Cons.IH [of "\<lparr>rs_last = max (rs_last s) c, rs_seen = insert c (rs_seen s)\<rparr>"]
    by (auto simp: spec_validate_def spec_accepts_def)
qed

lemma spec_increasing_accepted:
  assumes "sorted_wrt (<) cs" and "\<forall>c \<in> set cs. c < 2 ^ 64 - 2 ^ 13 - 1"
    and "\<forall>c \<in> set cs. rs_last s \<le> c \<and> c \<notin> rs_seen s"
  shows "accepted spec_validate s cs = cs"
  using assms
proof (induction cs arbitrary: s)
  case Nil
  then show ?case by simp
next
  case (Cons c cs)
  let ?s = "\<lparr>rs_last = max (rs_last s) c, rs_seen = insert c (rs_seen s)\<rparr>"
  have "accepted spec_validate ?s cs = cs"
    using Cons.prems by (intro Cons.IH) auto
  moreover have "spec_validate s c = (True, ?s)"
    using Cons.prems by (auto simp: spec_validate_def spec_accepts_def)
  ultimately show ?case by simp
qed

text \<open>
  The contract of an anti-replay filter: its verdicts are those of the specification.
  \<open>num\<close> reads a counter as a number.
\<close>

locale anti_replay =
  fixes new :: "'s" and step :: "'s \<Rightarrow> 'c \<Rightarrow> bool \<times> 's" and num :: "'c \<Rightarrow> nat"
    and rel :: "'s \<Rightarrow> replay_spec \<Rightarrow> bool"
  assumes new_rel: "rel new spec_new"
    and step_rel: "rel f s \<Longrightarrow> step f c = (b, f') \<Longrightarrow> spec_validate s (num c) = (b', s') \<Longrightarrow>
       b = b' \<and> rel f' s'"
begin

lemma verdicts_rel: "rel f s \<Longrightarrow> verdicts step f cs = verdicts spec_validate s (map num cs)"
proof (induction cs arbitrary: f s)
  case Nil
  then show ?case by simp
next
  case (Cons c cs)
  obtain b f' where c: "step f c = (b, f')" by fastforce
  obtain b' s' where a: "spec_validate s (num c) = (b', s')" by fastforce
  have "b = b'" and "rel f' s'" using step_rel [OF Cons.prems c a] by simp_all
  then show ?case using Cons.IH [of f' s'] by (simp add: c a)
qed

lemma accepted_rel: "rel f s \<Longrightarrow> map num (accepted step f cs) = accepted spec_validate s (map num cs)"
proof (induction cs arbitrary: f s)
  case Nil
  then show ?case by simp
next
  case (Cons c cs)
  obtain b f' where c: "step f c = (b, f')" by fastforce
  obtain b' s' where a: "spec_validate s (num c) = (b', s')" by fastforce
  have "b = b'" and "rel f' s'" using step_rel [OF Cons.prems c a] by simp_all
  then show ?case using Cons.IH [of f' s'] by (simp add: c a)
qed

lemma accepted_distinct: "rel f s \<Longrightarrow> distinct (map num (accepted step f cs))"
  using spec_accepted_fresh [of s "map num cs"] by (simp add: accepted_rel)

lemma step_seen: "rel f s \<Longrightarrow> num c \<in> rs_seen s \<Longrightarrow> step f c = (b, f') \<Longrightarrow> \<not> b"
  using step_rel [of f s c b f' False s] by (simp add: spec_validate_def spec_accepts_def)

end

interpretation rf: anti_replay ReplayFilter_new ReplayFilter_validate unat replay_rel
  by unfold_locales (fact replay_rel_new, rule validate_refines)

section \<open>Properties\<close>

text \<open>
  C4: For every sequence of received counters, the ring implementation gives exactly the
  verdicts of the specification: a counter passes if and only if it is below
  Reject-After-Messages, at most 8128 behind the largest counter passed, and has not passed
  before.
\<close>

theorem replay_filter_refines:
  "verdicts ReplayFilter_validate ReplayFilter_new cs = verdicts spec_validate spec_new (map unat cs)"
  by (rule rf.verdicts_rel) (rule rf.new_rel)

text \<open>
  C38: No counter is accepted twice, whatever the order in which counters arrive and however
  they are repeated.
\<close>

theorem replay_filter_accepts_once: "distinct (accepted ReplayFilter_validate ReplayFilter_new cs)"
  using rf.accepted_distinct [OF rf.new_rel, of cs] by (simp add: distinct_map)

text \<open>In-order traffic is never dropped: strictly increasing counters below the limit all pass, however large the gaps.\<close>

lemma replay_filter_accepts_increasing:
  assumes "sorted_wrt (<) cs" and "\<forall>c \<in> set cs. c < REJECT_AFTER_MESSAGES"
  shows "accepted ReplayFilter_validate ReplayFilter_new cs = cs"
proof -
  have "accepted spec_validate spec_new (map unat cs) = map unat cs"
    using assms by (intro spec_increasing_accepted)
      (auto simp: sorted_wrt_map word_less_nat_alt spec_new_def elim: sorted_wrt_mono_rel [rotated])
  then have "map unat (accepted ReplayFilter_validate ReplayFilter_new cs) = map unat cs"
    by (simp add: rf.accepted_rel [OF rf.new_rel])
  then show ?thesis by (simp add: inj_map_eq_map word_unat_eq_iff inj_def)
qed

end
