(* ===== verification/Transport.thy ===== *)
theory Transport
  imports Replay Example_Crypto
begin

text \<open>
  The session keys of \<open>protocol/src/transport.rs\<close> (\<open>struct Transport\<close>): encryption of outbound
  and decryption of inbound transport data messages. The replay filter of the same file is in
  \<^theory_text>\<open>Replay\<close>.
\<close>

section \<open>State and operations\<close>

datatype TransportError = TrInvalidPacket | TrBufferTooSmall nat | TrCounterExhausted

record Transport =
  t_our_index :: u32
  t_peer_index :: u32
  t_recv_aead :: AeadKey
  t_send_aead :: AeadKey
  t_send_counter :: u64

definition Transport_new :: "u32 \<Rightarrow> u32 \<Rightarrow> AeadKey \<Rightarrow> AeadKey \<Rightarrow> Transport" where
  "Transport_new our_index peer_index recv_aead send_aead =
     \<lparr>t_our_index = our_index, t_peer_index = peer_index, t_recv_aead = recv_aead,
      t_send_aead = send_aead, t_send_counter = 0\<rparr>"

definition Transport_rekey_due :: "Transport \<Rightarrow> bool" where
  "Transport_rekey_due t \<longleftrightarrow> REKEY_AFTER_MESSAGES \<le> t_send_counter t"

text \<open>\<open>Transport::send\<close>: the result, the keys after, and the output buffer after.\<close>

definition Transport_send ::
  "crypto \<Rightarrow> Transport \<Rightarrow> bytes \<Rightarrow> bytes \<Rightarrow> ((TransportError + nat) \<times> Transport \<times> bytes) option" where
  "Transport_send C t payload buf =
     (let len = packet_len (length payload) in
      if length buf < len then Some (Inl (TrBufferTooSmall len), t, buf)
      else if REJECT_AFTER_MESSAGES \<le> t_send_counter t then Some (Inl TrCounterExhausted, t, buf)
      else do {
        let counter = t_send_counter t;
        let t' = t\<lparr>t_send_counter := counter + 1\<rparr>;
        b \<leftarrow> copy_into (take len buf) 0 1 [type_byte MT_Data];
        b \<leftarrow> copy_into b 1 4 (replicate 3 0);
        b \<leftarrow> set_field b DATA_RECEIVER (le_bytes (t_peer_index t));
        b \<leftarrow> set_field b DATA_COUNTER (le_bytes counter);
        b \<leftarrow> copy_into b DATA_PAYLOAD_OFFSET (DATA_PAYLOAD_OFFSET + length payload) payload;
        tail \<leftarrow> subslice b DATA_PAYLOAD_OFFSET (length b);
        sealed \<leftarrow> aead_seal C (t_send_aead t) counter [] tail;
        b \<leftarrow> copy_into b DATA_PAYLOAD_OFFSET (length b) sealed;
        Some (Inr len, t', b @ drop len buf)
      })"

text \<open>\<open>Transport::receive\<close>: the counter and the plaintext length, and the packet buffer after.\<close>

definition Transport_receive ::
  "crypto \<Rightarrow> Transport \<Rightarrow> bytes \<Rightarrow> ((TransportError + u64 \<times> nat) \<times> bytes) option" where
  "Transport_receive C t packet =
     (if length packet < packet_len 0 then Some (Inl TrInvalidPacket, packet) else do {
        b0 \<leftarrow> index_at packet 0;
        reserved \<leftarrow> subslice packet 1 4;
        if MessageType_try_from b0 \<noteq> Inr MT_Data \<or> reserved \<noteq> replicate 3 0
        then Some (Inl TrInvalidPacket, packet)
        else do {
          r \<leftarrow> field packet DATA_RECEIVER;
          if of_le_bytes r \<noteq> t_our_index t then Some (Inl TrInvalidPacket, packet) else do {
            c \<leftarrow> field packet DATA_COUNTER;
            let counter = of_le_bytes c;
            (ok, packet) \<leftarrow> aead_open_within C (t_recv_aead t) counter [] packet DATA_PAYLOAD_OFFSET;
            if \<not> ok then Some (Inl TrInvalidPacket, packet)
            else Some (Inr (counter, length packet - DATA_PAYLOAD_OFFSET - AEAD_TAG_SIZE), packet)
          }
        }
      })"

definition Transport_ok :: "Transport \<Rightarrow> bool" where
  "Transport_ok t \<longleftrightarrow> length (t_recv_aead t) = 32 \<and> length (t_send_aead t) = 32"

section \<open>What is sent\<close>

text \<open>The packet for a payload: header fields, then the sealed payload.\<close>

definition data_packet :: "crypto \<Rightarrow> Transport \<Rightarrow> bytes \<Rightarrow> bytes" where
  "data_packet C t payload =
     [type_byte MT_Data, 0, 0, 0] @ le_bytes (t_peer_index t) @ le_bytes (t_send_counter t) @
     seal_out C (t_send_aead t) (t_send_counter t) [] (payload @ replicate 16 0)"

lemma length_data_packet:
  assumes "crypto_ok C" and "Transport_ok t" and "length payload < AEAD_P_MAX"
  shows "length (data_packet C t payload) = packet_len (length payload)"
  using assms by (simp add: data_packet_def aead_seal_total(2) Transport_ok_def)

text \<open>The header as \<open>send\<close> writes it, field by field.\<close>

lemma header_patches:
  assumes "16 \<le> length b" and "length idx = 4" and "length ctr = 8"
  shows "take 16 (patch (patch (patch (patch b 0 [t]) (Suc 0) (replicate 3 0)) 4 idx) 8 ctr) = [t, 0, 0, 0] @ idx @ (ctr :: bytes)"
proof -
  have "take 1 (patch b 0 [t]) = [] @ [t]" using assms by (intro take_patch_next) simp_all
  then have "take 4 (patch (patch b 0 [t]) (Suc 0) (replicate 3 0)) = ([] @ [t]) @ replicate 3 0"
    using assms by (intro take_patch_next) simp_all
  then have "take 8 (patch (patch (patch b 0 [t]) (Suc 0) (replicate 3 0)) 4 idx) = (([] @ [t]) @ replicate 3 0) @ idx"
    using assms by (intro take_patch_next) simp_all
  then have "take 16 (patch (patch (patch (patch b 0 [t]) (Suc 0) (replicate 3 0)) 4 idx) 8 ctr) =
      ((([] @ [t]) @ replicate 3 0) @ idx) @ ctr"
    using assms by (intro take_patch_next) simp_all
  then show ?thesis by (simp add: numeral_3_eq_3)
qed

lemma Transport_send_ok:
  assumes C: "crypto_ok C" and t: "Transport_ok t" and p: "length payload < AEAD_P_MAX"
    and buf: "packet_len (length payload) \<le> length buf"
    and ctr: "t_send_counter t < REJECT_AFTER_MESSAGES"
  shows "Transport_send C t payload buf =
    Some (Inr (packet_len (length payload)), t\<lparr>t_send_counter := t_send_counter t + 1\<rparr>,
      data_packet C t payload @ drop (packet_len (length payload)) buf)"
proof -
  let ?n = "length payload" and ?ctr = "t_send_counter t"
  define b0 where "b0 = take (32 + ?n) buf"
  define b4 where "b4 = patch (patch (patch (patch b0 0 [type_byte MT_Data]) (Suc 0) (replicate 3 0)) 4
    (le_bytes (t_peer_index t))) 8 (le_bytes ?ctr)"
  define b5 where "b5 = patch b4 16 payload"
  have len: "length b0 = 32 + ?n" "length b4 = 32 + ?n" "length b5 = 32 + ?n"
    using buf by (simp_all add: b0_def b4_def b5_def)
  have hdr: "take 16 b4 = [type_byte MT_Data, 0, 0, 0] @ le_bytes (t_peer_index t) @ le_bytes ?ctr"
    unfolding b4_def by (rule header_patches) (simp_all add: len)
  have tail: "take ?n (sub b5 16 (32 + ?n)) = payload"
    unfolding b5_def using len by (simp add: sub_def patch_def)
  have seal: "aead_seal C (t_send_aead t) ?ctr [] (sub b5 16 (32 + ?n)) =
      Some (seal_out C (t_send_aead t) ?ctr [] (payload @ replicate 16 0))"
    using C t p len tail
    by (subst aead_seal_total(1)) (auto simp: Transport_ok_def intro!: seal_out_cong)
  have "take 16 b5 = take 16 b4" unfolding b5_def using len by (simp add: take_patch)
  moreover have "length (seal_out C (t_send_aead t) ?ctr [] (payload @ replicate 16 0)) = 16 + ?n"
    using C t p by (simp add: aead_seal_total(2) Transport_ok_def)
  ultimately have out: "copy_into b5 16 (32 + ?n)
      (seal_out C (t_send_aead t) ?ctr [] (payload @ replicate 16 0)) = Some (data_packet C t payload)"
    using len hdr by (simp add: copy_into_def patch_def data_packet_def)
  show ?thesis
    using buf ctr len seal out
    by (simp add: Transport_send_def Let_def buf_simps not_le b0_def [symmetric] b4_def [symmetric] b5_def [symmetric]
        del: type_byte.simps)
qed

text \<open>Every outcome of \<open>send\<close>: it never panics, and it touches counter and buffer only on success.\<close>

lemma Transport_send_cases:
  assumes "crypto_ok C" and "Transport_ok t" and "length payload < AEAD_P_MAX"
  shows "Transport_send C t payload buf = Some
    (if length buf < packet_len (length payload)
     then (Inl (TrBufferTooSmall (packet_len (length payload))), t, buf)
     else if REJECT_AFTER_MESSAGES \<le> t_send_counter t then (Inl TrCounterExhausted, t, buf)
     else (Inr (packet_len (length payload)), t\<lparr>t_send_counter := t_send_counter t + 1\<rparr>,
       data_packet C t payload @ drop (packet_len (length payload)) buf))"
proof -
  consider (small) "length buf < packet_len (length payload)"
    | (used) "packet_len (length payload) \<le> length buf" "REJECT_AFTER_MESSAGES \<le> t_send_counter t"
    | (ok) "packet_len (length payload) \<le> length buf" "t_send_counter t < REJECT_AFTER_MESSAGES"
    by (meson not_le)
  then show ?thesis
    by cases (simp_all add: Transport_send_ok [OF assms] not_le, simp_all add: Transport_send_def)
qed

section \<open>What is received\<close>

lemma Transport_receive_short:
  "length packet < 32 \<Longrightarrow> Transport_receive C t packet = Some (Inl TrInvalidPacket, packet)"
  by (simp add: Transport_receive_def)

lemma Transport_receive_eq:
  assumes "32 \<le> length packet"
  shows "Transport_receive C t packet =
    (if packet ! 0 \<noteq> type_byte MT_Data \<or> sub packet 1 4 \<noteq> replicate 3 0 \<or>
        of_le_bytes (sub packet 4 8) \<noteq> t_our_index t
     then Some (Inl TrInvalidPacket, packet)
     else case aead_open_within C (t_recv_aead t) (of_le_bytes (sub packet 8 16)) [] packet 16 of
       None \<Rightarrow> None
     | Some (ok, p) \<Rightarrow>
         Some (if ok then Inr (of_le_bytes (sub packet 8 16), length p - 32) else Inl TrInvalidPacket, p))"
proof -
  have "packet \<noteq> []" using assms by auto
  then show ?thesis using assms
    by (simp add: Transport_receive_def buf_simps MessageType_try_from_Inr split: option.split)
qed

lemma Transport_receive_total:
  assumes "crypto_ok C"
  shows "\<exists>r p. Transport_receive C t packet = Some (r, p) \<and> length p = length packet"
proof (cases "length packet < 32")
  case True
  then show ?thesis by (simp add: Transport_receive_short)
next
  case False
  obtain ok p where "aead_open_within C (t_recv_aead t) (of_le_bytes (sub packet 8 16)) [] packet 16 =
      Some (ok, p)" "length p = length packet"
    using aead_open_within_total [OF assms] by blast
  then show ?thesis using False by (simp add: Transport_receive_eq)
qed

text \<open>A packet is accepted only if it is addressed to this session and its tag is valid.\<close>

lemma Transport_receive_Inr:
  assumes "Transport_receive C t packet = Some (Inr (counter, n), p)"
  shows "32 \<le> length packet \<and> packet ! 0 = type_byte MT_Data \<and> sub packet 1 4 = replicate 3 0 \<and>
    of_le_bytes (sub packet 4 8) = t_our_index t \<and> counter = of_le_bytes (sub packet 8 16) \<and>
    aead_open_within C (t_recv_aead t) counter [] packet 16 = Some (True, p) \<and> n = length p - 32"
proof (cases "length packet < 32")
  case True
  then show ?thesis using assms by (simp add: Transport_receive_short)
next
  case False
  then show ?thesis using assms
    by (simp add: Transport_receive_eq split: if_splits option.splits prod.splits)
qed

lemma data_packet_fields:
  assumes "crypto_ok C" and "Transport_ok t" and "length payload < AEAD_P_MAX"
  shows "data_packet C t payload ! 0 = type_byte MT_Data"
    and "sub (data_packet C t payload) 1 4 = replicate 3 0"
    and "sub (data_packet C t payload) 4 8 = le_bytes (t_peer_index t)"
    and "sub (data_packet C t payload) 8 16 = le_bytes (t_send_counter t)"
    and "drop 16 (data_packet C t payload) =
      seal_out C (t_send_aead t) (t_send_counter t) [] (payload @ replicate 16 0)"
  by (simp_all add: data_packet_def sub_def numeral_3_eq_3)

lemma Transport_receive_data_packet:
  assumes C: "crypto_ok C" and t: "Transport_ok t" and p: "length payload < AEAD_P_MAX"
    and idx: "t_our_index r = t_peer_index t" and key: "t_recv_aead r = t_send_aead t"
  shows "\<exists>buf. Transport_receive C r (data_packet C t payload) =
      Some (Inr (t_send_counter t, length payload), buf) \<and> take (length payload) buf = payload \<and>
      length buf = packet_len (length payload)"
proof -
  let ?pkt = "data_packet C t payload"
  have len: "length ?pkt = 32 + length payload" using length_data_packet [OF C t p] by simp
  then have "?pkt \<noteq> []" by auto
  obtain buf where buf: "aead_open_within C (t_send_aead t) (t_send_counter t) [] ?pkt 16 = Some (True, buf)"
    "length buf = length ?pkt" "take (length payload) buf = payload"
    using aead_open_within_seal [OF C, of "t_send_aead t" "payload @ replicate 16 0" ?pkt 16
        "t_send_counter t" "[]"] data_packet_fields(5) [OF C t p] t p len
    by (auto simp: Transport_ok_def)
  show ?thesis
    using len buf idx key \<open>?pkt \<noteq> []\<close> data_packet_fields(1-4) [OF C t p]
    by (simp add: Transport_receive_eq)
qed

text \<open>The parser of the receiving side sees a data message for the peer's index.\<close>

lemma data_packet_header:
  assumes "crypto_ok C" and "Transport_ok t" and "length payload < AEAD_P_MAX"
  shows "MessageHeader_try_from (data_packet C t payload) = Some (Inr (Data (t_peer_index t)))"
  using data_packet_fields [OF assms] length_data_packet [OF assms]
  by (subst MessageHeader_try_from_Inr) (auto intro!: exI [of _ MT_Data])

section \<open>Runs of sends\<close>

text \<open>
  A run of \<open>send\<close> calls on the same session, each with its payload and output buffer; the
  packets of the calls that succeed, in order.
\<close>

fun send_all :: "crypto \<Rightarrow> Transport \<Rightarrow> (bytes \<times> bytes) list \<Rightarrow> (bytes list \<times> Transport) option" where
  "send_all C t [] = Some ([], t)"
| "send_all C t ((payload, buf) # jobs) = do {
     (r, t, out) \<leftarrow> Transport_send C t payload buf;
     (packets, t) \<leftarrow> send_all C t jobs;
     Some (case r of Inl _ \<Rightarrow> packets | Inr n \<Rightarrow> take n out # packets, t)
   }"

text \<open>The counter a data message carries.\<close>

definition packet_counter :: "bytes \<Rightarrow> u64" where
  "packet_counter packet = of_le_bytes (sub packet 8 16)"

lemma packet_counter_data_packet:
  assumes "crypto_ok C" and "Transport_ok t" and "length payload < AEAD_P_MAX"
  shows "packet_counter (data_packet C t payload) = t_send_counter t"
  using data_packet_fields(4) [OF assms] by (simp add: packet_counter_def)

lemma counter_succ:
  "c < REJECT_AFTER_MESSAGES \<Longrightarrow> unat (c + 1) = Suc (unat c)"
  "c < REJECT_AFTER_MESSAGES \<Longrightarrow> c + 1 \<le> REJECT_AFTER_MESSAGES"
proof -
  assume "c < REJECT_AFTER_MESSAGES"
  then have "1 + c \<noteq> 0"
    by (metis add.commute eq_neg_iff_add_eq_0 word_order.extremum_strict)
  then show "unat (c + 1) = Suc (unat c)" using unatSuc [of c] by (simp add: add.commute)
  show "c + 1 \<le> REJECT_AFTER_MESSAGES"
    using \<open>c < REJECT_AFTER_MESSAGES\<close> by (simp add: inc_le)
qed

text \<open>
  The counters of a run are consecutive numbers from the session's counter, all below the
  limit.
\<close>

lemma send_all_counters:
  assumes C: "crypto_ok C"
  shows "Transport_ok t \<Longrightarrow> \<forall>(p, b) \<in> set jobs. length p < AEAD_P_MAX \<Longrightarrow>
    t_send_counter t \<le> REJECT_AFTER_MESSAGES \<Longrightarrow>
    \<exists>packets t'. send_all C t jobs = Some (packets, t') \<and>
      map (\<lambda>p. unat (packet_counter p)) packets = [unat (t_send_counter t)..<unat (t_send_counter t')] \<and>
      t_send_counter t \<le> t_send_counter t' \<and> t_send_counter t' \<le> REJECT_AFTER_MESSAGES \<and>
      t' = t\<lparr>t_send_counter := t_send_counter t'\<rparr>"
proof (induction jobs arbitrary: t)
  case Nil
  then show ?case by simp
next
  case (Cons job jobs)
  obtain payload buf where job: "job = (payload, buf)" by fastforce
  have p: "length payload < AEAD_P_MAX" using Cons.prems(2) job by auto
  show ?case
  proof (cases "packet_len (length payload) \<le> length buf \<and> t_send_counter t < REJECT_AFTER_MESSAGES")
    case False
    then obtain e where "Transport_send C t payload buf = Some (Inl e, t, buf)"
      using Transport_send_cases [OF C Cons.prems(1) p, of buf] by (auto simp: not_le not_less split: if_splits)
    moreover obtain packets t' where "send_all C t jobs = Some (packets, t')"
      "map (\<lambda>p. unat (packet_counter p)) packets = [unat (t_send_counter t)..<unat (t_send_counter t')]"
      "t_send_counter t \<le> t_send_counter t'" "t_send_counter t' \<le> REJECT_AFTER_MESSAGES"
      "t' = t\<lparr>t_send_counter := t_send_counter t'\<rparr>"
      using Cons.IH [of t] Cons.prems by auto
    ultimately show ?thesis using job by simp
  next
    case True
    let ?t = "t\<lparr>t_send_counter := t_send_counter t + 1\<rparr>"
    have send: "Transport_send C t payload buf = Some (Inr (packet_len (length payload)), ?t,
        data_packet C t payload @ drop (packet_len (length payload)) buf)"
      using Transport_send_ok [OF C Cons.prems(1) p] True by blast
    obtain packets t' where run: "send_all C ?t jobs = Some (packets, t')"
      "map (\<lambda>p. unat (packet_counter p)) packets = [Suc (unat (t_send_counter t))..<unat (t_send_counter t')]"
      "t_send_counter t + 1 \<le> t_send_counter t'" "t_send_counter t' \<le> REJECT_AFTER_MESSAGES"
      "t' = t\<lparr>t_send_counter := t_send_counter t'\<rparr>"
      using Cons.IH [of ?t] Cons.prems counter_succ True by (auto simp: Transport_ok_def)
    have lt: "unat (t_send_counter t) < unat (t_send_counter t')"
      using run(3) counter_succ(1) [of "t_send_counter t"] True by (simp add: word_le_nat_alt)
    have "send_all C t (job # jobs) = Some (data_packet C t payload # packets, t')"
      using send run(1) job length_data_packet [OF C Cons.prems(1) p] by simp
    then show ?thesis
      using run lt packet_counter_data_packet [OF C Cons.prems(1) p]
      by (auto simp: upt_conv_Cons word_le_nat_alt word_less_nat_alt)
  qed
qed

section \<open>Properties\<close>

text \<open>
  C35: a payload that \<open>Transport::send\<close> encrypts is recovered by \<open>Transport::receive\<close> on the other
  end of the session. The packet is a data message for the receiver's index, the receiver gets
  the sender's counter, and the plaintext is at the beginning of the receiver's buffer.
\<close>

theorem transport_round_trip:
  assumes "crypto_ok C" and "Transport_ok t" and "length payload < AEAD_P_MAX"
    and "packet_len (length payload) \<le> length buf" and "t_send_counter t < REJECT_AFTER_MESSAGES"
    and "t_our_index r = t_peer_index t" and "t_recv_aead r = t_send_aead t"
  shows "\<exists>packet p.
    Transport_send C t payload buf = Some (Inr (length packet),
      t\<lparr>t_send_counter := t_send_counter t + 1\<rparr>, packet @ drop (length packet) buf) \<and>
    length packet = packet_len (length payload) \<and>
    MessageHeader_try_from packet = Some (Inr (Data (t_our_index r))) \<and>
    Transport_receive C r packet = Some (Inr (t_send_counter t, length payload), p) \<and>
    take (length payload) p = payload"
proof -
  obtain p where "Transport_receive C r (data_packet C t payload) =
      Some (Inr (t_send_counter t, length payload), p)" "take (length payload) p = payload"
    using Transport_receive_data_packet [OF assms(1-3,6,7)] by blast
  then show ?thesis
    using Transport_send_ok [OF assms(1-5)] data_packet_header [OF assms(1-3)]
      length_data_packet [OF assms(1-3)] assms(6)
    by (intro exI [of _ "data_packet C t payload"] exI [of _ p]) simp
qed

theorem transport_round_trip_witness:
  "\<exists>packet p.
    Transport_send ex_crypto (Transport_new 7 9 (ex_key 1) (ex_key 2)) (replicate 3 5) (replicate 40 0) =
      Some (Inr (length packet), Transport_new 7 9 (ex_key 1) (ex_key 2)\<lparr>t_send_counter := 1\<rparr>,
        packet @ drop (length packet) (replicate 40 0)) \<and>
    length packet = packet_len 3 \<and>
    MessageHeader_try_from packet = Some (Inr (Data 9)) \<and>
    Transport_receive ex_crypto (Transport_new 9 7 (ex_key 2) (ex_key 1)) packet = Some (Inr (0, 3), p) \<and>
    take 3 p = replicate 3 5"
  using transport_round_trip [of ex_crypto "Transport_new 7 9 (ex_key 1) (ex_key 2)" "replicate 3 5"
      "replicate 40 0" "Transport_new 9 7 (ex_key 2) (ex_key 1)"]
  by (simp add: Transport_new_def Transport_ok_def AEAD_P_MAX_def word_less_nat_alt)

text \<open>
  C3: a session never encrypts two messages under the same nonce. In any run of \<open>send\<close> calls on a
  fresh session, whatever payloads and buffers it is given and however many calls fail, no call
  panics, the packets carry the counters 0, 1, 2, ... without gap or repetition, and there are at
  most \<open>REJECT_AFTER_MESSAGES\<close> of them.
\<close>

theorem transport_nonces_unique:
  assumes "crypto_ok C" and "length recv_key = 32" and "length send_key = 32"
    and "\<forall>(payload, buf) \<in> set jobs. length payload < AEAD_P_MAX"
  shows "\<exists>packets t. send_all C (Transport_new our peer recv_key send_key) jobs = Some (packets, t) \<and>
    map (\<lambda>p. unat (packet_counter p)) packets = [0..<length packets] \<and>
    distinct (map packet_counter packets) \<and> length packets \<le> unat REJECT_AFTER_MESSAGES"
proof -
  let ?t = "Transport_new our peer recv_key send_key"
  obtain packets t where run: "send_all C ?t jobs = Some (packets, t)"
    and c: "map (\<lambda>p. unat (packet_counter p)) packets = [0..<unat (t_send_counter t)]"
    and le: "t_send_counter t \<le> REJECT_AFTER_MESSAGES"
    using send_all_counters [OF assms(1) _ assms(4), of ?t] assms(2,3)
    by (auto simp: Transport_new_def Transport_ok_def)
  have len: "length packets = unat (t_send_counter t)" using arg_cong [OF c, of length] by simp
  have "map unat (map packet_counter packets) = [0..<length packets]" using c len by (simp add: comp_def)
  then have "distinct (map packet_counter packets)"
    by (metis distinct_upt distinct_map)
  then show ?thesis using run c len le by (auto simp: word_le_nat_alt)
qed

theorem transport_nonces_unique_witness:
  "\<exists>packets t. send_all ex_crypto (Transport_new 7 9 (ex_key 1) (ex_key 2))
      [([1], replicate 40 0), ([2, 3], []), ([4], replicate 33 0)] = Some (packets, t) \<and>
    distinct (map packet_counter packets)"
  using transport_nonces_unique [of ex_crypto "ex_key 1" "ex_key 2"
      "[([1], replicate 40 0), ([2, 3], []), ([4], replicate 33 0)]" 7 9]
  by (auto simp: AEAD_P_MAX_def)

text \<open>
  C8: \<open>Transport::receive\<close> is safe on every input. It never panics and keeps the buffer's length;
  it reports a payload only for a data message addressed to the session's index whose ciphertext
  passed the AEAD tag check under the receive key and the counter in the packet, and the reported
  range then holds the plaintext.
\<close>

theorem transport_receive_sound:
  assumes "crypto_ok C"
  shows "\<exists>r p. Transport_receive C t packet = Some (r, p) \<and> length p = length packet \<and>
    (\<forall>counter n. r = Inr (counter, n) \<longrightarrow>
       length packet = packet_len n \<and> counter = packet_counter packet \<and>
       MessageHeader_try_from packet = Some (Inr (Data (t_our_index t))) \<and>
       chacha_decrypt C (t_recv_aead t) (aead_nonce counter) [] (sub packet 16 (16 + n))
         (sub packet (16 + n) (32 + n)) = (True, take n p))"
proof -
  obtain r p where rp: "Transport_receive C t packet = Some (r, p)" "length p = length packet"
    using Transport_receive_total [OF assms] by blast
  moreover have "length packet = packet_len n \<and> counter = packet_counter packet \<and>
       MessageHeader_try_from packet = Some (Inr (Data (t_our_index t))) \<and>
       chacha_decrypt C (t_recv_aead t) (aead_nonce counter) [] (sub packet 16 (16 + n))
         (sub packet (16 + n) (32 + n)) = (True, take n p)" if "r = Inr (counter, n)" for counter n
  proof -
    have acc: "32 \<le> length packet" "packet ! 0 = type_byte MT_Data" "sub packet 1 4 = replicate 3 0"
      "of_le_bytes (sub packet 4 8) = t_our_index t" "counter = of_le_bytes (sub packet 8 16)"
      "aead_open_within C (t_recv_aead t) counter [] packet 16 = Some (True, p)" "n = length p - 32"
      using Transport_receive_Inr [of C t packet counter n p] rp that by auto
    have len: "length packet = 32 + n" using acc rp by simp
    then have "MessageHeader_try_from packet = Some (Inr (Data (t_our_index t)))"
      using acc by (subst MessageHeader_try_from_Inr) (auto intro!: exI [of _ MT_Data])
    then show ?thesis
      using acc len aead_open_within_True [OF assms acc(6)] by (simp add: packet_counter_def)
  qed
  ultimately show ?thesis by blast
qed

theorem transport_receive_sound_witness:
  "\<exists>r p. Transport_receive ex_crypto (Transport_new 7 9 (ex_key 1) (ex_key 2)) [4, 0, 0, 0] = Some (r, p) \<and>
    length p = 4"
  using transport_receive_sound [of ex_crypto "Transport_new 7 9 (ex_key 1) (ex_key 2)" "[4, 0, 0, 0]"]
  by auto

end
