(* ===== verification/Session.thy ===== *)
theory Session
  imports Transport Timebase
begin

text \<open>
  A session (\<open>protocol/src/peer/session.rs\<close>): transport keys with the time they were
  established and the replay filter of their receive direction.
\<close>

section \<open>State and operations\<close>

datatype SessionReceiveError = SessInvalid | SessReplay

record Session =
  s_transport :: Transport
  s_established :: Instant
  s_replay :: ReplayFilter

definition Session_new :: "Transport \<Rightarrow> Instant \<Rightarrow> Session" where
  "Session_new transport now =
     \<lparr>s_transport = transport, s_established = now, s_replay = ReplayFilter_new\<rparr>"

definition Session_our_index :: "Session \<Rightarrow> u32" where
  "Session_our_index s = t_our_index (s_transport s)"

definition Session_expired :: "Session \<Rightarrow> Instant \<Rightarrow> bool" where
  "Session_expired s now \<longleftrightarrow> REJECT_AFTER_TIME \<le> duration_since now (s_established s)"

definition Session_rekey_due_to_messages :: "Session \<Rightarrow> bool" where
  "Session_rekey_due_to_messages s = Transport_rekey_due (s_transport s)"

definition Session_send ::
  "crypto \<Rightarrow> Session \<Rightarrow> bytes \<Rightarrow> bytes \<Rightarrow> ((TransportError + nat) \<times> Session \<times> bytes) option" where
  "Session_send C s payload out = do {
     (r, t, out) \<leftarrow> Transport_send C (s_transport s) payload out;
     Some (r, s\<lparr>s_transport := t\<rparr>, out)
   }"

definition Session_receive ::
  "crypto \<Rightarrow> Session \<Rightarrow> bytes \<Rightarrow> ((SessionReceiveError + nat) \<times> Session \<times> bytes) option" where
  "Session_receive C s packet = do {
     (r, packet) \<leftarrow> Transport_receive C (s_transport s) packet;
     case r of
       Inl _ \<Rightarrow> Some (Inl SessInvalid, s, packet)
     | Inr (counter, payload_len) \<Rightarrow>
         let (ok, filter) = ReplayFilter_validate (s_replay s) counter;
             s = s\<lparr>s_replay := filter\<rparr>
         in Some (if ok then Inr payload_len else Inl SessReplay, s, packet)
   }"

section \<open>Invariant\<close>

definition Session_ok :: "Session \<Rightarrow> bool" where
  "Session_ok s \<longleftrightarrow> Transport_ok (s_transport s) \<and> t_send_counter (s_transport s) \<le> REJECT_AFTER_MESSAGES"

lemma Session_ok_new:
  "Transport_ok t \<Longrightarrow> t_send_counter t = 0 \<Longrightarrow> Session_ok (Session_new t now)"
  by (simp add: Session_ok_def Session_new_def)

lemma Session_send_total:
  assumes "crypto_ok C" and "Session_ok s" and "length payload < AEAD_P_MAX"
  shows "\<exists>r s' b. Session_send C s payload out = Some (r, s', b) \<and> Session_ok s' \<and>
    length b = length out \<and> Session_our_index s' = Session_our_index s \<and> s_established s' = s_established s \<and>
    s_replay s' = s_replay s \<and>
    (case r of Inr n \<Rightarrow> n = packet_len (length payload) \<and> n \<le> length out
     | Inl e \<Rightarrow> s' = s \<and> b = out \<and>
         (e = TrCounterExhausted \<or> e = TrBufferTooSmall (packet_len (length payload))))"
proof -
  have t: "Transport_ok (s_transport s)" using assms(2) by (simp add: Session_ok_def)
  show ?thesis
    using Transport_send_cases [OF assms(1) t assms(3), of out] assms(2)
      length_data_packet [OF assms(1) t assms(3)] counter_succ(2)
    by (auto simp: Session_send_def Session_ok_def Session_our_index_def Transport_ok_def not_less not_le)
qed

lemma Session_receive_total:
  assumes "crypto_ok C"
  shows "\<exists>r s' b. Session_receive C s packet = Some (r, s', b) \<and> length b = length packet \<and>
    s_transport s' = s_transport s \<and> s_established s' = s_established s \<and>
    (case r of Inr n \<Rightarrow> n + 32 = length packet | Inl e \<Rightarrow> True)"
proof -
  obtain r p where rp: "Transport_receive C (s_transport s) packet = Some (r, p)" "length p = length packet"
    using Transport_receive_total [OF assms] by blast
  have "n + 32 = length packet" if "r = Inr (c, n)" for c n
    using Transport_receive_Inr [of C "s_transport s" packet c n p] rp that by auto
  then show ?thesis using rp
    by (auto simp: Session_receive_def split: sum.split prod.split)
qed

lemma Session_receive_ok:
  assumes "Session_receive C s packet = Some (r, s', b)" and "Session_ok s"
  shows "Session_ok s'" and "Session_our_index s' = Session_our_index s" and "s_established s' = s_established s"
  using assms by (auto simp: Session_receive_def Session_ok_def Session_our_index_def Let_def
      split: bind_splits sum.splits prod.splits)

section \<open>Runs of a receiving session\<close>

text \<open>
  The payloads a session delivers from a run of packets, each with the counter of its packet.
\<close>

fun deliveries :: "crypto \<Rightarrow> Session \<Rightarrow> bytes list \<Rightarrow> (u64 \<times> bytes) list option" where
  "deliveries C s [] = Some []"
| "deliveries C s (packet # packets) = do {
     (r, s', b) \<leftarrow> Session_receive C s packet;
     rest \<leftarrow> deliveries C s' packets;
     Some (case r of Inl _ \<Rightarrow> rest | Inr n \<Rightarrow> (packet_counter packet, take n b) # rest)
   }"

text \<open>The counters of the packets that pass the transport keys, in order of arrival.\<close>

definition authentic :: "crypto \<Rightarrow> Transport \<Rightarrow> bytes \<Rightarrow> bool" where
  "authentic C t packet \<longleftrightarrow> (\<exists>c n p. Transport_receive C t packet = Some (Inr (c, n), p))"

lemma Session_receive_eq:
  assumes "crypto_ok C"
  shows "\<exists>b n. Session_receive C s packet = Some
    (if authentic C (s_transport s) packet
     then let (ok, filter) = ReplayFilter_validate (s_replay s) (packet_counter packet)
          in (if ok then Inr n else Inl SessReplay, s\<lparr>s_replay := filter\<rparr>, b)
     else (Inl SessInvalid, s, b))"
proof -
  obtain r p where rp: "Transport_receive C (s_transport s) packet = Some (r, p)"
    using Transport_receive_total [OF assms] by blast
  show ?thesis
  proof (cases r)
    case (Inl e)
    then show ?thesis using rp by (simp add: Session_receive_def authentic_def)
  next
    case (Inr cn)
    obtain c n where cn: "cn = (c, n)" by fastforce
    have "c = packet_counter packet"
      using Transport_receive_Inr [of C "s_transport s" packet c n p] rp Inr cn
      by (simp add: packet_counter_def)
    then show ?thesis using rp Inr cn
      by (auto simp: Session_receive_def authentic_def split: prod.split)
  qed
qed

lemma deliveries_accepted:
  assumes C: "crypto_ok C"
  shows "\<exists>ds. deliveries C s packets = Some ds \<and>
    map fst ds = accepted ReplayFilter_validate (s_replay s)
      (map packet_counter (filter (authentic C (s_transport s)) packets))"
proof (induction packets arbitrary: s)
  case Nil
  then show ?case by simp
next
  case (Cons packet packets)
  obtain b n where r: "Session_receive C s packet = Some
    (if authentic C (s_transport s) packet
     then let (ok, filter) = ReplayFilter_validate (s_replay s) (packet_counter packet)
          in (if ok then Inr n else Inl SessReplay, s\<lparr>s_replay := filter\<rparr>, b)
     else (Inl SessInvalid, s, b))"
    using Session_receive_eq [OF C] by blast
  obtain ok f where v: "ReplayFilter_validate (s_replay s) (packet_counter packet) = (ok, f)" by fastforce
  show ?case
    using Cons.IH [of s] Cons.IH [of "s\<lparr>s_replay := f\<rparr>"] r v by (auto split: if_splits)
qed

section \<open>A stream of packets\<close>

fun data_packets :: "crypto \<Rightarrow> Transport \<Rightarrow> bytes list \<Rightarrow> bytes list" where
  "data_packets C t [] = []"
| "data_packets C t (p # ps) =
     data_packet C t p # data_packets C (t\<lparr>t_send_counter := t_send_counter t + 1\<rparr>) ps"

lemma send_all_data_packets:
  assumes C: "crypto_ok C"
  shows "Transport_ok t \<Longrightarrow>
    \<forall>(p, b) \<in> set jobs. length p < AEAD_P_MAX \<and> packet_len (length p) \<le> length b \<Longrightarrow>
    unat (t_send_counter t) + length jobs \<le> unat REJECT_AFTER_MESSAGES \<Longrightarrow>
    \<exists>t'. send_all C t jobs = Some (data_packets C t (map fst jobs), t')"
proof (induction jobs arbitrary: t)
  case Nil
  then show ?case by simp
next
  case (Cons job jobs)
  obtain p b where job: "job = (p, b)" by fastforce
  let ?t = "t\<lparr>t_send_counter := t_send_counter t + 1\<rparr>"
  have p: "length p < AEAD_P_MAX" "packet_len (length p) \<le> length b" using Cons.prems(2) job by auto
  have c: "t_send_counter t < REJECT_AFTER_MESSAGES"
    using Cons.prems(3) by (simp add: word_less_nat_alt del: window_consts)
  have "\<exists>t'. send_all C ?t jobs = Some (data_packets C ?t (map fst jobs), t')"
    using Cons.IH [of ?t] Cons.prems counter_succ(1) [OF c] by (simp add: Transport_ok_def)
  then show ?case
    using Transport_send_ok [OF C Cons.prems(1) p c] job length_data_packet [OF C Cons.prems(1) p(1)]
    by (auto simp del: packet_len_def)
qed

text \<open>The filter passes the next counter of a stream.\<close>

definition below :: "replay_spec \<Rightarrow> nat \<Rightarrow> bool" where
  "below sp n \<longleftrightarrow> rs_last sp \<le> n \<and> (\<forall>x \<in> rs_seen sp. x < n)"

lemma validate_next:
  assumes "replay_rel f sp" and "below sp (unat c)" and "c < REJECT_AFTER_MESSAGES"
  obtains f' sp' where "ReplayFilter_validate f c = (True, f')" "replay_rel f' sp'"
    "below sp' (Suc (unat c))" "unat c \<in> rs_seen sp'"
proof -
  obtain ok f' where v: "ReplayFilter_validate f c = (ok, f')" by fastforce
  let ?sp = "\<lparr>rs_last = max (rs_last sp) (unat c), rs_seen = insert (unat c) (rs_seen sp)\<rparr>"
  have spec: "spec_validate sp (unat c) = (True, ?sp)"
    using assms(2,3) by (auto simp: spec_validate_def spec_accepts_def below_def word_less_nat_alt)
  have "below ?sp (Suc (unat c))" using assms(2) by (auto simp: below_def less_Suc_eq)
  then show thesis using that [of f' ?sp] rf.step_rel [OF assms(1) v spec] v by simp
qed

lemma validate_seen:
  assumes "replay_rel f sp" and "unat c \<in> rs_seen sp"
  shows "fst (ReplayFilter_validate f c) = False"
proof -
  obtain ok f' where v: "ReplayFilter_validate f c = (ok, f')" by fastforce
  have "spec_validate sp (unat c) = (False, sp)" using assms(2) by (simp add: spec_validate_def spec_accepts_def)
  from rf.step_rel [OF assms(1) v this] v show ?thesis by simp
qed

lemma deliveries_data_packets:
  assumes C: "crypto_ok C"
  shows "Transport_ok t \<Longrightarrow> \<forall>p \<in> set ps. length p < AEAD_P_MAX \<Longrightarrow>
    unat (t_send_counter t) + length ps \<le> unat REJECT_AFTER_MESSAGES \<Longrightarrow>
    t_our_index (s_transport s) = t_peer_index t \<Longrightarrow> t_recv_aead (s_transport s) = t_send_aead t \<Longrightarrow>
    replay_rel (s_replay s) sp \<Longrightarrow> below sp (unat (t_send_counter t)) \<Longrightarrow>
    \<exists>ds. deliveries C s (data_packets C t ps) = Some ds \<and> map snd ds = ps"
proof (induction ps arbitrary: t s sp)
  case Nil
  then show ?case by simp
next
  case (Cons p ps)
  let ?t = "t\<lparr>t_send_counter := t_send_counter t + 1\<rparr>"
  have p: "length p < AEAD_P_MAX" using Cons.prems(2) by simp
  have c: "t_send_counter t < REJECT_AFTER_MESSAGES"
    using Cons.prems(3) by (simp add: word_less_nat_alt del: window_consts)
  obtain f' sp' where v: "ReplayFilter_validate (s_replay s) (t_send_counter t) = (True, f')"
    "replay_rel f' sp'" "below sp' (Suc (unat (t_send_counter t)))"
    by (rule validate_next [OF Cons.prems(6,7) c])
  obtain buf where r: "Transport_receive C (s_transport s) (data_packet C t p) =
      Some (Inr (t_send_counter t, length p), buf)" "take (length p) buf = p"
    using Transport_receive_data_packet [OF C Cons.prems(1) p Cons.prems(4,5)] by blast
  have "\<exists>ds. deliveries C (s\<lparr>s_replay := f'\<rparr>) (data_packets C ?t ps) = Some ds \<and> map snd ds = ps"
    using Cons.IH [of ?t "s\<lparr>s_replay := f'\<rparr>" sp'] Cons.prems v(2,3) counter_succ(1) [OF c]
    by (simp add: Transport_ok_def)
  then show ?case using r v(1) by (auto simp: Session_receive_def)
qed

section \<open>Properties\<close>

text \<open>
  C15: a session never delivers the same counter twice. Whatever packets arrive on a session, in
  whatever order and with whatever repetitions, none makes it panic, and the payloads it delivers
  come from packets with pairwise different counters.
\<close>

theorem session_delivers_once:
  assumes "crypto_ok C"
  shows "\<exists>ds. deliveries C (Session_new t now) packets = Some ds \<and> distinct (map fst ds)"
proof -
  obtain ds where "deliveries C (Session_new t now) packets = Some ds"
    "map fst ds = accepted ReplayFilter_validate ReplayFilter_new
      (map packet_counter (filter (authentic C t) packets))"
    using deliveries_accepted [OF assms, of "Session_new t now" packets] by (auto simp: Session_new_def)
  moreover from this have "distinct (map unat (map fst ds))"
    using rf.accepted_distinct [OF rf.new_rel] by metis
  then have "distinct (map fst ds)" by (rule distinct_map [THEN iffD1, THEN conjunct1])
  ultimately show ?thesis by blast
qed

theorem session_delivers_once_witness:
  "\<exists>ds. deliveries ex_crypto (Session_new (Transport_new 7 9 (ex_key 1) (ex_key 2)) (Instant 3))
    [[4, 0, 0, 0], []] = Some ds \<and> distinct (map fst ds)"
  by (rule session_delivers_once [OF ex_crypto_ok])



end
