(* ===== verification/Handshake.thy ===== *)
theory Handshake
  imports Transport Cookies
begin

text \<open>
  The Noise IKpsk2 handshake of \<open>protocol/src/handshake.rs\<close>, from initiation to the transport
  keys. The typestate \<open>Handshake<S>\<close> is one record per state. Keys are their 32 bytes, a secret's
  public key is \<open>x25519_public\<close> of it (\<open>PrivateKey::public_key\<close>, \<open>XPublicKey::from\<close>).
\<close>

section \<open>States\<close>

datatype HandshakeError = HsFailed | HsBufferTooSmall nat

definition INITIAL_CONSTR_HASH :: bytes where
  "INITIAL_CONSTR_HASH =
     [96, 226, 109, 174, 243, 39, 239, 192, 46, 195, 53, 226, 160, 37, 210, 208, 22, 235, 66, 6, 248,
      114, 119, 245, 45, 56, 209, 152, 139, 120, 205, 54]"

definition INITIAL_IDENTIFIER_HASH :: bytes where
  "INITIAL_IDENTIFIER_HASH =
     [34, 17, 179, 97, 8, 26, 197, 102, 105, 18, 67, 219, 69, 138, 213, 50, 45, 156, 108, 102, 34,
      147, 232, 183, 14, 225, 156, 101, 186, 7, 158, 243]"

record InitSent =
  is_index_initiator :: u32
  is_ephemeral_secret_initiator :: bytes
  is_constr :: bytes
  is_h :: bytes

record 'ts InitReceived =
  ir_peer_public :: bytes
  ir_ephemeral_public_initiator :: bytes
  ir_index_initiator :: u32
  ir_timestamp :: 'ts
  ir_constr :: bytes
  ir_h :: bytes

record ReceiverEstablished =
  re_our_index :: u32
  re_peer_index :: u32
  re_constr :: bytes

record InitiatorEstablished =
  ie_our_index :: u32
  ie_peer_index :: u32
  ie_constr :: bytes

definition contributory :: "crypto \<Rightarrow> bytes \<Rightarrow> HandshakeError + bytes" where
  "contributory C secret = (if was_contributory C secret then Inr secret else Inl HsFailed)"

text \<open>\<open>PresharedKey::default()\<close>.\<close>

definition default_preshared_key :: bytes where
  "default_preshared_key = replicate 32 0"

section \<open>The responder reads an initiation\<close>

definition receive ::
  "crypto \<Rightarrow> 'ts tai \<Rightarrow> bytes \<Rightarrow> bytes \<Rightarrow> ((HandshakeError + 'ts InitReceived) \<times> bytes) option" where
  "receive C T our_private packet =
     (if length packet \<noteq> INIT_MSG_LENGTH then Some (Inl HsFailed, packet) else do {
        b0 \<leftarrow> index_at packet 0;
        reserved \<leftarrow> subslice packet 1 4;
        if MessageType_try_from b0 \<noteq> Inr MT_HandshakeInit \<or> reserved \<noteq> replicate 3 0
        then Some (Inl HsFailed, packet)
        else do {
          sender \<leftarrow> field packet INIT_SENDER;
          ephemeral_public_key \<leftarrow> field packet INIT_EPHEMERAL_PK;
          let our_public = x25519_public C our_private;
          let h = hash C [INITIAL_IDENTIFIER_HASH, our_public];
          constr \<leftarrow> kdf1 C INITIAL_CONSTR_HASH ephemeral_public_key;
          let h = hash C [h, ephemeral_public_key];
          case contributory C (x25519_dh C our_private ephemeral_public_key) of
            Inl e \<Rightarrow> Some (Inl e, packet)
          | Inr shared_secret \<Rightarrow> do {
              (constr, key) \<leftarrow> kdf2 C constr shared_secret;
              static_pk_buf \<leftarrow> field packet INIT_ENCRYPTED_STATIC_PK;
              let h_temp = hash C [h, static_pk_buf];
              (ok, static_pk_buf) \<leftarrow> aead_open C (init_aead key) 0 h static_pk_buf;
              packet \<leftarrow> set_field packet INIT_ENCRYPTED_STATIC_PK static_pk_buf;
              if \<not> ok then Some (Inl HsFailed, packet) else do {
                peer_public \<leftarrow> subslice static_pk_buf 0 32;
                let h = h_temp;
                case contributory C (x25519_dh C our_private peer_public) of
                  Inl e \<Rightarrow> Some (Inl e, packet)
                | Inr shared_secret \<Rightarrow> do {
                    (constr, key) \<leftarrow> kdf2 C constr shared_secret;
                    timestamp_buf \<leftarrow> field packet INIT_ENCRYPTED_TIMESTAMP;
                    let h_temp = hash C [h, timestamp_buf];
                    (ok, timestamp_buf) \<leftarrow> aead_open C (init_aead key) 0 h timestamp_buf;
                    packet \<leftarrow> set_field packet INIT_ENCRYPTED_TIMESTAMP timestamp_buf;
                    if \<not> ok then Some (Inl HsFailed, packet) else do {
                      plaintext_len \<leftarrow> minus_usize (length timestamp_buf) AEAD_TAG_SIZE;
                      ts \<leftarrow> subslice timestamp_buf 0 plaintext_len;
                      case tai_from_slice T ts of
                        None \<Rightarrow> Some (Inl HsFailed, packet)
                      | Some timestamp \<Rightarrow> Some (Inr
                          \<lparr>ir_peer_public = peer_public,
                           ir_ephemeral_public_initiator = ephemeral_public_key,
                           ir_index_initiator = of_le_bytes sender, ir_timestamp = timestamp,
                           ir_constr = constr, ir_h = h_temp\<rparr>, packet)
                    }
                  }
              }
            }
        }
      })"

section \<open>The responder answers\<close>

definition respond ::
  "crypto \<Rightarrow> 'ts tai \<Rightarrow> 'ts InitReceived \<Rightarrow> u32 \<Rightarrow> bytes \<Rightarrow> bytes option \<Rightarrow> 'ts \<Rightarrow>
     'ts Generator \<Rightarrow> bytes \<Rightarrow> ((HandshakeError + ReceiverEstablished) \<times> 'ts Generator \<times> bytes) option" where
  "respond C T self index ephemeral_secret preshared_key timestamp cookies buf0 =
     (if length buf0 < RESP_MSG_LENGTH
      then Some (Inl (HsBufferTooSmall RESP_MSG_LENGTH), cookies, buf0)
      else do {
        buf \<leftarrow> subslice buf0 0 RESP_MSG_LENGTH;
        buf \<leftarrow> copy_into buf 0 1 [type_byte MT_HandshakeResp];
        buf \<leftarrow> copy_into buf 1 4 (replicate 3 0);
        buf \<leftarrow> set_field buf RESP_SENDER (le_bytes index);
        buf \<leftarrow> set_field buf RESP_RECEIVER (le_bytes (ir_index_initiator self));
        let ephemeral_public = x25519_public C ephemeral_secret;
        buf \<leftarrow> set_field buf RESP_EPHEMERAL_PK ephemeral_public;
        constr \<leftarrow> kdf1 C (ir_constr self) ephemeral_public;
        let h = hash C [ir_h self, ephemeral_public];
        let shared_secret = x25519_dh C ephemeral_secret (ir_ephemeral_public_initiator self);
        constr \<leftarrow> kdf1 C constr shared_secret;
        let shared_secret = x25519_dh C ephemeral_secret (ir_peer_public self);
        constr \<leftarrow> kdf1 C constr shared_secret;
        let preshared_key = unwrap_or preshared_key default_preshared_key;
        (constr, temp, key) \<leftarrow> kdf3 C constr preshared_key;
        let h = hash C [h, temp];
        data \<leftarrow> field buf RESP_ENCRYPTED_EMPTY_TAG;
        sealed \<leftarrow> aead_seal C (init_aead key) 0 h data;
        buf \<leftarrow> set_field buf RESP_ENCRYPTED_EMPTY_TAG sealed;
        (r, cookies, buf) \<leftarrow> add_macs C T cookies timestamp buf;
        Some (case r of
            Inl _ \<Rightarrow> Inl HsFailed
          | Inr _ \<Rightarrow> Inr \<lparr>re_our_index = index, re_peer_index = ir_index_initiator self, re_constr = constr\<rparr>,
          cookies, buf @ drop RESP_MSG_LENGTH buf0)
      })"

section \<open>The initiator\<close>

definition initiate ::
  "crypto \<Rightarrow> 'ts tai \<Rightarrow> bytes \<Rightarrow> bytes \<Rightarrow> u32 \<Rightarrow> bytes \<Rightarrow> 'ts \<Rightarrow>
     'ts Generator \<Rightarrow> bytes \<Rightarrow> ((HandshakeError + InitSent) \<times> 'ts Generator \<times> bytes) option" where
  "initiate C T our_private peer_public sender ephemeral_secret timestamp cookies buf0 =
     (if length buf0 < INIT_MSG_LENGTH
      then Some (Inl (HsBufferTooSmall INIT_MSG_LENGTH), cookies, buf0)
      else do {
        buf \<leftarrow> subslice buf0 0 INIT_MSG_LENGTH;
        buf \<leftarrow> copy_into buf 0 1 [type_byte MT_HandshakeInit];
        buf \<leftarrow> copy_into buf 1 4 (replicate 3 0);
        buf \<leftarrow> set_field buf INIT_SENDER (le_bytes sender);
        let h = hash C [INITIAL_IDENTIFIER_HASH, peer_public];
        let ephemeral_public_key = x25519_public C ephemeral_secret;
        buf \<leftarrow> set_field buf INIT_EPHEMERAL_PK ephemeral_public_key;
        constr \<leftarrow> kdf1 C INITIAL_CONSTR_HASH ephemeral_public_key;
        let h = hash C [h, ephemeral_public_key];
        case contributory C (x25519_dh C ephemeral_secret peer_public) of
          Inl e \<Rightarrow> Some (Inl e, cookies, buf @ drop INIT_MSG_LENGTH buf0)
        | Inr shared_secret \<Rightarrow> do {
            (constr, key) \<leftarrow> kdf2 C constr shared_secret;
            let our_public = x25519_public C our_private;
            buf \<leftarrow> copy_into buf (fst INIT_ENCRYPTED_STATIC_PK)
              (snd INIT_ENCRYPTED_STATIC_PK - AEAD_TAG_SIZE) our_public;
            data \<leftarrow> field buf INIT_ENCRYPTED_STATIC_PK;
            sealed \<leftarrow> aead_seal C (init_aead key) 0 h data;
            buf \<leftarrow> set_field buf INIT_ENCRYPTED_STATIC_PK sealed;
            static \<leftarrow> field buf INIT_ENCRYPTED_STATIC_PK;
            let h = hash C [h, static];
            let shared_secret = x25519_dh C our_private peer_public;
            (constr, key) \<leftarrow> kdf2 C constr shared_secret;
            buf \<leftarrow> copy_into buf (fst INIT_ENCRYPTED_TIMESTAMP)
              (snd INIT_ENCRYPTED_TIMESTAMP - AEAD_TAG_SIZE) (tai_to_bytes T timestamp);
            data \<leftarrow> field buf INIT_ENCRYPTED_TIMESTAMP;
            sealed \<leftarrow> aead_seal C (init_aead key) 0 h data;
            buf \<leftarrow> set_field buf INIT_ENCRYPTED_TIMESTAMP sealed;
            ts \<leftarrow> field buf INIT_ENCRYPTED_TIMESTAMP;
            let h = hash C [h, ts];
            (r, cookies, buf) \<leftarrow> add_macs C T cookies timestamp buf;
            Some (case r of
                Inl _ \<Rightarrow> Inl HsFailed
              | Inr _ \<Rightarrow> Inr \<lparr>is_index_initiator = sender,
                  is_ephemeral_secret_initiator = ephemeral_secret, is_constr = constr, is_h = h\<rparr>,
              cookies, buf @ drop INIT_MSG_LENGTH buf0)
          }
      })"

definition response_received ::
  "crypto \<Rightarrow> InitSent \<Rightarrow> bytes \<Rightarrow> bytes option \<Rightarrow> bytes \<Rightarrow>
     ((HandshakeError + InitiatorEstablished) \<times> bytes) option" where
  "response_received C self our_private preshared_key packet =
     (if length packet \<noteq> RESP_MSG_LENGTH then Some (Inl HsFailed, packet) else do {
        b0 \<leftarrow> index_at packet 0;
        reserved \<leftarrow> subslice packet 1 4;
        if MessageType_try_from b0 \<noteq> Inr MT_HandshakeResp \<or> reserved \<noteq> replicate 3 0
        then Some (Inl HsFailed, packet)
        else do {
          sender \<leftarrow> field packet RESP_SENDER;
          receiver \<leftarrow> field packet RESP_RECEIVER;
          ephemeral_public_key \<leftarrow> field packet RESP_EPHEMERAL_PK;
          if of_le_bytes receiver \<noteq> is_index_initiator self then Some (Inl HsFailed, packet) else do {
            constr \<leftarrow> kdf1 C (is_constr self) ephemeral_public_key;
            let h = hash C [is_h self, ephemeral_public_key];
            case contributory C (x25519_dh C (is_ephemeral_secret_initiator self) ephemeral_public_key) of
              Inl e \<Rightarrow> Some (Inl e, packet)
            | Inr shared_secret \<Rightarrow> do {
                constr \<leftarrow> kdf1 C constr shared_secret;
                let shared_secret = x25519_dh C our_private ephemeral_public_key;
                constr \<leftarrow> kdf1 C constr shared_secret;
                let preshared_key = unwrap_or preshared_key default_preshared_key;
                (constr, temp, key) \<leftarrow> kdf3 C constr preshared_key;
                let h = hash C [h, temp];
                tag \<leftarrow> field packet RESP_ENCRYPTED_EMPTY_TAG;
                (ok, tag) \<leftarrow> aead_open C (init_aead key) 0 h tag;
                packet \<leftarrow> set_field packet RESP_ENCRYPTED_EMPTY_TAG tag;
                if \<not> ok then Some (Inl HsFailed, packet)
                else Some (Inr \<lparr>ie_our_index = is_index_initiator self,
                  ie_peer_index = of_le_bytes sender, ie_constr = constr\<rparr>, packet)
              }
          }
        }
      })"

section \<open>Transport keys\<close>

definition finish_responder :: "crypto \<Rightarrow> ReceiverEstablished \<Rightarrow> Transport option" where
  "finish_responder C self = do {
     (data_recv, data_send) \<leftarrow> kdf2 C (re_constr self) [];
     Some (Transport_new (re_our_index self) (re_peer_index self) (init_aead data_recv) (init_aead data_send))
   }"

definition finish_initiator :: "crypto \<Rightarrow> InitiatorEstablished \<Rightarrow> Transport option" where
  "finish_initiator C self = do {
     (data_send, data_recv) \<leftarrow> kdf2 C (ie_constr self) [];
     Some (Transport_new (ie_our_index self) (ie_peer_index self) (init_aead data_recv) (init_aead data_send))
   }"

section \<open>The key schedule of the first message\<close>

text \<open>
  The symmetric part of the first message, in the order of the Noise pattern: from the responder's
  static key, the ephemeral key, the two Diffie-Hellman results, the initiator's static key and
  the encoded timestamp, the two encrypted fields, the chaining key and the transcript hash. Both
  sides compute it, each with its own secrets.
\<close>

definition noise_init ::
  "crypto \<Rightarrow> bytes \<Rightarrow> bytes \<Rightarrow> bytes \<Rightarrow> bytes \<Rightarrow> bytes \<Rightarrow> bytes \<Rightarrow> bytes \<times> bytes \<times> bytes \<times> bytes" where
  "noise_init C responder_pk ephemeral_pk es ss initiator_pk ts =
     (let h1 = hash C [hash C [INITIAL_IDENTIFIER_HASH, responder_pk], ephemeral_pk];
          (c2, k2) = kdf2_out C (kdf1_out C INITIAL_CONSTR_HASH ephemeral_pk) es;
          enc_static = seal_out C k2 0 h1 (initiator_pk @ replicate 16 0);
          h2 = hash C [h1, enc_static];
          (c3, k3) = kdf2_out C c2 ss;
          enc_ts = seal_out C k3 0 h2 (ts @ replicate 16 0)
      in (enc_static, enc_ts, c3, hash C [h2, enc_ts]))"

definition init_body :: "u32 \<Rightarrow> bytes \<Rightarrow> bytes \<Rightarrow> bytes \<Rightarrow> bytes" where
  "init_body sender ephemeral_pk enc_static enc_ts =
     [type_byte MT_HandshakeInit] @ replicate 3 0 @ le_bytes sender @ ephemeral_pk @ enc_static @ enc_ts"

lemma kdf2_cases:
  assumes "crypto_ok C"
  obtains a b where "kdf2_out C c x = (a, b)" "length a = 32" "length b = 32"
  using kdf2_total(2,3) [OF assms, of c x] by (metis prod.collapse)

lemma kdf3_cases:
  assumes "crypto_ok C"
  obtains a b d where "kdf3_out C c x = (a, b, d)" "length a = 32" "length b = 32" "length d = 32"
  using kdf3_total(2-4) [OF assms, of c x] by (metis prod.collapse)

lemma noise_init_lengths:
  assumes "crypto_ok C" and "length spk = 32" and "length ts = 12"
    and "noise_init C rpk epk es ss spk ts = (enc_static, enc_ts, c, h)"
  shows "length enc_static = 48" and "length enc_ts = 28" and "length c = 32" and "length h = 32"
proof -
  obtain c2 k2 where 2: "kdf2_out C (kdf1_out C INITIAL_CONSTR_HASH epk) es = (c2, k2)" "length k2 = 32"
    by (rule kdf2_cases [OF assms(1)])
  obtain c3 k3 where 3: "kdf2_out C c2 ss = (c3, k3)" "length c3 = 32" "length k3 = 32"
    by (rule kdf2_cases [OF assms(1)])
  show "length enc_static = 48" "length enc_ts = 28" "length c = 32" "length h = 32"
    using assms(2-4) 2 3 aead_seal_tail(2) [OF assms(1), of _ _ "replicate 16 0"]
    by (auto simp: noise_init_def Let_def length_hash [OF assms(1)])
qed

lemma handshake_init_body:
  assumes "length epk = 32" and "length enc_static = 48" and "length enc_ts = 28" and "length macs = 32"
  shows "handshake_msg (init_body sender epk enc_static enc_ts @ macs)"
    and "length (init_body sender epk enc_static enc_ts) = 116"
  using assms by (simp_all add: handshake_msg_iff init_body_def sub_def)

lemma with_macs_cong:
  assumes "take (length msg - 32) msg = take (length msg - 32) msg'" and "length msg = length msg'"
  shows "with_macs C T g now msg = with_macs C T g now msg'"
  using assms by (simp add: with_macs_def mac1_for_def)

lemma with_macs_tail:
  assumes "length macs = 32"
  shows "with_macs C T g now (body @ macs) = with_macs C T g now (body @ replicate 32 0)"
    and "mac1_for C g (body @ macs) = mac1_for C g (body @ replicate 32 0)"
  using assms by (auto intro!: with_macs_cong simp: mac1_for_def)

text \<open>What \<open>initiate\<close> writes and returns.\<close>

lemma initiate_eq:
  assumes C: "crypto_ok C" and T: "tai_ok T" and g: "Generator_ok g" and buf: "INIT_MSG_LENGTH \<le> length buf"
    and contr: "was_contributory C (x25519_dh C eph peer_pk)"
    and noise: "noise_init C peer_pk (x25519_public C eph) (x25519_dh C eph peer_pk)
      (x25519_dh C our_private peer_pk) (x25519_public C our_private) (tai_to_bytes T ts) =
      (enc_static, enc_ts, c, h)"
    and msg: "msg = init_body sender (x25519_public C eph) enc_static enc_ts @ replicate 32 0"
  shows "initiate C T our_private peer_pk sender eph ts g buf =
    Some (Inr \<lparr>is_index_initiator = sender, is_ephemeral_secret_initiator = eph, is_constr = c, is_h = h\<rparr>,
      g\<lparr>g_last_sent_mac1 := Some (mac1_for C g msg)\<rparr>, with_macs C T g ts msg @ drop INIT_MSG_LENGTH buf)"
proof -
  obtain c2 k2 where 2: "kdf2_out C (kdf1_out C INITIAL_CONSTR_HASH (x25519_public C eph))
      (x25519_dh C eph peer_pk) = (c2, k2)" "length k2 = 32"
    by (rule kdf2_cases [OF C])
  obtain c3 k3 where 3: "kdf2_out C c2 (x25519_dh C our_private peer_pk) = (c3, k3)" "length k3 = 32"
    by (rule kdf2_cases [OF C])
  note len = noise_init_lengths [OF C length_public [OF C] tai_bytes(1) [OF T] noise]
  define b0 where "b0 = take 148 buf"
  have b0: "subslice buf 0 148 = Some b0" "length b0 = 148"
    using buf by (simp_all add: subslice_def sub_def b0_def)
  define rest where "rest = drop 116 b0"
  have rest: "length rest = 32" using b0 by (simp add: rest_def)
  have macs: "add_macs C T g ts (((((([type_byte MT_HandshakeInit] @ replicate 3 0) @ le_bytes sender) @
        x25519_public C eph) @ enc_static) @ enc_ts) @ rest) =
      Some (Inr (), g\<lparr>g_last_sent_mac1 := Some (mac1_for C g msg)\<rparr>, with_macs C T g ts msg)"
    using add_macs_eq [OF C g handshake_init_body(1) [OF length_public [OF C] len(1,2) rest]]
    by (simp add: msg with_macs_tail [OF rest]) (simp add: init_body_def)
  have enc: "enc_static = seal_out C k2 0 (hash C [hash C [INITIAL_IDENTIFIER_HASH, peer_pk],
        x25519_public C eph]) (x25519_public C our_private @ replicate 16 0)"
    "enc_ts = seal_out C k3 0 (hash C [hash C [hash C [INITIAL_IDENTIFIER_HASH, peer_pk],
        x25519_public C eph], enc_static]) (tai_to_bytes T ts @ replicate 16 0)"
    "c = c3" "h = hash C [hash C [hash C [hash C [INITIAL_IDENTIFIER_HASH, peer_pk],
        x25519_public C eph], enc_static], enc_ts]"
    using noise 2 3 by (auto simp: noise_init_def Let_def)
  show ?thesis
    using buf contr 2 3 b0 len macs T C
    by (simp add: initiate_def Let_def fill_simps kdf_totals contributory_def init_aead_def length_public
        aead_seal_tail(1) [OF C] enc [symmetric] rest_def
        del: append_assoc append_Cons append_Nil)
qed

text \<open>What \<open>receive\<close> reads from such a message, whatever its MAC fields hold.\<close>

lemma init_body_fields:
  assumes "length epk = 32" and "length enc_static = 48" and "length enc_ts = 28" and "length macs = 32"
    and "packet = init_body sender epk enc_static enc_ts @ macs"
  shows "length packet = 148" and "packet ! 0 = type_byte MT_HandshakeInit"
    and "sub packet 1 4 = replicate 3 0" and "sub packet 4 8 = le_bytes sender"
    and "sub packet 8 40 = epk" and "sub packet 40 88 = enc_static" and "sub packet 88 116 = enc_ts"
  using assms by (simp_all add: init_body_def sub_def numeral_3_eq_3)

lemma receive_eq:
  assumes C: "crypto_ok C" and T: "tai_from_slice T tsb = Some ts" "length tsb = 12"
    and pk: "length epk = 32" "length spk = 32" and macs: "length macs = 32"
    and contr: "was_contributory C (x25519_dh C our_private epk)"
      "was_contributory C (x25519_dh C our_private spk)"
    and noise: "noise_init C (x25519_public C our_private) epk (x25519_dh C our_private epk)
      (x25519_dh C our_private spk) spk tsb = (enc_static, enc_ts, c, h)"
  shows "\<exists>packet'. receive C T our_private (init_body sender epk enc_static enc_ts @ macs) =
    Some (Inr \<lparr>ir_peer_public = spk, ir_ephemeral_public_initiator = epk, ir_index_initiator = sender,
      ir_timestamp = ts, ir_constr = c, ir_h = h\<rparr>, packet') \<and> length packet' = INIT_MSG_LENGTH"
proof -
  obtain c2 k2 where 2: "kdf2_out C (kdf1_out C INITIAL_CONSTR_HASH epk)
      (x25519_dh C our_private epk) = (c2, k2)" "length k2 = 32"
    by (rule kdf2_cases [OF C])
  obtain c3 k3 where 3: "kdf2_out C c2 (x25519_dh C our_private spk) = (c3, k3)" "length k3 = 32"
    by (rule kdf2_cases [OF C])
  note len = noise_init_lengths [OF C pk(2) T(2) noise]
  define packet where "packet = init_body sender epk enc_static enc_ts @ macs"
  note f = init_body_fields [OF pk(1) len(1,2) macs packet_def]
  define h1 where "h1 = hash C [hash C [INITIAL_IDENTIFIER_HASH, x25519_public C our_private], epk]"
  define h2 where "h2 = hash C [h1, enc_static]"
  have enc: "enc_static = seal_out C k2 0 h1 (spk @ replicate 16 0)"
    "enc_ts = seal_out C k3 0 h2 (tsb @ replicate 16 0)" "c = c3" "h = hash C [h2, enc_ts]"
    using noise 2 3 by (auto simp: noise_init_def Let_def h1_def h2_def)
  obtain s where s: "aead_open C k2 0 h1 enc_static = Some (True, s)" "length s = 48" "sub s 0 32 = spk"
    using aead_open_seal [OF C 2(2), of "spk @ replicate 16 0" 0 h1] pk(2) enc(1) by (auto simp: sub_def)
  obtain t where t: "aead_open C k3 0 h2 enc_ts = Some (True, t)" "length t = 28" "sub t 0 12 = tsb"
    using aead_open_seal [OF C 3(2), of "tsb @ replicate 16 0" 0 h2] T(2) enc(2) by (auto simp: sub_def)
  have "packet \<noteq> []" using f(1) by auto
  then show ?thesis
    unfolding packet_def [symmetric] receive_def Let_def
    using f s t 2 3 T enc(3,4) contr kdf_totals [OF C]
    by (simp add: buf_simps contributory_def init_aead_def MessageType_try_from_Inr
        h1_def [symmetric] h2_def [symmetric])
qed

section \<open>The key schedule of the second message\<close>

text \<open>
  From the state after the first message, the responder's ephemeral key, the two Diffie-Hellman
  results and the pre-shared key: the encryption of the empty string and the final chaining key.
\<close>

definition noise_resp ::
  "crypto \<Rightarrow> bytes \<Rightarrow> bytes \<Rightarrow> bytes \<Rightarrow> bytes \<Rightarrow> bytes \<Rightarrow> bytes \<Rightarrow> bytes \<times> bytes" where
  "noise_resp C c h ephemeral_pk ee se psk =
     (let c1 = kdf1_out C (kdf1_out C (kdf1_out C c ephemeral_pk) ee) se;
          (c2, temp, key) = kdf3_out C c1 psk
      in (seal_out C key 0 (hash C [hash C [h, ephemeral_pk], temp]) (replicate 16 0), c2))"

definition resp_body :: "u32 \<Rightarrow> u32 \<Rightarrow> bytes \<Rightarrow> bytes \<Rightarrow> bytes" where
  "resp_body sender receiver ephemeral_pk enc_empty =
     [type_byte MT_HandshakeResp] @ replicate 3 0 @ le_bytes sender @ le_bytes receiver @ ephemeral_pk @
     enc_empty"

lemma noise_resp_lengths:
  assumes "crypto_ok C" and "noise_resp C c h epk ee se psk = (enc_empty, c')"
  shows "length enc_empty = 16" and "length c' = 32"
proof -
  obtain c2 temp key where 2: "kdf3_out C (kdf1_out C (kdf1_out C (kdf1_out C c epk) ee) se) psk =
      (c2, temp, key)" "length c2 = 32" "length key = 32"
    by (rule kdf3_cases [OF assms(1)])
  show "length enc_empty = 16" "length c' = 32"
    using assms(2) 2 aead_seal_total(2) [OF assms(1), of key "replicate 16 0"]
    by (auto simp: noise_resp_def Let_def)
qed

lemma handshake_resp_body:
  assumes "length epk = 32" and "length enc_empty = 16" and "length macs = 32"
  shows "handshake_msg (resp_body sender receiver epk enc_empty @ macs)"
    and "length (resp_body sender receiver epk enc_empty) = 60"
  using assms by (simp_all add: handshake_msg_iff resp_body_def sub_def)

lemma respond_eq:
  assumes C: "crypto_ok C" and g: "Generator_ok g" and buf: "RESP_MSG_LENGTH \<le> length buf"
    and noise: "noise_resp C (ir_constr st) (ir_h st) (x25519_public C eph)
      (x25519_dh C eph (ir_ephemeral_public_initiator st)) (x25519_dh C eph (ir_peer_public st))
      (unwrap_or psk default_preshared_key) = (enc_empty, c)"
    and msg: "msg = resp_body index (ir_index_initiator st) (x25519_public C eph) enc_empty @ replicate 32 0"
  shows "respond C T st index eph psk ts g buf =
    Some (Inr \<lparr>re_our_index = index, re_peer_index = ir_index_initiator st, re_constr = c\<rparr>,
      g\<lparr>g_last_sent_mac1 := Some (mac1_for C g msg)\<rparr>, with_macs C T g ts msg @ drop RESP_MSG_LENGTH buf)"
proof -
  let ?c1 = "kdf1_out C (kdf1_out C (kdf1_out C (ir_constr st) (x25519_public C eph))
      (x25519_dh C eph (ir_ephemeral_public_initiator st))) (x25519_dh C eph (ir_peer_public st))"
  obtain c2 temp key where 3: "kdf3_out C ?c1 (unwrap_or psk default_preshared_key) = (c2, temp, key)"
    "length key = 32"
    by (rule kdf3_cases [OF C])
  note len = noise_resp_lengths [OF C noise]
  define b0 where "b0 = take 92 buf"
  have b0: "subslice buf 0 92 = Some b0" "length b0 = 92"
    using buf by (simp_all add: subslice_def sub_def b0_def)
  define rest where "rest = drop 60 b0"
  have rest: "length rest = 32" using b0 by (simp add: rest_def)
  have macs: "add_macs C T g ts (((((([type_byte MT_HandshakeResp] @ replicate 3 0) @ le_bytes index) @
        le_bytes (ir_index_initiator st)) @ x25519_public C eph) @ enc_empty) @ rest) =
      Some (Inr (), g\<lparr>g_last_sent_mac1 := Some (mac1_for C g msg)\<rparr>, with_macs C T g ts msg)"
    using add_macs_eq [OF C g handshake_resp_body(1) [OF length_public [OF C] len(1) rest]]
    by (simp add: msg with_macs_tail [OF rest]) (simp add: resp_body_def)
  let ?h = "hash C [hash C [ir_h st, x25519_public C eph], temp]"
  have enc: "enc_empty = seal_out C key 0 ?h (replicate 16 0)" "c = c2"
    using noise 3 by (auto simp: noise_resp_def Let_def)
  have tag: "subslice ((((([type_byte MT_HandshakeResp] @ replicate 3 0) @ le_bytes index) @
      le_bytes (ir_index_initiator st)) @ x25519_public C eph) @ drop 44 b0) 44 60 = Some (sub b0 44 60)"
    using b0 length_public [OF C] by (simp add: subslice_def sub_def)
  have seal: "aead_seal C key 0 ?h (sub b0 44 60) = Some enc_empty"
    using aead_seal_tail(1) [OF C 3(2), of "[]" "sub b0 44 60"] b0 enc by simp
  show ?thesis
    using buf 3 b0 len macs C tag seal enc(2)
    by (simp add: respond_def Let_def fill_simps kdf_totals init_aead_def length_public rest_def
        del: append_assoc append_Cons append_Nil)
qed

lemma resp_body_fields:
  assumes "length epk = 32" and "length enc_empty = 16" and "length macs = 32"
    and "packet = resp_body sender receiver epk enc_empty @ macs"
  shows "length packet = 92" and "packet ! 0 = type_byte MT_HandshakeResp"
    and "sub packet 1 4 = replicate 3 0" and "sub packet 4 8 = le_bytes sender"
    and "sub packet 8 12 = le_bytes receiver" and "sub packet 12 44 = epk" and "sub packet 44 60 = enc_empty"
  using assms by (simp_all add: resp_body_def sub_def numeral_3_eq_3)

lemma response_received_eq:
  assumes C: "crypto_ok C" and epk: "length epk = 32" and macs: "length macs = 32"
    and contr: "was_contributory C (x25519_dh C (is_ephemeral_secret_initiator st) epk)"
    and noise: "noise_resp C (is_constr st) (is_h st) epk
      (x25519_dh C (is_ephemeral_secret_initiator st) epk) (x25519_dh C our_private epk)
      (unwrap_or psk default_preshared_key) = (enc_empty, c)"
  shows "\<exists>packet'. response_received C st our_private psk
      (resp_body sender (is_index_initiator st) epk enc_empty @ macs) =
    Some (Inr \<lparr>ie_our_index = is_index_initiator st, ie_peer_index = sender, ie_constr = c\<rparr>, packet') \<and>
    length packet' = RESP_MSG_LENGTH"
proof -
  let ?c1 = "kdf1_out C (kdf1_out C (kdf1_out C (is_constr st) epk)
      (x25519_dh C (is_ephemeral_secret_initiator st) epk)) (x25519_dh C our_private epk)"
  obtain c2 temp key where 3: "kdf3_out C ?c1 (unwrap_or psk default_preshared_key) = (c2, temp, key)"
    "length key = 32"
    by (rule kdf3_cases [OF C])
  note len = noise_resp_lengths [OF C noise]
  define packet where "packet = resp_body sender (is_index_initiator st) epk enc_empty @ macs"
  note f = resp_body_fields [OF epk len(1) macs packet_def]
  let ?h = "hash C [hash C [is_h st, epk], temp]"
  have enc: "enc_empty = seal_out C key 0 ?h (replicate 16 0)" "c = c2"
    using noise 3 by (auto simp: noise_resp_def Let_def)
  obtain t where t: "aead_open C key 0 ?h enc_empty = Some (True, t)" "length t = 16"
    using aead_open_seal [OF C 3(2), of "replicate 16 0" 0 ?h] enc(1) by auto
  have "packet \<noteq> []" using f(1) by auto
  then show ?thesis
    unfolding packet_def [symmetric] response_received_def Let_def
    using f t 3 enc(2) contr kdf_totals [OF C]
    by (simp add: buf_simps contributory_def init_aead_def MessageType_try_from_Inr)
qed

section \<open>Totality\<close>

text \<open>No input makes the handshake code panic, and failed calls keep the cookie state well formed.\<close>

lemma aead_open_total:
  assumes "crypto_ok C"
  obtains ok d where "aead_open C key ctr a data = Some (ok, d)" "length d = length data"
  using aead_open_within_total [OF assms] unfolding aead_open_def by blast

lemma receive_total:
  assumes C: "crypto_ok C"
  shows "\<exists>r p. receive C T our_private packet = Some (r, p) \<and> length p = length packet"
proof (cases "length packet = 148 \<and> packet ! 0 = type_byte MT_HandshakeInit \<and> sub packet 1 4 = replicate 3 0
    \<and> was_contributory C (x25519_dh C our_private (sub packet 8 40))")
  case False
  show ?thesis
  proof (cases "length packet = 148")
    case True
    then have "packet \<noteq> []" by auto
    then show ?thesis using False True
      by (auto simp: receive_def Let_def buf_simps MessageType_try_from_Inr contributory_def kdf_totals [OF C])
  qed (simp add: receive_def)
next
  case ok: True
  then have ne: "packet \<noteq> []" and l: "length packet = 148" by auto
  let ?epk = "sub packet 8 40"
  obtain c2 k2 where 2: "kdf2_out C (kdf1_out C INITIAL_CONSTR_HASH ?epk)
      (x25519_dh C our_private ?epk) = (c2, k2)" by fastforce
  let ?h1 = "hash C [hash C [INITIAL_IDENTIFIER_HASH, x25519_public C our_private], ?epk]"
  obtain o1 s where s: "aead_open C k2 0 ?h1 (sub packet 40 88) = Some (o1, s)" "length s = 48"
    using aead_open_total [OF C, of k2 0 ?h1 "sub packet 40 88"] l by auto
  show ?thesis
  proof (cases "o1 \<and> was_contributory C (x25519_dh C our_private (sub s 0 32))")
    case False
    then show ?thesis using ok ne l s 2
      by (auto simp: receive_def Let_def buf_simps MessageType_try_from_Inr contributory_def
          kdf_totals [OF C] init_aead_def)
  next
    case True
    obtain c3 k3 where 3: "kdf2_out C c2 (x25519_dh C our_private (sub s 0 32)) = (c3, k3)" by fastforce
    let ?h2 = "hash C [?h1, sub packet 40 88]"
    obtain o2 t where t: "aead_open C k3 0 ?h2 (sub packet 88 116) = Some (o2, t)" "length t = 28"
      using aead_open_total [OF C, of k3 0 ?h2 "sub packet 88 116"] l by auto
    show ?thesis using ok ne l s 2 3 True t
      by (auto simp: receive_def Let_def buf_simps MessageType_try_from_Inr contributory_def
          kdf_totals [OF C] init_aead_def split: option.split)
  qed
qed

lemma response_received_total:
  assumes C: "crypto_ok C"
  shows "\<exists>r p. response_received C st our_private psk packet = Some (r, p) \<and> length p = length packet"
proof (cases "length packet = 92 \<and> packet ! 0 = type_byte MT_HandshakeResp \<and> sub packet 1 4 = replicate 3 0
    \<and> of_le_bytes (sub packet 8 12) = is_index_initiator st
    \<and> was_contributory C (x25519_dh C (is_ephemeral_secret_initiator st) (sub packet 12 44))")
  case False
  show ?thesis
  proof (cases "length packet = 92")
    case True
    then have "packet \<noteq> []" by auto
    then show ?thesis using False True
      by (auto simp: response_received_def Let_def buf_simps MessageType_try_from_Inr contributory_def
          kdf_totals [OF C])
  qed (simp add: response_received_def)
next
  case ok: True
  then have ne: "packet \<noteq> []" and l: "length packet = 92" by auto
  let ?epk = "sub packet 12 44"
  obtain c2 temp key where 3: "kdf3_out C (kdf1_out C (kdf1_out C (kdf1_out C (is_constr st) ?epk)
      (x25519_dh C (is_ephemeral_secret_initiator st) ?epk)) (x25519_dh C our_private ?epk))
      (unwrap_or psk default_preshared_key) = (c2, temp, key)" by (metis prod_cases3)
  let ?h = "hash C [hash C [is_h st, ?epk], temp]"
  obtain o1 t where t: "aead_open C key 0 ?h (sub packet 44 60) = Some (o1, t)" "length t = 16"
    using aead_open_total [OF C, of key 0 ?h "sub packet 44 60"] l by auto
  show ?thesis using ok ne l 3 t
    by (auto simp: response_received_def Let_def buf_simps MessageType_try_from_Inr contributory_def
        kdf_totals [OF C] init_aead_def)
qed

lemma header_init:
  "length v = 148 \<Longrightarrow> v ! 0 = type_byte MT_HandshakeInit \<Longrightarrow> sub v 1 4 = replicate 3 0 \<Longrightarrow>
     MessageHeader_try_from v = Some (Inr HandshakeInit)"
  by (subst MessageHeader_try_from_Inr) (auto intro!: exI [of _ MT_HandshakeInit])

lemma header_resp:
  "length v = 92 \<Longrightarrow> v ! 0 = type_byte MT_HandshakeResp \<Longrightarrow> sub v 1 4 = replicate 3 0 \<Longrightarrow>
     MessageHeader_try_from v = Some (Inr (HandshakeResponse (of_le_bytes (sub v 8 12))))"
  by (subst MessageHeader_try_from_Inr) (auto intro!: exI [of _ MT_HandshakeResp])

lemma receive_header:
  "receive C T our_private packet = Some (Inr hs, b) \<Longrightarrow> MessageHeader_try_from packet = Some (Inr HandshakeInit)"
  by (rule header_init) (auto simp: receive_def buf_simps MessageType_try_from_Inr split: if_splits bind_splits)

text \<open>The finished messages: MACs added, header and body unchanged.\<close>

lemma with_macs_body:
  assumes "crypto_ok C" and "Generator_ok g"
  obtains macs where "with_macs C T g now (body @ replicate 32 0) = body @ macs" "length macs = 32"
  using length_macs [OF assms] by (simp add: with_macs_def)

lemma init_message:
  assumes C: "crypto_ok C" and g: "Generator_ok g"
    and len: "length epk = 32" "length es = 48" "length et = 28"
    and msg: "msg = init_body sender epk es et @ replicate 32 0"
  shows "MessageHeader_try_from (with_macs C T g now msg) = Some (Inr HandshakeInit)"
    and "length (with_macs C T g now msg) = INIT_MSG_LENGTH" and "handshake_msg msg"
proof -
  note f = init_body_fields [OF len length_replicate msg]
  show m: "handshake_msg msg" using handshake_init_body [OF len, of "replicate 32 0"] msg by simp
  show "length (with_macs C T g now msg) = INIT_MSG_LENGTH"
    using length_with_macs [OF C g, of msg] f(1) by simp
  show "MessageHeader_try_from (with_macs C T g now msg) = Some (Inr HandshakeInit)"
    using header_init [OF f(1-3)] with_macs_handshake(2) [OF C g m] by simp
qed

lemma resp_message:
  assumes C: "crypto_ok C" and g: "Generator_ok g" and len: "length epk = 32" "length enc = 16"
    and msg: "msg = resp_body sender receiver epk enc @ replicate 32 0"
  shows "MessageHeader_try_from (with_macs C T g now msg) = Some (Inr (HandshakeResponse receiver))"
    and "length (with_macs C T g now msg) = RESP_MSG_LENGTH" and "handshake_msg msg"
proof -
  note f = resp_body_fields [OF len length_replicate msg]
  show m: "handshake_msg msg" using handshake_resp_body [OF len, of "replicate 32 0"] msg by simp
  show "length (with_macs C T g now msg) = RESP_MSG_LENGTH"
    using length_with_macs [OF C g, of msg] f(1) by simp
  show "MessageHeader_try_from (with_macs C T g now msg) = Some (Inr (HandshakeResponse receiver))"
    using header_resp [OF f(1-3)] with_macs_handshake(2) [OF C g m] f(5) by simp
qed

lemma Generator_ok_sent:
  assumes "crypto_ok C" and "Generator_ok g"
  shows "Generator_ok (g\<lparr>g_last_sent_mac1 := Some (mac1_for C g msg)\<rparr>)"
  using assms length_macs(1) [OF assms, of msg] by (simp add: Generator_ok_def)

lemma initiate_weak:
  assumes "crypto_ok C" and "148 \<le> length buf" and "\<not> was_contributory C (x25519_dh C eph peer_pk)"
  shows "\<exists>b. initiate C T our_private peer_pk sender eph ts g buf = Some (Inl HsFailed, g, b) \<and> length b = length buf"
proof -
  define b0 where "b0 = take 148 buf"
  have "subslice buf 0 148 = Some b0" "length b0 = 148"
    using assms(2) by (simp_all add: subslice_def sub_def b0_def)
  then show ?thesis using assms
    by (simp add: initiate_def Let_def fill_simps kdf_totals contributory_def length_public
      del: append_assoc append_Cons append_Nil)
qed

lemma initiate_total:
  assumes C: "crypto_ok C" and T: "tai_ok T" and g: "Generator_ok g"
  shows "\<exists>r g' b. initiate C T our_private peer_pk sender eph ts g buf = Some (r, g', b) \<and>
    Generator_ok g' \<and> length b = length buf \<and>
    (case r of
       Inr st \<Rightarrow> INIT_MSG_LENGTH \<le> length buf \<and> is_index_initiator st = sender \<and>
         MessageHeader_try_from (take INIT_MSG_LENGTH b) = Some (Inr HandshakeInit)
     | Inl _ \<Rightarrow> g' = g)"
proof -
  consider (short) "length buf < 148"
    | (weak) "148 \<le> length buf" "\<not> was_contributory C (x25519_dh C eph peer_pk)"
    | (ok) "148 \<le> length buf" "was_contributory C (x25519_dh C eph peer_pk)" by linarith
  then show ?thesis
  proof cases
    case short
    then show ?thesis using g by (simp add: initiate_def)
  next
    case weak
    then show ?thesis using initiate_weak [OF C] g by fastforce
  next
    case ok
    obtain es et c h where noise: "noise_init C peer_pk (x25519_public C eph) (x25519_dh C eph peer_pk)
        (x25519_dh C our_private peer_pk) (x25519_public C our_private) (tai_to_bytes T ts) = (es, et, c, h)"
      by (metis prod_cases4)
    note len = noise_init_lengths [OF C length_public [OF C] tai_bytes(1) [OF T] noise]
    define msg where "msg = init_body sender (x25519_public C eph) es et @ replicate 32 0"
    show ?thesis
      using initiate_eq [OF C T g _ ok(2) noise msg_def] ok(1) Generator_ok_sent [OF C g]
        init_message(1,2) [OF C g length_public [OF C] len(1,2) msg_def] by simp
  qed
qed

lemma respond_total:
  assumes C: "crypto_ok C" and g: "Generator_ok g"
  shows "\<exists>r g' b. respond C T st index eph psk ts g buf = Some (r, g', b) \<and>
    Generator_ok g' \<and> length b = length buf \<and>
    (case r of
       Inr re \<Rightarrow> RESP_MSG_LENGTH \<le> length buf \<and>
         re_our_index re = index \<and> re_peer_index re = ir_index_initiator st \<and>
         MessageHeader_try_from (take RESP_MSG_LENGTH b) = Some (Inr (HandshakeResponse (ir_index_initiator st)))
     | Inl e \<Rightarrow> length buf < RESP_MSG_LENGTH \<and> e = HsBufferTooSmall RESP_MSG_LENGTH \<and> g' = g \<and> b = buf)"
proof (cases "length buf < 92")
  case True
  then show ?thesis using g by (simp add: respond_def)
next
  case False
  then have buf: "RESP_MSG_LENGTH \<le> length buf" by simp
  obtain enc c where noise: "noise_resp C (ir_constr st) (ir_h st) (x25519_public C eph)
      (x25519_dh C eph (ir_ephemeral_public_initiator st)) (x25519_dh C eph (ir_peer_public st))
      (unwrap_or psk default_preshared_key) = (enc, c)" by fastforce
  define msg where
    "msg = resp_body index (ir_index_initiator st) (x25519_public C eph) enc @ replicate 32 0"
  show ?thesis
    using respond_eq [OF C g buf noise msg_def] buf Generator_ok_sent [OF C g]
      resp_message(1,2) [OF C g length_public [OF C] noise_resp_lengths(1) [OF C noise] msg_def]
    by simp
qed

lemma finish_eq:
  assumes C: "crypto_ok C" and "kdf2_out C c [] = (a, b)"
  shows "re_constr re = c \<Longrightarrow> finish_responder C re = Some (Transport_new (re_our_index re) (re_peer_index re) a b)"
    and "ie_constr ie = c \<Longrightarrow> finish_initiator C ie = Some (Transport_new (ie_our_index ie) (ie_peer_index ie) b a)"
    and "Transport_ok (Transport_new i j a b)" and "Transport_ok (Transport_new i j b a)"
  using assms(2) kdf2_total [OF C, of c "[]"]
  by (auto simp: finish_responder_def finish_initiator_def init_aead_def Transport_ok_def Transport_new_def)

lemma finish_total:
  assumes C: "crypto_ok C"
  shows "\<exists>t. finish_responder C re = Some t \<and> Transport_ok t \<and> t_send_counter t = 0 \<and>
      t_our_index t = re_our_index re \<and> t_peer_index t = re_peer_index re"
    and "\<exists>t. finish_initiator C ie = Some t \<and> Transport_ok t \<and> t_send_counter t = 0 \<and>
      t_our_index t = ie_our_index ie \<and> t_peer_index t = ie_peer_index ie"
proof -
  obtain a b where "kdf2_out C (re_constr re) [] = (a, b)" by fastforce
  from finish_eq [OF C this] show "\<exists>t. finish_responder C re = Some t \<and> Transport_ok t \<and> t_send_counter t = 0 \<and>
      t_our_index t = re_our_index re \<and> t_peer_index t = re_peer_index re"
    by (simp add: Transport_new_def)
  obtain a b where "kdf2_out C (ie_constr ie) [] = (a, b)" by fastforce
  from finish_eq [OF C this] show "\<exists>t. finish_initiator C ie = Some t \<and> Transport_ok t \<and> t_send_counter t = 0 \<and>
      t_our_index t = ie_our_index ie \<and> t_peer_index t = ie_peer_index ie"
    by (simp add: Transport_new_def)
qed

lemma response_received_indices:
  assumes "response_received C st our_private psk packet = Some (Inr ie, p)"
  shows "ie_our_index ie = is_index_initiator st"
  using assms by (auto simp: response_received_def Let_def split: if_splits bind_splits sum.splits prod.splits)

section \<open>The two messages\<close>

text \<open>
  After each message the two sides hold the same chaining key and transcript hash, and its mac1
  passes the check of any verifier with the key of the generator.
\<close>

definition authenticates :: "crypto \<Rightarrow> 'ts Generator \<Rightarrow> bytes \<Rightarrow> bool" where
  "authenticates C g m \<longleftrightarrow>
     (\<forall>v. Verifier_ok v \<longrightarrow> g_mac1_key g = v_mac1_key v \<longrightarrow> verify_mac_1 C v m = Some True)"

lemma with_macs_authenticates:
  "crypto_ok C \<Longrightarrow> Generator_ok g \<Longrightarrow> handshake_msg msg \<Longrightarrow> authenticates C g (with_macs C T g now msg)"
  by (simp add: authenticates_def with_macs_verify_1)

lemma first_message:
  assumes C: "crypto_ok C" and T: "tai_ok T" and g: "Generator_ok g" and buf: "INIT_MSG_LENGTH \<le> length buf"
    and es: "was_contributory C (x25519_dh C eph_i (x25519_public C priv_r))"
    and ss: "was_contributory C (x25519_dh C priv_i (x25519_public C priv_r))"
  obtains g' m p c h where
    "initiate C T priv_i (x25519_public C priv_r) i eph_i ts g buf =
      Some (Inr \<lparr>is_index_initiator = i, is_ephemeral_secret_initiator = eph_i, is_constr = c, is_h = h\<rparr>,
        g', m @ drop INIT_MSG_LENGTH buf)"
    "MessageHeader_try_from m = Some (Inr HandshakeInit)"
    "receive C T priv_r m = Some (Inr \<lparr>ir_peer_public = x25519_public C priv_i,
      ir_ephemeral_public_initiator = x25519_public C eph_i, ir_index_initiator = i, ir_timestamp = ts,
      ir_constr = c, ir_h = h\<rparr>, p)"
    "authenticates C g m" "take 8 m = type_byte MT_HandshakeInit # replicate 3 0 @ le_bytes i"
proof -
  let ?pk = "x25519_public C" and ?dh = "x25519_dh C"
  note pk = length_public [OF C] and dh = dh_commute [OF C]
  obtain s t c h where noise: "noise_init C (?pk priv_r) (?pk eph_i) (?dh eph_i (?pk priv_r))
      (?dh priv_i (?pk priv_r)) (?pk priv_i) (tai_to_bytes T ts) = (s, t, c, h)"
    by (metis prod_cases4)
  have noise': "noise_init C (?pk priv_r) (?pk eph_i) (?dh priv_r (?pk eph_i))
      (?dh priv_r (?pk priv_i)) (?pk priv_i) (tai_to_bytes T ts) = (s, t, c, h)"
    using noise by (simp add: dh)
  note len = noise_init_lengths [OF C pk tai_bytes(1) [OF T] noise]
  define msg where "msg = init_body i (?pk eph_i) s t @ replicate 32 0"
  obtain macs where m: "with_macs C T g ts msg = init_body i (?pk eph_i) s t @ macs" "length macs = 32"
    using with_macs_body [OF C g] unfolding msg_def by blast
  obtain p where "receive C T priv_r (with_macs C T g ts msg) = Some (Inr \<lparr>ir_peer_public = ?pk priv_i,
      ir_ephemeral_public_initiator = ?pk eph_i, ir_index_initiator = i, ir_timestamp = ts,
      ir_constr = c, ir_h = h\<rparr>, p)"
    using receive_eq [OF C tai_bytes(2) [OF T] tai_bytes(1) [OF T] pk pk m(2) _ _ noise'] es ss
    unfolding m(1) by (fastforce simp: dh)
  moreover have "take 8 (with_macs C T g ts msg) = type_byte MT_HandshakeInit # replicate 3 0 @ le_bytes i"
    unfolding m(1) by (simp add: init_body_def)
  ultimately show thesis
    using that initiate_eq [OF C T g buf es noise msg_def]
      init_message(1) [OF C g pk len(1,2) msg_def, of T ts] init_message(3) [OF C g pk len(1,2) msg_def] with_macs_authenticates [OF C g] by blast
qed

lemma second_message:
  assumes C: "crypto_ok C" and g: "Generator_ok g" and buf: "RESP_MSG_LENGTH \<le> length buf"
    and ee: "was_contributory C (x25519_dh C eph_i (x25519_public C eph_r))"
    and st: "is_index_initiator st = i" "is_ephemeral_secret_initiator st = eph_i"
      "is_constr st = c" "is_h st = h"
    and rcv: "ir_peer_public rcv = x25519_public C priv_i" "ir_ephemeral_public_initiator rcv = x25519_public C eph_i"
      "ir_index_initiator rcv = i" "ir_constr rcv = c" "ir_h rcv = h"
  obtains g' m p k where
    "respond C T rcv j eph_r psk ts g buf =
      Some (Inr \<lparr>re_our_index = j, re_peer_index = i, re_constr = k\<rparr>, g', m @ drop RESP_MSG_LENGTH buf)"
    "MessageHeader_try_from m = Some (Inr (HandshakeResponse i))"
    "response_received C st priv_i psk m =
      Some (Inr \<lparr>ie_our_index = i, ie_peer_index = j, ie_constr = k\<rparr>, p)"
    "authenticates C g m" "take 12 m = type_byte MT_HandshakeResp # replicate 3 0 @ le_bytes j @ le_bytes i"
proof -
  let ?pk = "x25519_public C" and ?dh = "x25519_dh C"
  note pk = length_public [OF C] and dh = dh_commute [OF C]
  obtain e k where noise: "noise_resp C c h (?pk eph_r) (?dh eph_r (?pk eph_i)) (?dh eph_r (?pk priv_i))
      (unwrap_or psk default_preshared_key) = (e, k)" by fastforce
  have noise': "noise_resp C (is_constr st) (is_h st) (?pk eph_r)
      (?dh (is_ephemeral_secret_initiator st) (?pk eph_r)) (?dh priv_i (?pk eph_r))
      (unwrap_or psk default_preshared_key) = (e, k)"
    using noise by (simp add: st dh)
  define msg where "msg = resp_body j i (?pk eph_r) e @ replicate 32 0"
  obtain macs where m: "with_macs C T g ts msg = resp_body j i (?pk eph_r) e @ macs" "length macs = 32"
    using with_macs_body [OF C g] unfolding msg_def by blast
  obtain p where "response_received C st priv_i psk (with_macs C T g ts msg) =
      Some (Inr \<lparr>ie_our_index = i, ie_peer_index = j, ie_constr = k\<rparr>, p)"
    using response_received_eq [OF C pk m(2) _ noise', of j] ee unfolding m(1) by (auto simp: st)
  moreover have "\<exists>g'. respond C T rcv j eph_r psk ts g buf = Some (Inr \<lparr>re_our_index = j,
      re_peer_index = i, re_constr = k\<rparr>, g', with_macs C T g ts msg @ drop RESP_MSG_LENGTH buf)"
    using respond_eq [OF C g buf, of rcv eph_r psk e k msg j T ts] noise by (simp add: rcv msg_def)
  moreover have "take 12 (with_macs C T g ts msg) = type_byte MT_HandshakeResp # replicate 3 0 @ le_bytes j @ le_bytes i"
    unfolding m(1) by (simp add: resp_body_def)
  ultimately show thesis
    using that resp_message(1) [OF C g pk noise_resp_lengths(1) [OF C noise] msg_def, of T ts]
      resp_message(3) [OF C g pk noise_resp_lengths(1) [OF C noise] msg_def] with_macs_authenticates [OF C g] by blast
qed

section \<open>Properties\<close>

text \<open>
  C1: a complete handshake between two peers establishes one session. The responder reads from the
  initiator's message its static public key, timestamp and index; the initiator accepts the
  response; and the two derived transports are the two ends of one session: each sends under the key
  the other receives with, and each addresses the index the other chose. Both messages parse as what
  they are. The hypotheses are the sizes of the output buffers and that the three Diffie-Hellman
  results the code checks are contributory.
\<close>

theorem handshake_agreement:
  assumes C: "crypto_ok C" and T: "tai_ok T" and g: "Generator_ok gi" "Generator_ok gr"
    and bufs: "INIT_MSG_LENGTH \<le> length buf1" "RESP_MSG_LENGTH \<le> length buf2"
    and es: "was_contributory C (x25519_dh C eph_i (x25519_public C priv_r))"
    and ss: "was_contributory C (x25519_dh C priv_i (x25519_public C priv_r))"
    and ee: "was_contributory C (x25519_dh C eph_i (x25519_public C eph_r))"
  shows "\<exists>st gi' m1 rcv p1 re gr' m2 ie p2 ti tr.
    initiate C T priv_i (x25519_public C priv_r) i eph_i ts gi buf1 =
      Some (Inr st, gi', m1 @ drop INIT_MSG_LENGTH buf1) \<and>
    MessageHeader_try_from m1 = Some (Inr HandshakeInit) \<and>
    receive C T priv_r m1 = Some (Inr rcv, p1) \<and>
    ir_peer_public rcv = x25519_public C priv_i \<and> ir_timestamp rcv = ts \<and> ir_index_initiator rcv = i \<and>
    respond C T rcv j eph_r psk ts' gr buf2 = Some (Inr re, gr', m2 @ drop RESP_MSG_LENGTH buf2) \<and>
    MessageHeader_try_from m2 = Some (Inr (HandshakeResponse i)) \<and>
    response_received C st priv_i psk m2 = Some (Inr ie, p2) \<and>
    finish_initiator C ie = Some ti \<and> finish_responder C re = Some tr \<and>
    Transport_ok ti \<and> Transport_ok tr \<and>
    t_our_index ti = i \<and> t_peer_index ti = j \<and> t_our_index tr = j \<and> t_peer_index tr = i \<and>
    t_send_aead ti = t_recv_aead tr \<and> t_send_aead tr = t_recv_aead ti \<and>
    t_send_counter ti = 0 \<and> t_send_counter tr = 0"
proof -
  obtain gi' m1 p1 c h where 1: "initiate C T priv_i (x25519_public C priv_r) i eph_i ts gi buf1 =
      Some (Inr \<lparr>is_index_initiator = i, is_ephemeral_secret_initiator = eph_i, is_constr = c, is_h = h\<rparr>,
        gi', m1 @ drop INIT_MSG_LENGTH buf1)" "MessageHeader_try_from m1 = Some (Inr HandshakeInit)"
    "receive C T priv_r m1 = Some (Inr \<lparr>ir_peer_public = x25519_public C priv_i,
      ir_ephemeral_public_initiator = x25519_public C eph_i, ir_index_initiator = i, ir_timestamp = ts,
      ir_constr = c, ir_h = h\<rparr>, p1)" (is "_ = Some (Inr ?rcv, _)")
    by (rule first_message [OF C T g(1) bufs(1) es ss]) (rule that)
  let ?st = "\<lparr>is_index_initiator = i, is_ephemeral_secret_initiator = eph_i, is_constr = c, is_h = h\<rparr>"
  obtain gr' m2 p2 k where 2: "respond C T ?rcv j eph_r psk ts' gr buf2 =
      Some (Inr \<lparr>re_our_index = j, re_peer_index = i, re_constr = k\<rparr>, gr', m2 @ drop RESP_MSG_LENGTH buf2)"
    "MessageHeader_try_from m2 = Some (Inr (HandshakeResponse i))"
    "response_received C ?st priv_i psk m2 =
      Some (Inr \<lparr>ie_our_index = i, ie_peer_index = j, ie_constr = k\<rparr>, p2)"
    by (rule second_message [OF C g(2) bufs(2) ee, of ?st i c h ?rcv priv_i T j psk ts']) (simp_all add: that)
  obtain a b where keys: "kdf2_out C k [] = (a, b)" by fastforce
  note fin = finish_eq [OF C keys]
  have "finish_initiator C \<lparr>ie_our_index = i, ie_peer_index = j, ie_constr = k\<rparr> = Some (Transport_new i j b a)"
    "finish_responder C \<lparr>re_our_index = j, re_peer_index = i, re_constr = k\<rparr> = Some (Transport_new j i a b)"
    by (simp_all add: fin(1,2))
  then show ?thesis using 1 2 fin(3) [of j i] fin(4) [of i j]
    by (fastforce simp: Transport_new_def)
qed

theorem handshake_agreement_witness:
  "\<exists>st gi' m1 rcv p1 re gr' m2 ie p2 ti tr.
    initiate ex_crypto ex_tai (ex_key 1) (x25519_public ex_crypto (ex_key 2)) 11 (ex_key 4) 99
      (Generator_new ex_crypto (x25519_public ex_crypto (ex_key 2))) (replicate 148 0) =
      Some (Inr st, gi', m1 @ drop INIT_MSG_LENGTH (replicate 148 0)) \<and>
    receive ex_crypto ex_tai (ex_key 2) m1 = Some (Inr rcv, p1) \<and> ir_timestamp rcv = 99 \<and>
    respond ex_crypto ex_tai rcv 22 (ex_key 8) None 100
      (Generator_new ex_crypto (x25519_public ex_crypto (ex_key 1))) (replicate 92 0) =
      Some (Inr re, gr', m2 @ drop RESP_MSG_LENGTH (replicate 92 0)) \<and>
    response_received ex_crypto st (ex_key 1) None m2 = Some (Inr ie, p2) \<and>
    finish_initiator ex_crypto ie = Some ti \<and> finish_responder ex_crypto re = Some tr \<and>
    t_send_aead ti = t_recv_aead tr \<and> t_send_aead tr = t_recv_aead ti"
  using handshake_agreement [OF ex_crypto_ok ex_tai_ok
      Generator_ok_new [OF ex_crypto_ok, of "x25519_public ex_crypto (ex_key 2)"]
      Generator_ok_new [OF ex_crypto_ok, of "x25519_public ex_crypto (ex_key 1)"],
      where ?buf1.0 = "replicate 148 0" and ?buf2.0 = "replicate 92 0" and eph_i = "ex_key 4"
        and priv_r = "ex_key 2" and priv_i = "ex_key 1" and eph_r = "ex_key 8" and i = 11 and ts = 99
        and j = 22 and psk = None and ts' = 100]
  by (simp del: drop_replicate) blast

end
