(* ===== verification/Peer.thy ===== *)
theory Peer
  imports Runs Session Handshake Net "HOL-Library.Multiset"
begin

text \<open>
  The per-peer protocol state of \<open>protocol/src/peer.rs\<close>: pending handshake, session rotation,
  replay windows and endpoint roaming, behind the operations a driver calls.
\<close>

section \<open>State\<close>

datatype PeerError =
    PeUnexpected | PeHandshake | PeInvalid | PeReplay | PeExpired | PeNoEndpoint | PeNoSession
  | PeCounterExhausted | PeBufferTooSmall nat | PeStaleTimestamp | PeCookie

record 'ts HandshakeValues =
  hv_index :: u32
  hv_ephemeral_secret :: bytes
  hv_timestamp :: 'ts

record Recv =
  rv_payload_len :: nat
  rv_confirmed :: bool
  rv_unmapped :: "u32 option"

record PendingHandshake =
  ph_state :: InitSent
  ph_our_index :: u32

record 'ts Peer =
  p_peer_key :: bytes
  p_endpoint :: "SocketAddr option"
  p_cookie_generator :: "'ts Generator"
  p_preshared_key :: "bytes option"
  p_last_handshake_timestamp :: "'ts option"
  p_pending :: "PendingHandshake option"
  p_current :: "Session option"
  p_next :: "Session option"
  p_previous :: "Session option"

section \<open>Operations\<close>

definition Peer_new :: "crypto \<Rightarrow> bytes \<Rightarrow> 'ts Peer" where
  "Peer_new C peer_key =
     \<lparr>p_peer_key = peer_key, p_endpoint = None, p_cookie_generator = Generator_new C peer_key,
      p_preshared_key = None, p_last_handshake_timestamp = None, p_pending = None, p_current = None,
      p_next = None, p_previous = None\<rparr>"

definition set_preshared_key :: "'ts Peer \<Rightarrow> bytes option \<Rightarrow> 'ts Peer" where
  "set_preshared_key p preshared_key = p\<lparr>p_preshared_key := preshared_key\<rparr>"

definition set_endpoint :: "'ts Peer \<Rightarrow> SocketAddr \<Rightarrow> 'ts Peer" where
  "set_endpoint p endpoint = p\<lparr>p_endpoint := Some endpoint\<rparr>"

definition Peer_initiate ::
  "crypto \<Rightarrow> 'ts tai \<Rightarrow> 'ts Peer \<Rightarrow> bytes \<Rightarrow> 'ts HandshakeValues \<Rightarrow> bytes \<Rightarrow>
     ((PeerError + u32 option) \<times> 'ts Peer \<times> bytes) option" where
  "Peer_initiate C T p our_key values out =
     (if length out < INIT_MSG_LENGTH then Some (Inl (PeBufferTooSmall INIT_MSG_LENGTH), p, out)
      else do {
        (r, g, out) \<leftarrow> initiate C T our_key (p_peer_key p) (hv_index values) (hv_ephemeral_secret values)
          (hv_timestamp values) (p_cookie_generator p) out;
        let p = p\<lparr>p_cookie_generator := g\<rparr>;
        case r of
          Inl _ \<Rightarrow> Some (Inl PeHandshake, p, out)
        | Inr state \<Rightarrow> Some (Inr (map_option ph_our_index (p_pending p)),
            p\<lparr>p_pending := Some \<lparr>ph_state = state, ph_our_index = hv_index values\<rparr>\<rparr>, out)
      })"

definition abandon_handshake :: "'ts Peer \<Rightarrow> u32 option \<times> 'ts Peer" where
  "abandon_handshake p = (map_option ph_our_index (p_pending p), p\<lparr>p_pending := None\<rparr>)"

definition Peer_respond ::
  "crypto \<Rightarrow> ('ts::linorder) tai \<Rightarrow> 'ts Peer \<Rightarrow> Instant \<Rightarrow> 'ts InitReceived \<Rightarrow> 'ts HandshakeValues \<Rightarrow>
     SocketAddr \<Rightarrow> bytes \<Rightarrow> ((PeerError + u32 option) \<times> 'ts Peer \<times> bytes) option" where
  "Peer_respond C T p now handshake values source out =
     (let received_timestamp = ir_timestamp handshake in
      if is_some_and (p_last_handshake_timestamp p) (\<lambda>last. received_timestamp \<le> last)
      then Some (Inl PeStaleTimestamp, p, out)
      else if length out < RESP_MSG_LENGTH then Some (Inl (PeBufferTooSmall RESP_MSG_LENGTH), p, out)
      else do {
        (r, g, out) \<leftarrow> respond C T handshake (hv_index values) (hv_ephemeral_secret values)
          (p_preshared_key p) (hv_timestamp values) (p_cookie_generator p) out;
        let p = p\<lparr>p_cookie_generator := g\<rparr>;
        case r of
          Inl _ \<Rightarrow> Some (Inl PeHandshake, p, out)
        | Inr established \<Rightarrow> do {
            transport \<leftarrow> finish_responder C established;
            let p = p\<lparr>p_last_handshake_timestamp := Some received_timestamp, p_endpoint := Some source\<rparr>;
            Some (Inr (map_option Session_our_index (p_next p)),
              p\<lparr>p_next := Some (Session_new transport now)\<rparr>, out)
          }
      })"

definition adopt_current :: "'ts Peer \<Rightarrow> Session \<Rightarrow> SocketAddr \<Rightarrow> u32 option \<times> 'ts Peer" where
  "adopt_current p session endpoint =
     (map_option Session_our_index (p_previous p),
      p\<lparr>p_previous := p_current p, p_current := Some session, p_endpoint := Some endpoint\<rparr>)"

definition handshake_response ::
  "crypto \<Rightarrow> 'ts Peer \<Rightarrow> bytes \<Rightarrow> Instant \<Rightarrow> bytes \<Rightarrow> SocketAddr \<Rightarrow>
     ((PeerError + u32 option) \<times> 'ts Peer \<times> bytes) option" where
  "handshake_response C p our_key now packet source =
     (case p_pending p of
        None \<Rightarrow> Some (Inl PeUnexpected, p, packet)
      | Some pending \<Rightarrow> do {
          (r, packet) \<leftarrow> response_received C (ph_state pending) our_key (p_preshared_key p) packet;
          case r of
            Inl _ \<Rightarrow> Some (Inl PeHandshake, p, packet)
          | Inr established \<Rightarrow> do {
              transport \<leftarrow> finish_initiator C established;
              let (retired, p) = adopt_current (p\<lparr>p_pending := None\<rparr>) (Session_new transport now) source;
              Some (Inr retired, p, packet)
            }
        })"

definition cookie_reply ::
  "crypto \<Rightarrow> 'ts Peer \<Rightarrow> bytes \<Rightarrow> 'ts \<Rightarrow> ((PeerError + unit) \<times> 'ts Peer) option" where
  "cookie_reply C p reply timestamp = do {
     (r, g) \<leftarrow> process_cookie_reply C (p_cookie_generator p) reply timestamp;
     Some (map_err (\<lambda>_. PeCookie) r, p\<lparr>p_cookie_generator := g\<rparr>)
   }"

fun transport_error :: "TransportError \<Rightarrow> PeerError" where
  "transport_error TrCounterExhausted = PeCounterExhausted"
| "transport_error (TrBufferTooSmall required) = PeBufferTooSmall required"
| "transport_error TrInvalidPacket = PeInvalid"

definition encrypt ::
  "crypto \<Rightarrow> 'ts Peer \<Rightarrow> Instant \<Rightarrow> bytes \<Rightarrow> bytes \<Rightarrow> ((PeerError + nat) \<times> 'ts Peer \<times> bytes) option" where
  "encrypt C p now payload out =
     (if p_endpoint p = None then Some (Inl PeNoEndpoint, p, out)
      else case p_current p of
        None \<Rightarrow> Some (Inl PeNoSession, p, out)
      | Some session \<Rightarrow>
          if Session_expired session now then Some (Inl PeExpired, p, out) else do {
            (r, session, out) \<leftarrow> Session_send C session payload out;
            Some (map_err transport_error r, p\<lparr>p_current := Some session\<rparr>, out)
          })"

definition Peer_rekey_due_to_messages :: "'ts Peer \<Rightarrow> bool" where
  "Peer_rekey_due_to_messages p = is_some_and (p_current p) Session_rekey_due_to_messages"

text \<open>The session a packet is for: \<open>next\<close> before \<open>current\<close> before \<open>previous\<close>.\<close>

datatype slot = Next | Current | Previous

fun get_slot :: "'ts Peer \<Rightarrow> slot \<Rightarrow> Session option" where
  "get_slot p Next = p_next p"
| "get_slot p Current = p_current p"
| "get_slot p Previous = p_previous p"

fun set_slot :: "'ts Peer \<Rightarrow> slot \<Rightarrow> Session \<Rightarrow> 'ts Peer" where
  "set_slot p Next s = p\<lparr>p_next := Some s\<rparr>"
| "set_slot p Current s = p\<lparr>p_current := Some s\<rparr>"
| "set_slot p Previous s = p\<lparr>p_previous := Some s\<rparr>"

definition slot_for :: "'ts Peer \<Rightarrow> u32 \<Rightarrow> slot option" where
  "slot_for p receiver =
     (let matches = (\<lambda>s. is_some_and s (\<lambda>session. Session_our_index session = receiver)) in
      if matches (p_next p) then Some Next
      else if matches (p_current p) then Some Current
      else if matches (p_previous p) then Some Previous
      else None)"

fun receive_error :: "SessionReceiveError \<Rightarrow> PeerError" where
  "receive_error SessInvalid = PeInvalid"
| "receive_error SessReplay = PeReplay"

definition decrypt ::
  "crypto \<Rightarrow> 'ts Peer \<Rightarrow> Instant \<Rightarrow> u32 \<Rightarrow> bytes \<Rightarrow> SocketAddr \<Rightarrow>
     ((PeerError + Recv) \<times> 'ts Peer \<times> bytes) option" where
  "decrypt C p now receiver packet source =
     (case slot_for p receiver of
        None \<Rightarrow> Some (Inl PeUnexpected, p, packet)
      | Some sl \<Rightarrow> do {
          session \<leftarrow> get_slot p sl;
          if Session_expired session now then Some (Inl PeExpired, p, packet) else do {
            (r, session, packet) \<leftarrow> Session_receive C session packet;
            let p = set_slot p sl session;
            case r of
              Inl e \<Rightarrow> Some (Inl (receive_error e), p, packet)
            | Inr payload_len \<Rightarrow> do {
                let p = p\<lparr>p_endpoint := Some source\<rparr>;
                (unmapped, p) \<leftarrow>
                  (if sl = Next then do {
                     session \<leftarrow> p_next p;
                     Some (adopt_current (p\<lparr>p_next := None\<rparr>) session source)
                   } else Some (None, p));
                Some (Inr \<lparr>rv_payload_len = payload_len, rv_confirmed = (sl = Next), rv_unmapped = unmapped\<rparr>,
                  p, packet)
              }
          }
        })"

section \<open>Invariant and receiver indices\<close>

definition opt_mset :: "'a option \<Rightarrow> 'a multiset" where
  "opt_mset x = (case x of None \<Rightarrow> {#} | Some a \<Rightarrow> {#a#})"

lemma opt_mset_simps [simp]: "opt_mset None = {#}" "opt_mset (Some a) = {#a#}"
  by (simp_all add: opt_mset_def)

text \<open>The receiver indices that route to the peer: one per pending handshake and session it holds.\<close>

definition indices :: "'ts Peer \<Rightarrow> u32 multiset" where
  "indices p = opt_mset (map_option ph_our_index (p_pending p)) + opt_mset (map_option Session_our_index (p_current p)) +
     opt_mset (map_option Session_our_index (p_next p)) + opt_mset (map_option Session_our_index (p_previous p))"

definition Peer_ok :: "'ts Peer \<Rightarrow> bool" where
  "Peer_ok p \<longleftrightarrow> Generator_ok (p_cookie_generator p) \<and>
     (\<forall>sl s. get_slot p sl = Some s \<longrightarrow> Session_ok s \<and> p_endpoint p \<noteq> None) \<and>
     (\<forall>ph. p_pending p = Some ph \<longrightarrow> is_index_initiator (ph_state ph) = ph_our_index ph)"

lemma all_slots: "(\<forall>sl. P sl) \<longleftrightarrow> P Next \<and> P Current \<and> P Previous"
  by (metis slot.exhaust)

lemmas peer_inv = Peer_ok_def all_slots indices_def

lemma Peer_ok_new: "crypto_ok C \<Longrightarrow> Peer_ok (Peer_new C key)"
  by (simp add: peer_inv Peer_new_def Generator_ok_new)

text \<open>What an operation leaves alone.\<close>

definition same_sessions :: "'ts Peer \<Rightarrow> 'ts Peer \<Rightarrow> bool" where
  "same_sessions p q \<longleftrightarrow> p_endpoint q = p_endpoint p \<and> (\<forall>sl. get_slot q sl = get_slot p sl) \<and>
     p_last_handshake_timestamp q = p_last_handshake_timestamp p"

lemma same_sessions_refl [simp]: "same_sessions p p"
  by (simp add: same_sessions_def)

lemma Peer_initiate_total:
  assumes C: "crypto_ok C" and T: "tai_ok T" and p: "Peer_ok p"
  shows "\<exists>r p' b. Peer_initiate C T p our_key values out = Some (r, p', b) \<and> Peer_ok p' \<and>
    length b = length out \<and>
    same_sessions p p' \<and>
    (case r of
       Inr retired \<Rightarrow> indices p' + opt_mset retired = indices p + {#hv_index values#} \<and>
         INIT_MSG_LENGTH \<le> length out \<and>
         MessageHeader_try_from (take INIT_MSG_LENGTH b) = Some (Inr HandshakeInit)
     | Inl _ \<Rightarrow> indices p' = indices p)"
proof (cases "length out < INIT_MSG_LENGTH")
  case True
  then show ?thesis using p by (simp add: Peer_initiate_def)
next
  case False
  have g: "Generator_ok (p_cookie_generator p)" using p by (simp add: Peer_ok_def)
  obtain r g' b where i: "initiate C T our_key (p_peer_key p) (hv_index values) (hv_ephemeral_secret values)
      (hv_timestamp values) (p_cookie_generator p) out = Some (r, g', b)" "Generator_ok g'" "length b = length out"
    and st: "case r of Inr st \<Rightarrow> INIT_MSG_LENGTH \<le> length out \<and> is_index_initiator st = hv_index values \<and>
        MessageHeader_try_from (take INIT_MSG_LENGTH b) = Some (Inr HandshakeInit)
      | Inl _ \<Rightarrow> g' = p_cookie_generator p"
    using initiate_total [OF C T g] by blast
  show ?thesis
  proof (cases r)
    case (Inl e)
    then show ?thesis using i False p by (auto simp: Peer_initiate_def peer_inv same_sessions_def)
  next
    case (Inr st)
    then show ?thesis using i False p st by (auto simp: Peer_initiate_def peer_inv same_sessions_def add_ac)
  qed
qed

lemma Peer_respond_total:
  assumes C: "crypto_ok C" and p: "Peer_ok p"
  shows "\<exists>r p' b. Peer_respond C T p now hs values source out = Some (r, p', b) \<and> Peer_ok p' \<and>
    length b = length out \<and>
    (case r of
       Inr retired \<Rightarrow> indices p' + opt_mset retired = indices p + {#hv_index values#} \<and>
         \<not> is_some_and (p_last_handshake_timestamp p) (\<lambda>last. ir_timestamp hs \<le> last) \<and>
         p_last_handshake_timestamp p' = Some (ir_timestamp hs) \<and> p_endpoint p' = Some source \<and>
         p_current p' = p_current p \<and> RESP_MSG_LENGTH \<le> length out \<and>
         MessageHeader_try_from (take RESP_MSG_LENGTH b) =
           Some (Inr (HandshakeResponse (ir_index_initiator hs)))
     | Inl _ \<Rightarrow> p' = p \<and> (length out < RESP_MSG_LENGTH \<or>
         is_some_and (p_last_handshake_timestamp p) (\<lambda>last. ir_timestamp hs \<le> last)))"
proof (cases "is_some_and (p_last_handshake_timestamp p) (\<lambda>last. ir_timestamp hs \<le> last) \<or>
    length out < RESP_MSG_LENGTH")
  case True
  then show ?thesis using p by (auto simp: Peer_respond_def Let_def)
next
  case False
  have g: "Generator_ok (p_cookie_generator p)" using p by (simp add: Peer_ok_def)
  obtain r0 g' b where r0: "respond C T hs (hv_index values) (hv_ephemeral_secret values) (p_preshared_key p)
      (hv_timestamp values) (p_cookie_generator p) out = Some (r0, g', b)" "Generator_ok g'"
      "length b = length out"
      "case r0 of
         Inr re \<Rightarrow> RESP_MSG_LENGTH \<le> length out \<and> re_our_index re = hv_index values \<and>
           re_peer_index re = ir_index_initiator hs \<and>
           MessageHeader_try_from (take RESP_MSG_LENGTH b) = Some (Inr (HandshakeResponse (ir_index_initiator hs)))
       | Inl e \<Rightarrow> length out < RESP_MSG_LENGTH \<and> e = HsBufferTooSmall RESP_MSG_LENGTH \<and>
           g' = p_cookie_generator p \<and> b = out"
    using respond_total [OF C g, of T hs "hv_index values" "hv_ephemeral_secret values" "p_preshared_key p"
        "hv_timestamp values" out] by blast
  then obtain re where "r0 = Inr re" using False by (cases r0) auto
  note r = r0 [unfolded this sum.case]
  obtain t where t: "finish_responder C re = Some t" "Transport_ok t" "t_send_counter t = 0"
      "t_our_index t = re_our_index re"
    using finish_total(1) [OF C] by blast
  have "Session_ok (Session_new t now)" "Session_our_index (Session_new t now) = hv_index values"
    using Session_ok_new [OF t(2,3)] t(4) r(4) by (simp_all add: Session_our_index_def Session_new_def)
  then show ?thesis
    using r t(1) False p by (auto simp: Peer_respond_def Let_def peer_inv add_ac)
qed

lemma adopt_current_ok:
  assumes "Peer_ok p" and "Session_ok s" and "adopt_current p s source = (retired, p')"
  shows "Peer_ok p'" and "indices p' + opt_mset retired = indices p + {#Session_our_index s#}"
  using assms by (auto simp: adopt_current_def peer_inv add_ac)

lemma handshake_response_total:
  assumes C: "crypto_ok C" and p: "Peer_ok p"
  shows "\<exists>r p' b. handshake_response C p our_key now packet source = Some (r, p', b) \<and> Peer_ok p' \<and>
    length b = length packet \<and> p_last_handshake_timestamp p' = p_last_handshake_timestamp p \<and>
    (case r of
       Inr retired \<Rightarrow> indices p' + opt_mset retired = indices p \<and> p_pending p \<noteq> None \<and> p_pending p' = None \<and>
         p_endpoint p' = Some source \<and> p_previous p' = p_current p \<and> p_next p' = p_next p \<and>
         (\<exists>s. p_current p' = Some s \<and> s_established s = now)
     | Inl _ \<Rightarrow> p' = p)"
proof (cases "p_pending p")
  case None
  then show ?thesis using p by (simp add: handshake_response_def)
next
  case (Some ph)
  obtain r b where rr: "response_received C (ph_state ph) our_key (p_preshared_key p) packet = Some (r, b)"
      "length b = length packet"
    using response_received_total [OF C] by blast
  show ?thesis
  proof (cases r)
    case (Inl e)
    then show ?thesis using Some rr p by (simp add: handshake_response_def)
  next
    case (Inr ie)
    obtain t where t: "finish_initiator C ie = Some t" "Transport_ok t" "t_send_counter t = 0"
        "t_our_index t = ie_our_index ie"
      using finish_total(2) [OF C] by blast
    let ?s = "Session_new t now" and ?p = "p\<lparr>p_pending := None\<rparr>"
    obtain ret p' where a: "adopt_current ?p ?s source = (ret, p')" by fastforce
    have "Session_our_index ?s = ph_our_index ph"
      using response_received_indices [of C "ph_state ph"] rr(1) Inr t(4) p Some
      by (simp add: Session_our_index_def Session_new_def Peer_ok_def)
    moreover have "Peer_ok ?p" "indices p = indices ?p + {#ph_our_index ph#}"
      using p Some by (auto simp: peer_inv add_ac)
    ultimately have "Peer_ok p'" "indices p' + opt_mset ret = indices p"
      using adopt_current_ok [OF _ Session_ok_new [OF t(2,3)] a] by auto
    then show ?thesis using Some rr Inr t(1) a
      by (auto simp: handshake_response_def adopt_current_def Session_new_def)
  qed
qed

lemma cookie_reply_total:
  assumes "crypto_ok C" and "Peer_ok p"
  shows "\<exists>r p'. cookie_reply C p reply ts = Some (r, p') \<and> Peer_ok p' \<and> indices p' = indices p \<and>
    same_sessions p p' \<and> p_pending p' = p_pending p"
proof -
  have "Generator_ok (p_cookie_generator p)" using assms(2) by (simp add: Peer_ok_def)
  from process_cookie_reply_total [OF assms(1) this, of reply ts]
  show ?thesis using assms(2) by (auto simp: cookie_reply_def peer_inv same_sessions_def)
qed

lemma encrypt_total:
  assumes C: "crypto_ok C" and p: "Peer_ok p" and len: "length payload < AEAD_P_MAX"
  shows "\<exists>r p' b. encrypt C p now payload out = Some (r, p', b) \<and> Peer_ok p' \<and> length b = length out \<and>
    indices p' = indices p \<and> p_endpoint p' = p_endpoint p \<and>
    p_last_handshake_timestamp p' = p_last_handshake_timestamp p \<and> p_pending p' = p_pending p \<and>
    (case r of
       Inr n \<Rightarrow> n = packet_len (length payload) \<and> n \<le> length out \<and>
         (\<exists>s. p_current p = Some s \<and> \<not> Session_expired s now)
     | Inl e \<Rightarrow> p' = p \<and> b = out)"
proof (cases "p_endpoint p = None")
  case True
  then show ?thesis using p by (simp add: encrypt_def)
next
  case False
  show ?thesis
  proof (cases "p_current p")
    case None
    then show ?thesis using p False by (simp add: encrypt_def)
  next
    case (Some s)
    show ?thesis
    proof (cases "Session_expired s now")
      case True
      then show ?thesis using p False Some by (simp add: encrypt_def)
    next
      case fresh: False
      have "Session_ok s" using p Some by (simp add: Peer_ok_def all_slots)
      from Session_send_total [OF C this len, of out]
      obtain r s' b where send: "Session_send C s payload out = Some (r, s', b)" "Session_ok s'"
        "length b = length out" "Session_our_index s' = Session_our_index s"
        "case r of Inr n \<Rightarrow> n = packet_len (length payload) \<and> n \<le> length out
         | Inl e \<Rightarrow> s' = s \<and> b = out \<and>
             (e = TrCounterExhausted \<or> e = TrBufferTooSmall (packet_len (length payload)))"
        by blast
      show ?thesis using send fresh False Some p
        by (cases r) (auto simp: encrypt_def peer_inv)
    qed
  qed
qed

lemma slot_for_Some:
  "slot_for p receiver = Some sl \<Longrightarrow> \<exists>s. get_slot p sl = Some s \<and> Session_our_index s = receiver"
  by (auto simp: slot_for_def Let_def is_some_and_iff split: if_splits)

lemma set_slot_ok:
  assumes "Peer_ok p" and "get_slot p sl = Some s" and "Session_ok s'" and "Session_our_index s' = Session_our_index s"
  shows "Peer_ok (set_slot p sl s')" and "indices (set_slot p sl s') = indices p"
  using assms by (cases sl; auto simp: peer_inv)+

lemma set_slot_fields [simp]:
  "p_endpoint (set_slot p sl s) = p_endpoint p" "p_pending (set_slot p sl s) = p_pending p"
  "p_last_handshake_timestamp (set_slot p sl s) = p_last_handshake_timestamp p"
  "get_slot (set_slot p sl s) sl = Some s"
  by (cases sl; simp)+

lemma adopt_next_ok:
  assumes "Peer_ok q" and "p_next q = Some s" and "Session_ok s"
  shows "\<exists>ret p'. adopt_current (q\<lparr>p_next := None\<rparr>) s source = (ret, p') \<and> Peer_ok p' \<and>
    indices p' + opt_mset ret = indices q"
proof -
  let ?n = "q\<lparr>p_next := None\<rparr>"
  obtain ret p' where a: "adopt_current ?n s source = (ret, p')" by fastforce
  have "Peer_ok ?n" "indices q = indices ?n + {#Session_our_index s#}"
    using assms by (auto simp: peer_inv)
  then show ?thesis using adopt_current_ok [OF _ assms(3) a] a by auto
qed

lemma decrypt_total:
  assumes C: "crypto_ok C" and p: "Peer_ok p"
  shows "\<exists>r p' b. decrypt C p now receiver packet source = Some (r, p', b) \<and> Peer_ok p' \<and>
    length b = length packet \<and> p_last_handshake_timestamp p' = p_last_handshake_timestamp p \<and>
    p_pending p' = p_pending p \<and>
    (case r of
       Inr rv \<Rightarrow> indices p' + opt_mset (rv_unmapped rv) = indices p \<and>
         rv_payload_len rv + TRANSPORT_OVERHEAD = length packet \<and> p_endpoint p' = Some source \<and>
         (\<exists>sl s. slot_for p receiver = Some sl \<and> get_slot p sl = Some s \<and> \<not> Session_expired s now \<and>
            rv_confirmed rv = (sl = Next))
     | Inl _ \<Rightarrow> indices p' = indices p \<and> p_endpoint p' = p_endpoint p)"
proof (cases "slot_for p receiver")
  case None
  then show ?thesis using p by (simp add: decrypt_def)
next
  case (Some sl)
  then obtain s where s: "get_slot p sl = Some s" using slot_for_Some by blast
  show ?thesis
  proof (cases "Session_expired s now")
    case True
    then show ?thesis using p Some s by (simp add: decrypt_def)
  next
    case fresh: False
    obtain r s' b where r: "Session_receive C s packet = Some (r, s', b)" "length b = length packet"
      "case r of Inr n \<Rightarrow> n + 32 = length packet | Inl e \<Rightarrow> True"
      using Session_receive_total [OF C] by blast
    have s': "Session_ok s'" "Session_our_index s' = Session_our_index s"
      using Session_receive_ok [OF r(1)] p s by (auto simp: Peer_ok_def)
    let ?p = "set_slot p sl s'"
    note ok = set_slot_ok [OF p s s']
    show ?thesis
    proof (cases r)
      case (Inl e)
      then show ?thesis using Some s fresh r ok by (simp add: decrypt_def)
    next
      case (Inr n)
      let ?q = "?p\<lparr>p_endpoint := Some source\<rparr>"
      have q: "Peer_ok ?q" "indices ?q = indices p" using ok by (auto simp: peer_inv)
      show ?thesis
      proof (cases "sl = Next")
        case False
        then show ?thesis using Some s fresh r ok q Inr by (simp add: decrypt_def)
      next
        case True
        then obtain ret p' where a: "adopt_current (?q\<lparr>p_next := None\<rparr>) s' source = (ret, p')" "Peer_ok p'"
            "indices p' + opt_mset ret = indices p"
          using adopt_next_ok [OF q(1) _ s'(1), of source] q(2) by auto
        then show ?thesis using Some s fresh r True a Inr
          by (auto simp: decrypt_def adopt_current_def)
      qed
    qed
  qed
qed

section \<open>What an operation keeps\<close>

text \<open>The peer's key and endpoint, and when the session of each slot was established.\<close>

definition est :: "'ts Peer \<Rightarrow> slot \<Rightarrow> Instant option" where
  "est p sl = map_option s_established (get_slot p sl)"

lemma est_simps:
  "est p Next = map_option s_established (p_next p)" "est p Current = map_option s_established (p_current p)"
  "est p Previous = map_option s_established (p_previous p)"
  by (simp_all add: est_def)

lemma Peer_initiate_keeps:
  "Peer_initiate C T p our_key vals out = Some (r, p', b) \<Longrightarrow>
     p_peer_key p' = p_peer_key p \<and> p_endpoint p' = p_endpoint p \<and> est p' = est p"
  by (auto simp: Peer_initiate_def Let_def est_def fun_eq_iff all_slots split: if_splits bind_splits sum.splits)

lemma Peer_respond_keeps:
  "Peer_respond C T p now hs vals source out = Some (r, p', b) \<Longrightarrow>
     p_peer_key p' = p_peer_key p \<and> p_pending p' = p_pending p \<and>
     (case r of Inl _ \<Rightarrow> p_endpoint p' = p_endpoint p \<and> est p' = est p
      | Inr _ \<Rightarrow> p_endpoint p' = Some source \<and> est p' = (est p)(Next := Some now))"
  by (auto simp: Peer_respond_def Let_def Session_new_def est_def fun_eq_iff all_slots
      split: if_splits bind_splits sum.splits)

lemma handshake_response_keeps:
  "handshake_response C p our_key now packet source = Some (r, p', b) \<Longrightarrow>
     p_peer_key p' = p_peer_key p \<and>
     (case r of Inl _ \<Rightarrow> p_endpoint p' = p_endpoint p \<and> est p' = est p
      | Inr _ \<Rightarrow> p_endpoint p' = Some source \<and> est p' = (est p)(Previous := est p Current, Current := Some now))"
  by (auto simp: handshake_response_def Let_def adopt_current_def Session_new_def est_def fun_eq_iff all_slots
      split: option.splits bind_splits sum.splits)

lemma cookie_reply_keeps:
  "cookie_reply C p reply ts = Some (r, p') \<Longrightarrow> p_peer_key p' = p_peer_key p \<and> p_endpoint p' = p_endpoint p \<and> est p' = est p"
  by (auto simp: cookie_reply_def est_def fun_eq_iff all_slots split: bind_splits)

lemma encrypt_keeps:
  "encrypt C p now payload out = Some (r, p', b) \<Longrightarrow>
     p_peer_key p' = p_peer_key p \<and> p_endpoint p' = p_endpoint p \<and> p_pending p' = p_pending p \<and> est p' = est p"
  by (auto simp: encrypt_def Session_send_def est_def fun_eq_iff all_slots split: if_splits option.splits bind_splits)

lemma set_slot_keeps:
  "get_slot p sl = Some s \<Longrightarrow> s_established s' = s_established s \<Longrightarrow>
     p_peer_key (set_slot p sl s') = p_peer_key p \<and> est (set_slot p sl s') = est p"
  by (cases sl) (auto simp: est_def fun_eq_iff all_slots)

lemma Session_receive_keeps: "Session_receive C s packet = Some (r, s', b) \<Longrightarrow> s_established s' = s_established s"
  by (auto simp: Session_receive_def Let_def split: bind_splits sum.splits prod.splits)

lemma decrypt_keeps:
  assumes "decrypt C p now receiver packet source = Some (r, p', b)"
  shows "p_peer_key p' = p_peer_key p \<and>
     (case r of Inl _ \<Rightarrow> p_endpoint p' = p_endpoint p \<and> est p' = est p
      | Inr rv \<Rightarrow> p_endpoint p' = Some source \<and>
          (if rv_confirmed rv then est p Next \<noteq> None \<and>
             est p' = (est p)(Next := None, Previous := est p Current, Current := est p Next)
           else est p' = est p))"
proof (cases "slot_for p receiver")
  case None
  then show ?thesis using assms by (auto simp: decrypt_def)
next
  case (Some sl)
  then obtain s where s: "get_slot p sl = Some s" using slot_for_Some by blast
  show ?thesis
  proof (cases "Session_expired s now")
    case True
    then show ?thesis using assms Some s by (auto simp: decrypt_def)
  next
    case False
    obtain r' s' b' where r: "Session_receive C s packet = Some (r', s', b')"
      using assms Some s False by (auto simp: decrypt_def split: bind_splits)
    note k = set_slot_keeps [OF s Session_receive_keeps [OF r]]
    have n: "est p Next = Some (s_established s')" if "sl = Next" using s that Session_receive_keeps [OF r] by (auto simp: est_def)
    show ?thesis using assms Some s False r k n
      by (cases r'; cases sl) (auto simp: decrypt_def Let_def adopt_current_def est_def fun_eq_iff all_slots)
  qed
qed

section \<open>Runs of a peer\<close>

text \<open>
  The calls a driver can make, in any order and with any arguments. A step yields the
  receiver indices that began and that ceased to route to the peer.
\<close>

datatype 'ts peer_op =
    OpInitiate bytes "'ts HandshakeValues" bytes
  | OpAbandon
  | OpRespond Instant "'ts InitReceived" "'ts HandshakeValues" SocketAddr bytes
  | OpResponse bytes Instant bytes SocketAddr
  | OpCookie bytes 'ts
  | OpEncrypt Instant bytes bytes
  | OpDecrypt Instant u32 bytes SocketAddr
  | OpSetPresharedKey "bytes option"
  | OpSetEndpoint SocketAddr

fun peer_step ::
  "crypto \<Rightarrow> ('ts::linorder) tai \<Rightarrow> 'ts Peer \<Rightarrow> 'ts peer_op \<Rightarrow> ((u32 multiset \<times> u32 multiset) \<times> 'ts Peer) option" where
  "peer_step C T p (OpInitiate key values out) = do {
     (r, p, _) \<leftarrow> Peer_initiate C T p key values out;
     Some (case r of Inl _ \<Rightarrow> (({#}, {#}), p) | Inr old \<Rightarrow> (({#hv_index values#}, opt_mset old), p)) }"
| "peer_step C T p OpAbandon = (let (old, p) = abandon_handshake p in Some (({#}, opt_mset old), p))"
| "peer_step C T p (OpRespond now hs values source out) = do {
     (r, p, _) \<leftarrow> Peer_respond C T p now hs values source out;
     Some (case r of Inl _ \<Rightarrow> (({#}, {#}), p) | Inr old \<Rightarrow> (({#hv_index values#}, opt_mset old), p)) }"
| "peer_step C T p (OpResponse key now packet source) = do {
     (r, p, _) \<leftarrow> handshake_response C p key now packet source;
     Some (case r of Inl _ \<Rightarrow> (({#}, {#}), p) | Inr old \<Rightarrow> (({#}, opt_mset old), p)) }"
| "peer_step C T p (OpCookie reply ts) = do {
     (_, p) \<leftarrow> cookie_reply C p reply ts; Some (({#}, {#}), p) }"
| "peer_step C T p (OpEncrypt now payload out) = do {
     (_, p, _) \<leftarrow> encrypt C p now payload out; Some (({#}, {#}), p) }"
| "peer_step C T p (OpDecrypt now receiver packet source) = do {
     (r, p, _) \<leftarrow> decrypt C p now receiver packet source;
     Some (case r of Inl _ \<Rightarrow> (({#}, {#}), p) | Inr rv \<Rightarrow> (({#}, opt_mset (rv_unmapped rv)), p)) }"
| "peer_step C T p (OpSetPresharedKey psk) = Some (({#}, {#}), set_preshared_key p psk)"
| "peer_step C T p (OpSetEndpoint a) = Some (({#}, {#}), set_endpoint p a)"

fun op_size_ok :: "'ts peer_op \<Rightarrow> bool" where
  "op_size_ok (OpEncrypt now payload out) \<longleftrightarrow> length payload < AEAD_P_MAX"
| "op_size_ok _ \<longleftrightarrow> True"

lemma peer_step_ok:
  assumes C: "crypto_ok C" and T: "tai_ok T" and p: "Peer_ok p" and size: "op_size_ok op"
  shows "\<exists>added retired p'. peer_step C T p op = Some ((added, retired), p') \<and> Peer_ok p' \<and>
    indices p' + retired = indices p + added"
proof (cases op)
  case (OpInitiate key vals out)
  then show ?thesis using Peer_initiate_total [OF C T p, of key vals out] by (elim exE conjE, rename_tac r p' b, case_tac r) auto
next
  case OpAbandon
  then show ?thesis using p by (auto simp: abandon_handshake_def peer_inv add_ac)
next
  case (OpRespond now hs vals source out)
  then show ?thesis using Peer_respond_total [OF C p, of T now hs vals source out] by (elim exE conjE, rename_tac r p' b, case_tac r) auto
next
  case (OpResponse key now packet source)
  then show ?thesis using handshake_response_total [OF C p, of key now packet source] by (elim exE conjE, rename_tac r p' b, case_tac r) auto
next
  case (OpCookie reply ts)
  then show ?thesis using cookie_reply_total [OF C p, of reply ts] by auto
next
  case (OpEncrypt now payload out)
  then show ?thesis using encrypt_total [OF C p, of payload now out] size by auto
next
  case (OpDecrypt now receiver packet source)
  then show ?thesis using decrypt_total [OF C p, of now receiver packet source] by (elim exE conjE, rename_tac r p' b, case_tac r) auto
next
  case (OpSetPresharedKey psk)
  then show ?thesis using p by (auto simp: set_preshared_key_def peer_inv)
next
  case (OpSetEndpoint a)
  then show ?thesis using p by (auto simp: set_endpoint_def peer_inv)
qed

interpretation peer: stateful "peer_step C T" "\<lambda>p. crypto_ok C \<and> tai_ok T \<and> Peer_ok p" op_size_ok
  for C and T :: "('ts::linorder) tai"
  by unfold_locales (use peer_step_ok in blast)

lemma peer_step_account:
  "crypto_ok C \<and> tai_ok T \<and> Peer_ok p \<Longrightarrow> op_size_ok op \<Longrightarrow> peer_step C T p op = Some (e, p') \<Longrightarrow>
     indices p' + snd e = indices p + fst e"
  using peer_step_ok [of C T p op] by fastforce

text \<open>
  The timestamps of the initiations a peer has answered: the last one only grows.
\<close>

definition ts_le :: "('ts::linorder) Peer \<Rightarrow> 'ts Peer \<Rightarrow> bool" where
  "ts_le p q \<longleftrightarrow> (case p_last_handshake_timestamp p of
     None \<Rightarrow> True | Some t \<Rightarrow> is_some_and (p_last_handshake_timestamp q) (\<lambda>u. t \<le> u))"

lemma ts_le_refl: "ts_le p p"
  by (simp add: ts_le_def split: option.split)

lemma ts_le_trans: "ts_le p q \<Longrightarrow> ts_le q r \<Longrightarrow> ts_le p r"
  by (auto simp: ts_le_def is_some_and_iff split: option.splits)

lemma peer_step_ts:
  assumes C: "crypto_ok C" and T: "tai_ok T" and p: "Peer_ok p" and size: "op_size_ok op"
    and step: "peer_step C T p op = Some (e, p')"
  shows "ts_le p p'"
proof (cases op)
  case (OpRespond now hs vals source out)
  obtain r q b where r: "Peer_respond C T p now hs vals source out = Some (r, q, b)"
    "case r of Inr _ \<Rightarrow> \<not> is_some_and (p_last_handshake_timestamp p) (\<lambda>last. ir_timestamp hs \<le> last) \<and>
       p_last_handshake_timestamp q = Some (ir_timestamp hs) | Inl _ \<Rightarrow> q = p"
    using Peer_respond_total [OF C p, of T now hs vals source out]
    by (elim exE conjE, rename_tac r p' b, case_tac r) auto
  then show ?thesis using step OpRespond ts_le_refl
    by (cases r) (auto simp: ts_le_def not_le split: option.splits)
next
  case (OpInitiate key vals out)
  then show ?thesis
    using Peer_initiate_total [OF C T p, of key vals out] step
    by (elim exE conjE, rename_tac r q b, case_tac r) (auto simp: ts_le_def same_sessions_def split: option.splits)
next
  case (OpResponse key now packet source)
  then show ?thesis
    using handshake_response_total [OF C p, of key now packet source] step
    by (elim exE conjE, rename_tac r q b, case_tac r) (auto simp: ts_le_def same_sessions_def split: option.splits)
next
  case (OpCookie reply ts)
  then show ?thesis
    using cookie_reply_total [OF C p, of reply ts] step by (auto simp: ts_le_def same_sessions_def split: option.splits)
next
  case (OpEncrypt now payload out)
  then show ?thesis
    using encrypt_total [OF C p, of payload now out] size step by (auto simp: ts_le_def same_sessions_def split: option.splits)
next
  case (OpDecrypt now receiver packet source)
  then show ?thesis
    using decrypt_total [OF C p, of now receiver packet source] step
    by (elim exE conjE, rename_tac r q b, case_tac r) (auto simp: ts_le_def same_sessions_def split: option.splits)
qed (use step in \<open>auto simp: abandon_handshake_def set_preshared_key_def set_endpoint_def ts_le_def
  split: option.splits\<close>)

section \<open>Two peers\<close>

text \<open>The two ends of a session.\<close>

definition paired :: "Transport \<Rightarrow> Transport \<Rightarrow> bool" where
  "paired t r \<longleftrightarrow> Transport_ok t \<and> Transport_ok r \<and> t_our_index r = t_peer_index t \<and> t_our_index t = t_peer_index r \<and>
     t_recv_aead r = t_send_aead t \<and> t_recv_aead t = t_send_aead r"

lemma paired_sym: "paired t r \<Longrightarrow> paired r t"
  by (simp add: paired_def)

lemma paired_counter [simp]:
  "paired (t\<lparr>t_send_counter := c\<rparr>) r = paired t r" "paired t (r\<lparr>t_send_counter := c\<rparr>) = paired t r"
  by (simp_all add: paired_def Transport_ok_def)

text \<open>One end sends a packet, and the other end, whose window is still new, delivers it.\<close>

lemma encrypt_packet:
  assumes C: "crypto_ok C" and p: "p_current p = Some s" "p_endpoint p \<noteq> None" "\<not> Session_expired s now"
    and t: "Transport_ok (s_transport s)" "t_send_counter (s_transport s) < REJECT_AFTER_MESSAGES"
    and payload: "length payload < AEAD_P_MAX" "packet_len (length payload) \<le> length out"
    and m: "m = data_packet C (s_transport s) payload"
  shows "encrypt C p now payload out = Some (Inr (length m), p\<lparr>p_current := Some (s\<lparr>s_transport :=
    (s_transport s)\<lparr>t_send_counter := t_send_counter (s_transport s) + 1\<rparr>\<rparr>)\<rparr>, m @ drop (length m) out)"
  using p Transport_send_ok [OF C t(1) payload t(2)] length_data_packet [OF C t(1) payload(1)]
  by (simp add: m encrypt_def Session_send_def)

lemma Session_receive_next:
  assumes C: "crypto_ok C" and "paired t (s_transport r)" and "t_send_counter t < REJECT_AFTER_MESSAGES"
    and "length payload < AEAD_P_MAX" and "replay_rel (s_replay r) sp" and "below sp (unat (t_send_counter t))"
  obtains f b sp' where "Session_receive C r (data_packet C t payload) = Some (Inr (length payload), r\<lparr>s_replay := f\<rparr>, b)"
    "take (length payload) b = payload" "replay_rel f sp'" "below sp' (Suc (unat (t_send_counter t)))"
    "unat (t_send_counter t) \<in> rs_seen sp'"
proof -
  have t: "Transport_ok t" "t_our_index (s_transport r) = t_peer_index t" "t_recv_aead (s_transport r) = t_send_aead t"
    using assms(2) by (simp_all add: paired_def)
  obtain f sp' where "ReplayFilter_validate (s_replay r) (t_send_counter t) = (True, f)" "replay_rel f sp'"
      "below sp' (Suc (unat (t_send_counter t)))" "unat (t_send_counter t) \<in> rs_seen sp'"
    by (rule validate_next [OF assms(5,6,3)])
  then show thesis using that Transport_receive_data_packet [OF C t(1) assms(4) t(2,3)]
    by (fastforce simp: Session_receive_def)
qed

lemma below_new: "below spec_new n"
  by (simp add: below_def spec_new_def)

lemma Session_receive_packet:
  assumes C: "crypto_ok C" and "paired t (s_transport r)" and "t_send_counter t < REJECT_AFTER_MESSAGES"
    and "length payload < AEAD_P_MAX" and "s_replay r = ReplayFilter_new"
  obtains f b where "Session_receive C r (data_packet C t payload) = Some (Inr (length payload), r\<lparr>s_replay := f\<rparr>, b)"
    "take (length payload) b = payload"
  using Session_receive_next [OF assms(1-4) _ below_new] rf.new_rel assms(5) that by metis

lemma paired_header:
  assumes "crypto_ok C" and "paired t r" and "length payload < AEAD_P_MAX"
  shows "MessageHeader_try_from (data_packet C t payload) = Some (Inr (Data (t_our_index r)))"
  using data_packet_header [OF assms(1) _ assms(3)] assms(2) by (simp add: paired_def)

lemma decrypt_next:
  assumes "p_next p = Some r" and "Session_our_index r = i" and "\<not> Session_expired r now"
    and "Session_receive C r packet = Some (Inr n, r', b)"
  obtains rv p' where "decrypt C p now i packet source = Some (Inr rv, p', b)" "rv_payload_len rv = n" "rv_confirmed rv"
    "p_endpoint p' = Some source" "p_current p' = Some r'" "p_peer_key p' = p_peer_key p"
    "rv_unmapped rv = map_option Session_our_index (p_previous p)" "p_next p' = None"
  using that [of "\<lparr>rv_payload_len = n, rv_confirmed = True, rv_unmapped = map_option Session_our_index (p_previous p)\<rparr>"] assms
  by (simp add: decrypt_def slot_for_def adopt_current_def)

lemma decrypt_current:
  assumes "p_current p = Some r" and "Session_our_index r = i" and "\<not> Session_expired r now"
    and "\<not> is_some_and (p_next p) (\<lambda>s. Session_our_index s = i)" and "Session_receive C r packet = Some (Inr n, r', b)"
  obtains rv p' where "decrypt C p now i packet source = Some (Inr rv, p', b)" "rv_payload_len rv = n" "\<not> rv_confirmed rv"
    "p_endpoint p' = Some source" "p_current p' = Some r'" "p_next p' = p_next p"
  using that [of "\<lparr>rv_payload_len = n, rv_confirmed = False, rv_unmapped = None\<rparr>"] assms
  by (simp add: decrypt_def slot_for_def)

text \<open>A handshake between two peers gives each a session with the other.\<close>

lemma peers_handshake:
  assumes C: "crypto_ok C" and T: "tai_ok T" and ok: "Peer_ok A" "Peer_ok B"
    and keys: "p_peer_key A = x25519_public C priv_r"
    and psk: "p_preshared_key A = p_preshared_key B"
    and bufs: "INIT_MSG_LENGTH \<le> length out1" "RESP_MSG_LENGTH \<le> length out2"
    and es: "was_contributory C (x25519_dh C (hv_ephemeral_secret va) (x25519_public C priv_r))"
    and ss: "was_contributory C (x25519_dh C priv_i (x25519_public C priv_r))"
    and ee: "was_contributory C (x25519_dh C (hv_ephemeral_secret va) (x25519_public C (hv_ephemeral_secret vb)))"
    and ts: "\<not> is_some_and (p_last_handshake_timestamp B) (\<lambda>last. hv_timestamp va \<le> last)"
  obtains A1 m1 hs p1 B1 m2 old A2 p2 ti tr where
    "Peer_initiate C T A priv_i va out1 =
      Some (Inr (map_option ph_our_index (p_pending A)), A1, m1 @ drop INIT_MSG_LENGTH out1)"
    "MessageHeader_try_from m1 = Some (Inr HandshakeInit)" "authenticates C (p_cookie_generator A) m1"
    "receive C T priv_r m1 = Some (Inr hs, p1)" "ir_peer_public hs = x25519_public C priv_i"
    "Peer_respond C T B now_b hs vb src_a out2 =
      Some (Inr (map_option Session_our_index (p_next B)), B1, m2 @ drop RESP_MSG_LENGTH out2)"
    "MessageHeader_try_from m2 = Some (Inr (HandshakeResponse (hv_index va)))" "authenticates C (p_cookie_generator B) m2"
    "p_next B1 = Some (Session_new tr now_b)" "p_endpoint B1 = Some src_a"
    "\<forall>now. handshake_response C A1 priv_i now m2 src_b = Some (Inr old, A2 now, p2) \<and>
      p_current (A2 now) = Some (Session_new ti now) \<and> p_endpoint (A2 now) = Some src_b \<and> p_next (A2 now) = p_next A"
    "paired ti tr" "t_send_counter ti = 0" "t_send_counter tr = 0"
    "t_our_index ti = hv_index va" "t_our_index tr = hv_index vb" "old = map_option Session_our_index (p_previous A)"
proof -
  let ?i = "hv_index va" and ?j = "hv_index vb" and ?ei = "hv_ephemeral_secret va" and ?er = "hv_ephemeral_secret vb"
  have g: "Generator_ok (p_cookie_generator A)" "Generator_ok (p_cookie_generator B)"
    using ok by (simp_all add: Peer_ok_def)
  obtain ga m1 p1 c h where 1: "initiate C T priv_i (x25519_public C priv_r) ?i ?ei (hv_timestamp va)
      (p_cookie_generator A) out1 =
      Some (Inr \<lparr>is_index_initiator = ?i, is_ephemeral_secret_initiator = ?ei, is_constr = c, is_h = h\<rparr>,
        ga, m1 @ drop INIT_MSG_LENGTH out1)" "MessageHeader_try_from m1 = Some (Inr HandshakeInit)"
    "receive C T priv_r m1 = Some (Inr \<lparr>ir_peer_public = x25519_public C priv_i,
      ir_ephemeral_public_initiator = x25519_public C ?ei, ir_index_initiator = ?i,
      ir_timestamp = hv_timestamp va, ir_constr = c, ir_h = h\<rparr>, p1)" (is "_ = Some (Inr ?hs, _)")
    "authenticates C (p_cookie_generator A) m1"
    by (rule first_message [OF C T g(1) bufs(1) es ss]) (rule that)
  let ?st = "\<lparr>is_index_initiator = ?i, is_ephemeral_secret_initiator = ?ei, is_constr = c, is_h = h\<rparr>"
  obtain gb m2 p2 k where 2: "respond C T ?hs ?j ?er (p_preshared_key B) (hv_timestamp vb) (p_cookie_generator B) out2 =
      Some (Inr \<lparr>re_our_index = ?j, re_peer_index = ?i, re_constr = k\<rparr>, gb, m2 @ drop RESP_MSG_LENGTH out2)"
    "MessageHeader_try_from m2 = Some (Inr (HandshakeResponse ?i))"
    "response_received C ?st priv_i (p_preshared_key B) m2 =
      Some (Inr \<lparr>ie_our_index = ?i, ie_peer_index = ?j, ie_constr = k\<rparr>, p2)"
    "authenticates C (p_cookie_generator B) m2"
    by (rule second_message [OF C g(2) bufs(2) ee, of ?st ?i c h ?hs priv_i T ?j "p_preshared_key B"
          "hv_timestamp vb"]) simp_all
  obtain a b where ab: "kdf2_out C k [] = (a, b)" by fastforce
  note fin = finish_eq [OF C ab]
  let ?ti = "Transport_new ?i ?j b a" and ?tr = "Transport_new ?j ?i a b"
  let ?A1 = "A\<lparr>p_cookie_generator := ga, p_pending := Some \<lparr>ph_state = ?st, ph_our_index = ?i\<rparr>\<rparr>"
  have A1: "Peer_initiate C T A priv_i va out1 =
      Some (Inr (map_option ph_our_index (p_pending A)), ?A1, m1 @ drop INIT_MSG_LENGTH out1)"
    using 1(1) bufs(1) keys by (simp add: Peer_initiate_def)
  have B1: "\<exists>B1. Peer_respond C T B now_b ?hs vb src_a out2 =
        Some (Inr (map_option Session_our_index (p_next B)), B1, m2 @ drop RESP_MSG_LENGTH out2) \<and>
      p_next B1 = Some (Session_new ?tr now_b) \<and> p_endpoint B1 = Some src_a"
    using 2(1) bufs(2) ts fin(1) by (simp add: Peer_respond_def)
  let ?A2 = "\<lambda>now. ?A1\<lparr>p_pending := None, p_previous := p_current A, p_current := Some (Session_new ?ti now), p_endpoint := Some src_b\<rparr>"
  have A2: "\<forall>now. handshake_response C ?A1 priv_i now m2 src_b = Some (Inr (map_option Session_our_index (p_previous A)), ?A2 now, p2) \<and>
      p_current (?A2 now) = Some (Session_new ?ti now) \<and> p_endpoint (?A2 now) = Some src_b \<and> p_next (?A2 now) = p_next A"
    using 2(3) psk fin(2) by (simp add: handshake_response_def adopt_current_def)
  have pair: "paired ?ti ?tr" using fin(3) [of ?j ?i] fin(4) [of ?i ?j] by (simp add: paired_def Transport_new_def)
  from B1 obtain B1 where B1: "Peer_respond C T B now_b ?hs vb src_a out2 =
        Some (Inr (map_option Session_our_index (p_next B)), B1, m2 @ drop RESP_MSG_LENGTH out2)"
      "p_next B1 = Some (Session_new ?tr now_b)" "p_endpoint B1 = Some src_a" by blast
  show thesis
    by (rule that [OF A1 1(2,4,3) _ B1(1) 2(2,4) B1(2,3) A2 pair]) (simp_all add: Transport_new_def)
qed

section \<open>Properties\<close>

text \<open>
  C19: no receiver index is lost. In any run of calls on a new peer, with any arguments, no call
  panics, and the indices the peer was given are, counted with repetition, exactly those it still
  answers to (its pending handshake and its three sessions) together with those it reported as
  retired. A driver that binds an index when it supplies it and unbinds it when it is reported
  therefore routes exactly the live ones.
\<close>

theorem peer_index_accounting:
  fixes T :: "('ts::linorder) tai"
  assumes "crypto_ok C" and "tai_ok T" and "\<forall>op \<in> set ops. op_size_ok op"
  shows "\<exists>es p. run (peer_step C T) (Peer_new C key) ops = Some (es, p) \<and>
    indices p + sum_list (map snd es) = sum_list (map fst es) \<and> Peer_ok p"
proof -
  let ?new = "Peer_new C key :: 'ts Peer"
  have new: "Peer_ok ?new" by (rule Peer_ok_new [OF assms(1)])
  obtain es p where run: "run (peer_step C T) ?new ops = Some (es, p)" "Peer_ok p"
    using peer.run_ok [of C T ?new ops] assms new by blast
  have "indices p + sum_list (map snd es) = indices ?new + sum_list (map fst es)"
    by (rule peer.run_account [OF _ _ assms(3) run(1)]) (rule peer_step_account, assumption+, use assms new in blast)
  then show ?thesis using run by (auto simp: indices_def Peer_new_def)
qed

definition ex_values :: "u32 \<Rightarrow> u8 \<Rightarrow> u64 \<Rightarrow> u64 HandshakeValues" where
  "ex_values index key ts = \<lparr>hv_index = index, hv_ephemeral_secret = ex_key key, hv_timestamp = ts\<rparr>"

theorem peer_index_accounting_witness:
  "\<exists>es p. run (peer_step ex_crypto ex_tai) (Peer_new ex_crypto (ex_key 2))
      [OpInitiate (ex_key 1) (ex_values 11 4 99) (replicate 148 0), OpAbandon,
       OpDecrypt (Instant 3) 11 [4, 0, 0, 0] ex_addr] = Some (es, p) \<and>
    indices p + sum_list (map snd es) = sum_list (map fst es)"
  using peer_index_accounting [of ex_crypto ex_tai "[OpInitiate (ex_key 1) (ex_values 11 4 99) (replicate 148 0),
      OpAbandon, OpDecrypt (Instant 3) 11 [4, 0, 0, 0] ex_addr]" "ex_key 2"]
  by auto

text \<open>
  C7: a recorded initiation cannot be replayed. Once a peer has answered an initiation, then after
  any further calls every initiation with the same or an older timestamp is refused as stale, and
  the refusal changes nothing.
\<close>

theorem peer_refuses_stale_initiation:
  assumes C: "crypto_ok C" and T: "tai_ok T" and p: "Peer_ok p"
    and answered: "Peer_respond C T p now hs vals source out = Some (Inr old, p1, b)"
    and later: "\<forall>op \<in> set ops. op_size_ok op" "run (peer_step C T) p1 ops = Some (es, p2)"
    and stale: "ir_timestamp hs' \<le> ir_timestamp hs"
  shows "Peer_respond C T p2 now' hs' vals' source' out' = Some (Inl PeStaleTimestamp, p2, out')"
proof -
  have p1: "Peer_ok p1" "p_last_handshake_timestamp p1 = Some (ir_timestamp hs)"
    using Peer_respond_total [OF C p, of T now hs vals source out] answered by auto
  have "ts_le p1 p2"
    by (rule peer.run_rel [of C T ts_le p1 ops es p2])
      (use C T p1 later peer_step_ts ts_le_refl ts_le_trans in blast)+
  then have "is_some_and (p_last_handshake_timestamp p2) (\<lambda>last. ir_timestamp hs' \<le> last)"
    using p1(2) stale by (auto simp: ts_le_def is_some_and_iff)
  then show ?thesis by (simp add: Peer_respond_def)
qed

definition ex_init_received :: "u64 InitReceived" where
  "ex_init_received = \<lparr>ir_peer_public = ex_key 2, ir_ephemeral_public_initiator = ex_key 4,
     ir_index_initiator = 11, ir_timestamp = 99, ir_constr = ex_key 1, ir_h = ex_key 3\<rparr>"

theorem peer_refuses_stale_initiation_witness:
  "\<exists>old p1 b. Peer_respond ex_crypto ex_tai (Peer_new ex_crypto (ex_key 2)) (Instant 5) ex_init_received
      (ex_values 22 8 100) ex_addr (replicate 92 0) = Some (Inr old, p1, b) \<and>
    Peer_respond ex_crypto ex_tai p1 (Instant 6) ex_init_received (ex_values 23 9 101) ex_addr (replicate 92 0) =
      Some (Inl PeStaleTimestamp, p1, replicate 92 0)"
proof -
  let ?p = "Peer_new ex_crypto (ex_key 2) :: u64 Peer"
  have p: "Peer_ok ?p" by (rule Peer_ok_new [OF ex_crypto_ok])
  obtain r p1 b where r: "Peer_respond ex_crypto ex_tai ?p (Instant 5) ex_init_received (ex_values 22 8 100) ex_addr
      (replicate 92 0) = Some (r, p1, b)" "\<exists>old. r = Inr old"
    using Peer_respond_total [OF ex_crypto_ok p, of ex_tai "Instant 5" ex_init_received "ex_values 22 8 100"
        ex_addr "replicate 92 0"]
    by (elim exE conjE, rename_tac r q b, case_tac r) (auto simp: Peer_new_def)
  then obtain old where "r = Inr old" by blast
  then show ?thesis
    using r peer_refuses_stale_initiation [OF ex_crypto_ok ex_tai_ok p, of "Instant 5" ex_init_received
        "ex_values 22 8 100" ex_addr "replicate 92 0" old p1 b "[]" "[]" p1 ex_init_received]
    by auto
qed

text \<open>
  C27: keys are not used after \<open>REJECT_AFTER_TIME\<close>. When every session of a peer is at least that
  old, it neither encrypts nor decrypts anything: both calls fail, and peer and buffers are unchanged.
\<close>

theorem peer_refuses_expired_sessions:
  assumes "\<forall>sl s. get_slot p sl = Some s \<longrightarrow> REJECT_AFTER_TIME \<le> duration_since now (s_established s)"
  shows "(\<exists>e. encrypt C p now payload out = Some (Inl e, p, out) \<and> e \<in> {PeNoEndpoint, PeNoSession, PeExpired}) \<and>
    (\<exists>e. decrypt C p now receiver packet source = Some (Inl e, p, packet) \<and> e \<in> {PeUnexpected, PeExpired})"
proof
  have "\<And>s. p_current p = Some s \<Longrightarrow> Session_expired s now"
    using assms by (auto simp: Session_expired_def all_slots)
  then show "\<exists>e. encrypt C p now payload out = Some (Inl e, p, out) \<and> e \<in> {PeNoEndpoint, PeNoSession, PeExpired}"
    by (cases "p_endpoint p"; cases "p_current p") (auto simp: encrypt_def)
  show "\<exists>e. decrypt C p now receiver packet source = Some (Inl e, p, packet) \<and> e \<in> {PeUnexpected, PeExpired}"
  proof (cases "slot_for p receiver")
    case None
    then show ?thesis by (simp add: decrypt_def)
  next
    case (Some sl)
    obtain s where s: "get_slot p sl = Some s" using slot_for_Some [OF Some] by blast
    then have "Session_expired s now" using assms by (auto simp: Session_expired_def)
    then show ?thesis using Some s by (simp add: decrypt_def)
  qed
qed

definition ex_old_peer :: "u64 Peer" where
  "ex_old_peer = (Peer_new ex_crypto (ex_key 2))\<lparr>p_endpoint := Some ex_addr,
     p_current := Some (Session_new (Transport_new 7 9 (ex_key 1) (ex_key 2)) (Instant 0))\<rparr>"

theorem peer_refuses_expired_sessions_witness:
  "(\<exists>e. encrypt ex_crypto ex_old_peer (Instant 180000000000) [1] (replicate 40 0) =
      Some (Inl e, ex_old_peer, replicate 40 0) \<and> e \<in> {PeNoEndpoint, PeNoSession, PeExpired}) \<and>
   (\<exists>e. decrypt ex_crypto ex_old_peer (Instant 180000000000) 7 [4] ex_addr = Some (Inl e, ex_old_peer, [4]) \<and>
      e \<in> {PeUnexpected, PeExpired})"
  by (rule peer_refuses_expired_sessions)
    (simp add: all_slots ex_old_peer_def Peer_new_def Session_new_def duration_since_def saturating_sub_def time_consts)

text \<open>
  C10: two peers that complete a handshake can talk. The initiator's first payload is delivered by the
  responder, which thereby confirms its session; from then on the responder can send, and its payload
  is delivered by the initiator. The hypotheses are the sizes of buffers and payloads, that the
  sessions are used within their lifetime, that the checked Diffie-Hellman results are
  contributory, that the initiation is newer than the last one answered, and that the initiator's
  index is not that of its own unconfirmed session.
\<close>

theorem peers_exchange_data:
  assumes C: "crypto_ok C" and T: "tai_ok T" and ok: "Peer_ok A" "Peer_ok B"
    and keys: "p_peer_key A = x25519_public C priv_r"
    and psk: "p_preshared_key A = p_preshared_key B"
    and bufs: "INIT_MSG_LENGTH \<le> length out1" "RESP_MSG_LENGTH \<le> length out2"
      "packet_len (length data1) \<le> length out3" "packet_len (length data2) \<le> length out4"
    and sizes: "length data1 < AEAD_P_MAX" "length data2 < AEAD_P_MAX"
    and es: "was_contributory C (x25519_dh C (hv_ephemeral_secret va) (x25519_public C priv_r))"
    and ss: "was_contributory C (x25519_dh C priv_i (x25519_public C priv_r))"
    and ee: "was_contributory C (x25519_dh C (hv_ephemeral_secret va) (x25519_public C (hv_ephemeral_secret vb)))"
    and ts: "\<not> is_some_and (p_last_handshake_timestamp B) (\<lambda>last. hv_timestamp va \<le> last)"
    and index: "\<not> is_some_and (p_next A) (\<lambda>s. Session_our_index s = hv_index va)"
    and fresh: "duration_since now_a' now_a < REJECT_AFTER_TIME" "duration_since now_b' now_b < REJECT_AFTER_TIME"
  shows "\<exists>old1 A1 m1 hs p1 old2 B1 m2 old3 A2 p2 A3 m3 rv3 B2 b3 B3 m4 rv4 A4 b4.
    Peer_initiate C T A priv_i va out1 = Some (Inr old1, A1, m1 @ drop INIT_MSG_LENGTH out1) \<and>
    receive C T priv_r m1 = Some (Inr hs, p1) \<and>
    Peer_respond C T B now_b hs vb src_a out2 = Some (Inr old2, B1, m2 @ drop RESP_MSG_LENGTH out2) \<and>
    handshake_response C A1 priv_i now_a m2 src_b = Some (Inr old3, A2, p2) \<and>
    encrypt C A2 now_a' data1 out3 = Some (Inr (length m3), A3, m3 @ drop (length m3) out3) \<and>
    MessageHeader_try_from m3 = Some (Inr (Data (hv_index vb))) \<and>
    decrypt C B1 now_b' (hv_index vb) m3 src_a' = Some (Inr rv3, B2, b3) \<and>
    take (rv_payload_len rv3) b3 = data1 \<and> rv_confirmed rv3 \<and> p_endpoint B2 = Some src_a' \<and>
    encrypt C B2 now_b' data2 out4 = Some (Inr (length m4), B3, m4 @ drop (length m4) out4) \<and>
    MessageHeader_try_from m4 = Some (Inr (Data (hv_index va))) \<and>
    decrypt C A3 now_a' (hv_index va) m4 src_b' = Some (Inr rv4, A4, b4) \<and>
    take (rv_payload_len rv4) b4 = data2"
proof -
  obtain A1 m1 hs p1 B1 m2 old A2 p2 ti tr where hand:
    "Peer_initiate C T A priv_i va out1 =
      Some (Inr (map_option ph_our_index (p_pending A)), A1, m1 @ drop INIT_MSG_LENGTH out1)"
    "receive C T priv_r m1 = Some (Inr hs, p1)"
    "Peer_respond C T B now_b hs vb src_a out2 =
      Some (Inr (map_option Session_our_index (p_next B)), B1, m2 @ drop RESP_MSG_LENGTH out2)"
    "handshake_response C A1 priv_i now_a m2 src_b = Some (Inr old, A2, p2)"
    and A2: "p_current A2 = Some (Session_new ti now_a)" "p_endpoint A2 = Some src_b" "p_next A2 = p_next A"
    and B1: "p_next B1 = Some (Session_new tr now_b)" "p_endpoint B1 = Some src_a"
    and pair: "paired ti tr" "t_send_counter ti = 0" "t_send_counter tr = 0"
      "t_our_index ti = hv_index va" "t_our_index tr = hv_index vb"
    by (rule peers_handshake [OF C T ok keys psk bufs(1,2) es ss ee ts]) (blast intro: that)
  let ?si = "Session_new ti now_a" and ?sr = "Session_new tr now_b"
  have new: "s_transport (Session_new t now) = t" "s_replay (Session_new t now) = ReplayFilter_new"
    "s_established (Session_new t now) = now" for t now
    by (simp_all add: Session_new_def)
  have idx: "Session_our_index (?si\<lparr>s_transport := ti\<lparr>t_send_counter := c\<rparr>\<rparr>) = hv_index va" "Session_our_index ?sr = hv_index vb" for c
    using pair(4,5) by (simp_all add: Session_our_index_def new)
  have ok: "Transport_ok ti" "Transport_ok tr" using pair(1) by (simp_all add: paired_def)
  have exp: "\<not> Session_expired (?si\<lparr>s_transport := t\<rparr>) now_a'" "\<not> Session_expired ?si now_a'"
    "\<not> Session_expired (?sr\<lparr>s_replay := f\<rparr>) now_b'" "\<not> Session_expired ?sr now_b'" for t f
    using fresh by (simp_all add: Session_expired_def new)
  let ?m3 = "data_packet C ti data1" and ?m4 = "data_packet C tr data2"
  let ?si' = "?si\<lparr>s_transport := ti\<lparr>t_send_counter := 1\<rparr>\<rparr>"
  have A3: "encrypt C A2 now_a' data1 out3 =
      Some (Inr (length ?m3), A2\<lparr>p_current := Some ?si'\<rparr>, ?m3 @ drop (length ?m3) out3)"
    using encrypt_packet [OF C A2(1) _ exp(2) _ _ sizes(1) bufs(3) refl] A2(2) ok pair(2) by (simp add: new word_less_nat_alt)
  obtain f b3 where 3: "Session_receive C ?sr ?m3 = Some (Inr (length data1), ?sr\<lparr>s_replay := f\<rparr>, b3)" "take (length data1) b3 = data1"
    by (rule Session_receive_packet [OF C _ _ sizes(1), of ti ?sr]) (use pair in \<open>simp_all add: new word_less_nat_alt\<close>)
  obtain rv3 B2 where B2: "decrypt C B1 now_b' (hv_index vb) ?m3 src_a' = Some (Inr rv3, B2, b3)"
    "rv_payload_len rv3 = length data1" "rv_confirmed rv3" "p_endpoint B2 = Some src_a'"
    "p_current B2 = Some (?sr\<lparr>s_replay := f\<rparr>)"
    by (rule decrypt_next [OF B1(1) idx(2) exp(4) 3(1)]) (rule that)
  obtain B3 where B3: "encrypt C B2 now_b' data2 out4 = Some (Inr (length ?m4), B3, ?m4 @ drop (length ?m4) out4)"
    using encrypt_packet [OF C B2(5) _ exp(3) _ _ sizes(2) bufs(4) refl] B2(4) ok pair(3) by (simp add: new word_less_nat_alt)
  obtain f' b4 where 4: "Session_receive C ?si' ?m4 = Some (Inr (length data2), ?si'\<lparr>s_replay := f'\<rparr>, b4)" "take (length data2) b4 = data2"
    by (rule Session_receive_packet [OF C _ _ sizes(2), of tr ?si'])
      (use pair paired_sym in \<open>simp_all add: new word_less_nat_alt\<close>)
  obtain rv4 A4 where A4: "decrypt C (A2\<lparr>p_current := Some ?si'\<rparr>) now_a' (hv_index va) ?m4 src_b' = Some (Inr rv4, A4, b4)"
    "rv_payload_len rv4 = length data2"
    by (rule decrypt_current [OF _ idx(1) exp(1) _ 4(1), of "A2\<lparr>p_current := Some ?si'\<rparr>"])
      (use A2(3) index in simp, use A2(3) index in simp, rule that)
  show ?thesis using hand A3 B2 B3 A4 3(2) 4(2) paired_header [OF C pair(1) sizes(1)]
      paired_header [OF C paired_sym [OF pair(1)] sizes(2)] pair(4,5) by metis
qed

theorem peers_exchange_data_witness:
  "\<exists>old1 A1 m1 hs p1 old2 B1 m2 old3 A2 p2 A3 m3 rv3 B2 b3.
    Peer_initiate ex_crypto ex_tai (Peer_new ex_crypto (x25519_public ex_crypto (ex_key 2))) (ex_key 1)
      (ex_values 11 4 99) (replicate 148 0) = Some (Inr old1, A1, m1 @ drop INIT_MSG_LENGTH (replicate 148 0)) \<and>
    receive ex_crypto ex_tai (ex_key 2) m1 = Some (Inr hs, p1) \<and>
    Peer_respond ex_crypto ex_tai (Peer_new ex_crypto (x25519_public ex_crypto (ex_key 1))) (Instant 5) hs
      (ex_values 22 8 100) ex_addr (replicate 92 0) = Some (Inr old2, B1, m2 @ drop RESP_MSG_LENGTH (replicate 92 0)) \<and>
    handshake_response ex_crypto A1 (ex_key 1) (Instant 6) m2 ex_addr = Some (Inr old3, A2, p2) \<and>
    encrypt ex_crypto A2 (Instant 7) (replicate 2 5) (replicate 40 0) =
      Some (Inr (length m3), A3, m3 @ drop (length m3) (replicate 40 0)) \<and>
    decrypt ex_crypto B1 (Instant 8) 22 m3 ex_addr = Some (Inr rv3, B2, b3) \<and>
    take (rv_payload_len rv3) b3 = replicate 2 5"
  using peers_exchange_data [OF ex_crypto_ok ex_tai_ok Peer_ok_new [OF ex_crypto_ok] Peer_ok_new [OF ex_crypto_ok],
      of "x25519_public ex_crypto (ex_key 2)" "ex_key 2" "x25519_public ex_crypto (ex_key 1)" "replicate 148 0"
        "replicate 92 0" "replicate 2 5" "replicate 40 0" "[]" "replicate 40 0" "ex_values 11 4 99" "ex_key 1"
        "ex_values 22 8 100" "Instant 7" "Instant 6" "Instant 8" "Instant 5" ex_addr ex_addr ex_addr ex_addr]
  by (simp add: Peer_new_def ex_values_def AEAD_P_MAX_def duration_since_def saturating_sub_def time_consts
      del: drop_replicate) blast

end
