(* ===== verification/Router.thy ===== *)
theory Router
  imports Runs Peer
begin

text \<open>
  The registry of peers and the routing of receiver indices (\<open>tunnel/src/router.rs\<close>), with the
  bounded queues that lead to the peer actors.

  A channel is a number: \<open>Sender::same_channel\<close> is equality. The queue behind a channel is the list
  of actions in it; the shared status cell \<open>Arc<RwLock<PeerStatus>>\<close> of a peer is kept under its
  channel. A call that waits for queue space is a future: it is \<open>Ready\<close>, or \<open>Pending\<close> and changes
  nothing.
\<close>

section \<open>Messages and state\<close>

datatype 'a poll = Ready 'a | Pending

datatype 'a Update = Keep | Clear | Set 'a

record PeerUpdate =
  pu_endpoint :: "SocketAddr option"
  pu_preshared_key :: "bytes Update"
  pu_persistent_keepalive :: "Duration Update"

datatype 'ts PeerAction =
    Connect SocketAddr
  | Update PeerUpdate
  | SendData bytes
  | RecvData bytes u32 SocketAddr
  | RecvHandshakeInit "'ts InitReceived" SocketAddr
  | RecvHandshakeResp bytes SocketAddr
  | RecvCookieReply bytes

datatype SendError = TunnelClosed | PeerRemoved | Full

type_synonym chan = nat

datatype Control = Bind bytes u32 | Retire bytes u32 | Purge chan

record PeerStatus =
  st_public_key :: bytes
  st_endpoint :: "SocketAddr option"
  st_tx_bytes :: u64
  st_rx_bytes :: u64
  st_last_send :: "nat option"
  st_last_recv :: "nat option"
  st_last_successful_handshake :: "nat option"

definition PEER_ACTION_QUEUE_CAPACITY :: nat where "PEER_ACTION_QUEUE_CAPACITY = 1024"

record 'ts RoutingTable =
  rt_peers :: "bytes \<rightharpoonup> chan"
  rt_control :: "Control list"
  rt_queues :: "chan \<Rightarrow> 'ts PeerAction list"
  rt_statuses :: "chan \<Rightarrow> PeerStatus"
  rt_next_chan :: chan

type_synonym IndexRouter = "u32 \<rightharpoonup> chan"

section \<open>Queues\<close>

definition try_send :: "'ts RoutingTable \<Rightarrow> chan \<Rightarrow> 'ts PeerAction \<Rightarrow> (SendError + unit) \<times> 'ts RoutingTable" where
  "try_send rt ch action =
     (if length (rt_queues rt ch) < PEER_ACTION_QUEUE_CAPACITY
      then (Inr (), rt\<lparr>rt_queues := (rt_queues rt)(ch := rt_queues rt ch @ [action])\<rparr>)
      else (Inl Full, rt))"

definition send :: "'ts RoutingTable \<Rightarrow> chan \<Rightarrow> 'ts PeerAction \<Rightarrow> (SendError + unit) poll \<times> 'ts RoutingTable" where
  "send rt ch action =
     (case try_send rt ch action of
        (Inr _, rt) \<Rightarrow> (Ready (Inr ()), rt)
      | (Inl _, rt) \<Rightarrow> (Pending, rt))"

section \<open>The registry\<close>

definition status_new :: "bytes \<Rightarrow> PeerStatus" where
  "status_new key =
     \<lparr>st_public_key = key, st_endpoint = None, st_tx_bytes = 0, st_rx_bytes = 0, st_last_send = None,
      st_last_recv = None, st_last_successful_handshake = None\<rparr>"

definition RoutingTable_new :: "'ts RoutingTable" where
  "RoutingTable_new =
     \<lparr>rt_peers = Map.empty, rt_control = [], rt_queues = (\<lambda>_. []), rt_statuses = (\<lambda>_. status_new []),
      rt_next_chan = 0\<rparr>"

definition register_peer :: "'ts RoutingTable \<Rightarrow> bytes \<Rightarrow> chan option \<times> 'ts RoutingTable" where
  "register_peer rt peer_key =
     (if peer_key \<in> dom (rt_peers rt) then (None, rt)
      else
        let ch = rt_next_chan rt
        in (Some ch, rt\<lparr>rt_peers := (rt_peers rt)(peer_key \<mapsto> ch), rt_queues := (rt_queues rt)(ch := []),
              rt_statuses := (rt_statuses rt)(ch := status_new peer_key), rt_next_chan := ch + 1\<rparr>))"

definition remove_peer :: "'ts RoutingTable \<Rightarrow> bytes \<Rightarrow> 'ts RoutingTable" where
  "remove_peer rt peer_key =
     (case rt_peers rt peer_key of
        None \<Rightarrow> rt
      | Some ch \<Rightarrow> rt\<lparr>rt_peers := (rt_peers rt)(peer_key := None), rt_control := rt_control rt @ [Purge ch]\<rparr>)"

definition entry :: "'ts RoutingTable \<Rightarrow> bytes \<Rightarrow> chan option" where
  "entry rt public_key = rt_peers rt public_key"

definition peer_status :: "'ts RoutingTable \<Rightarrow> bytes \<Rightarrow> PeerStatus option" where
  "peer_status rt public_key = map_option (rt_statuses rt) (entry rt public_key)"

text \<open>The order of the snapshots is that of a hash map and left open.\<close>

definition peer_statuses :: "'ts RoutingTable \<Rightarrow> PeerStatus set" where
  "peer_statuses rt = rt_statuses rt ` ran (rt_peers rt)"

definition RoutingTable_set_peer ::
  "'ts RoutingTable \<Rightarrow> bytes \<Rightarrow> PeerUpdate \<Rightarrow> (SendError + unit) poll \<times> 'ts RoutingTable" where
  "RoutingTable_set_peer rt public_key update =
     (case entry rt public_key of
        None \<Rightarrow> (Ready (Inl PeerRemoved), rt)
      | Some ch \<Rightarrow> send rt ch (Update update))"

definition recv_handshake_init ::
  "'ts RoutingTable \<Rightarrow> SocketAddr \<Rightarrow> 'ts InitReceived \<Rightarrow> 'ts RoutingTable" where
  "recv_handshake_init rt endpoint handshake =
     (case entry rt (ir_peer_public handshake) of
        None \<Rightarrow> rt
      | Some ch \<Rightarrow> snd (try_send rt ch (RecvHandshakeInit handshake endpoint)))"

section \<open>Receiver indices\<close>

definition IndexRouter_new :: IndexRouter where
  "IndexRouter_new = Map.empty"

fun IndexRouter_apply :: "IndexRouter \<Rightarrow> Control \<Rightarrow> 'ts RoutingTable \<Rightarrow> IndexRouter" where
  "IndexRouter_apply ir (Bind peer_key index) rt =
     (case entry rt peer_key of
        None \<Rightarrow> ir
      | Some ch \<Rightarrow> if index \<in> dom ir then ir else ir(index \<mapsto> ch))"
| "IndexRouter_apply ir (Retire peer_key index) rt =
     (case entry rt peer_key of
        None \<Rightarrow> ir
      | Some ch \<Rightarrow> if ir index = Some ch then ir(index := None) else ir)"
| "IndexRouter_apply ir (Purge ch) rt = (\<lambda>i. if ir i = Some ch then None else ir i)"

definition try_send_to_index ::
  "IndexRouter \<Rightarrow> 'ts RoutingTable \<Rightarrow> u32 \<Rightarrow> 'ts PeerAction \<Rightarrow> 'ts RoutingTable" where
  "try_send_to_index ir rt index action =
     (case ir index of None \<Rightarrow> rt | Some ch \<Rightarrow> snd (try_send rt ch action))"

definition recv_data ::
  "IndexRouter \<Rightarrow> 'ts RoutingTable \<Rightarrow> SocketAddr \<Rightarrow> u32 \<Rightarrow> bytes \<Rightarrow> 'ts RoutingTable" where
  "recv_data ir rt endpoint peer_index packet =
     try_send_to_index ir rt peer_index (RecvData packet peer_index endpoint)"

definition recv_handshake_resp ::
  "IndexRouter \<Rightarrow> 'ts RoutingTable \<Rightarrow> SocketAddr \<Rightarrow> u32 \<Rightarrow> bytes \<Rightarrow> 'ts RoutingTable" where
  "recv_handshake_resp ir rt endpoint peer_index packet =
     try_send_to_index ir rt peer_index (RecvHandshakeResp packet endpoint)"

definition recv_cookie_reply :: "IndexRouter \<Rightarrow> 'ts RoutingTable \<Rightarrow> u32 \<Rightarrow> bytes \<Rightarrow> 'ts RoutingTable" where
  "recv_cookie_reply ir rt peer_index packet =
     try_send_to_index ir rt peer_index (RecvCookieReply packet)"

section \<open>Runs of registry and read loop\<close>

text \<open>
  The registry is shared between the tunnel handle and the read loop, and actors enqueue
  control messages of their own; the read loop applies the queue in order. An operation is one
  of these, in any interleaving.
\<close>

datatype route_op =
    Register bytes
  | Remove bytes
  | Emit Control
  | ApplyNext

fun control_by_actor :: "route_op \<Rightarrow> bool" where
  "control_by_actor (Emit (Purge _)) \<longleftrightarrow> False"
| "control_by_actor _ \<longleftrightarrow> True"

fun route_step ::
  "'ts RoutingTable \<times> IndexRouter \<Rightarrow> route_op \<Rightarrow> (unit \<times> 'ts RoutingTable \<times> IndexRouter) option" where
  "route_step (rt, ir) (Register key) = Some ((), snd (register_peer rt key), ir)"
| "route_step (rt, ir) (Remove key) = Some ((), remove_peer rt key, ir)"
| "route_step (rt, ir) (Emit c) = Some ((), rt\<lparr>rt_control := rt_control rt @ [c]\<rparr>, ir)"
| "route_step (rt, ir) ApplyNext =
     (case rt_control rt of
        [] \<Rightarrow> Some ((), rt, ir)
      | c # cs \<Rightarrow> Some ((), rt\<lparr>rt_control := cs\<rparr>, IndexRouter_apply ir c rt))"

text \<open>
  Channels are allocated once and belong to one key; a route leads to the channel of a registered
  peer, or the purge of that channel is still queued.
\<close>

definition routes_ok :: "'ts RoutingTable \<times> IndexRouter \<Rightarrow> bool" where
  "routes_ok = (\<lambda>(rt, ir).
     (\<forall>k ch. rt_peers rt k = Some ch \<longrightarrow> ch < rt_next_chan rt) \<and>
     (\<forall>k k' ch. rt_peers rt k = Some ch \<longrightarrow> rt_peers rt k' = Some ch \<longrightarrow> k = k') \<and>
     (\<forall>i ch. ir i = Some ch \<longrightarrow> ch < rt_next_chan rt) \<and>
     (\<forall>i ch. ir i = Some ch \<longrightarrow> (\<exists>k. rt_peers rt k = Some ch) \<or> Purge ch \<in> set (rt_control rt)) \<and>
     (\<forall>k ch. rt_peers rt k = Some ch \<longrightarrow> Purge ch \<notin> set (rt_control rt)) \<and>
     (\<forall>ch. Purge ch \<in> set (rt_control rt) \<longrightarrow> ch < rt_next_chan rt))"

lemma apply_range:
  "IndexRouter_apply ir c rt i = Some ch \<Longrightarrow> ir i = Some ch \<or> (\<exists>k. rt_peers rt k = Some ch)"
  by (cases c) (auto simp: entry_def split: option.splits if_splits)

lemma apply_purge: "IndexRouter_apply ir (Purge ch) rt i \<noteq> Some ch"
  by simp

lemma routes_okD:
  assumes "routes_ok (rt, ir)"
  shows "rt_peers rt k = Some ch \<Longrightarrow> ch < rt_next_chan rt"
    and "rt_peers rt k = Some ch \<Longrightarrow> rt_peers rt k' = Some ch \<Longrightarrow> k = k'"
    and "ir i = Some ch \<Longrightarrow> ch < rt_next_chan rt"
    and "ir i = Some ch \<Longrightarrow> Purge ch \<notin> set (rt_control rt) \<Longrightarrow> \<exists>k. rt_peers rt k = Some ch"
    and "rt_peers rt k = Some ch \<Longrightarrow> Purge ch \<notin> set (rt_control rt)"
    and "Purge ch \<in> set (rt_control rt) \<Longrightarrow> ch < rt_next_chan rt"
  using assms by (simp_all add: routes_ok_def) blast+

lemma routes_ok_register:
  assumes "routes_ok (rt, ir)"
  shows "routes_ok (snd (register_peer rt key), ir)"
proof (cases "key \<in> dom (rt_peers rt)")
  case True
  then show ?thesis using assms by (simp add: register_peer_def)
next
  case False
  note d = routes_okD [OF assms]
  have "\<exists>k. (k = key \<longrightarrow> rt_next_chan rt = ch) \<and> (k \<noteq> key \<longrightarrow> rt_peers rt k = Some ch)"
    if "ir i = Some ch" "Purge ch \<notin> set (rt_control rt)" for i ch
    using d(4) [OF that] False by (metis domI)
  then show ?thesis using False
    by (auto simp: routes_ok_def register_peer_def Let_def less_Suc_eq dest: d split: if_splits)
qed

lemma routes_ok_remove:
  assumes "routes_ok (rt, ir)"
  shows "routes_ok (remove_peer rt key, ir)"
proof (cases "rt_peers rt key")
  case None
  then show ?thesis using assms by (simp add: remove_peer_def)
next
  case (Some c)
  note d = routes_okD [OF assms]
  have "\<exists>k. k \<noteq> key \<and> rt_peers rt k = Some ch"
    if "ir i = Some ch" "Purge ch \<notin> set (rt_control rt)" "ch \<noteq> c" for i ch
    using d(4) [OF that(1,2)] that(3) Some by (metis option.inject)
  then show ?thesis using Some d(1) [OF Some]
    by (auto simp: routes_ok_def remove_peer_def dest: d split: if_splits)
qed

lemma routes_ok_emit:
  "routes_ok (rt, ir) \<Longrightarrow> \<forall>ch. c \<noteq> Purge ch \<Longrightarrow> routes_ok (rt\<lparr>rt_control := rt_control rt @ [c]\<rparr>, ir)"
  by (auto simp: routes_ok_def)

lemma routes_ok_apply:
  assumes ok: "routes_ok (rt, ir)" and cs: "rt_control rt = c # cs"
  shows "routes_ok (rt\<lparr>rt_control := cs\<rparr>, IndexRouter_apply ir c rt)"
proof -
  have "(\<exists>k. rt_peers rt k = Some ch) \<or> Purge ch \<in> set cs" if "IndexRouter_apply ir c rt i = Some ch" for i ch
    using apply_range [OF that] apply_purge [of ir ch rt i] that ok cs
    by (cases "c = Purge ch") (auto simp: routes_ok_def)
  moreover have "ch < rt_next_chan rt" if "IndexRouter_apply ir c rt i = Some ch" for i ch
    using apply_range [OF that] ok by (auto simp: routes_ok_def)
  ultimately show ?thesis using ok cs by (simp add: routes_ok_def)
qed

lemma control_by_actor_Emit [simp]: "control_by_actor (Emit c) \<longleftrightarrow> (\<forall>ch. c \<noteq> Purge ch)"
  by (cases c) auto

lemma route_step_ok:
  assumes "routes_ok s" and "control_by_actor op"
  shows "\<exists>e s'. route_step s op = Some (e, s') \<and> routes_ok s'"
proof -
  obtain rt ir where s: "s = (rt, ir)" by fastforce
  show ?thesis
  proof (cases op)
    case ApplyNext
    then show ?thesis using assms s routes_ok_apply [of rt ir] by (cases "rt_control rt") auto
  qed (use assms s routes_ok_register routes_ok_remove routes_ok_emit in auto)
qed

interpretation routes: stateful route_step routes_ok control_by_actor
  by unfold_locales (rule route_step_ok)

text \<open>A route that its owner keeps: the owner is registered and has not asked to retire it.\<close>

definition held :: "bytes \<Rightarrow> u32 \<Rightarrow> chan \<Rightarrow> 'ts RoutingTable \<times> IndexRouter \<Rightarrow> bool" where
  "held key index ch = (\<lambda>(rt, ir). ir index = Some ch \<and> rt_peers rt key = Some ch \<and>
     Retire key index \<notin> set (rt_control rt))"

lemma route_step_held:
  assumes "routes_ok s" and "held key index ch s" and "control_by_actor op"
    and "op \<noteq> Emit (Retire key index)" and "op \<noteq> Remove key"
  shows "\<exists>e s'. route_step s op = Some (e, s') \<and> routes_ok s' \<and> held key index ch s'"
proof -
  obtain rt ir where s: "s = (rt, ir)" by fastforce
  obtain e rt' ir' where step: "route_step s op = Some (e, rt', ir')" "routes_ok (rt', ir')"
    using route_step_ok [OF assms(1,3)] by auto
  have "held key index ch (rt', ir')"
  proof (cases op)
    case ApplyNext
    show ?thesis
    proof (cases "rt_control rt")
      case Nil
      then show ?thesis using step s ApplyNext assms(2) by simp
    next
      case (Cons c cs)
      have "c \<noteq> Purge ch" using assms(1,2) s Cons by (auto simp: routes_ok_def held_def)
      then have "IndexRouter_apply ir c rt index = Some ch"
        using assms(1,2) s Cons
        by (cases c) (auto simp: held_def routes_ok_def entry_def split: option.splits)
      then show ?thesis using step s ApplyNext assms(2) Cons by (auto simp: held_def)
    qed
  qed (use step s assms in \<open>auto simp: held_def register_peer_def remove_peer_def Let_def split: option.splits if_splits\<close>)
  then show ?thesis using step by blast
qed

interpretation kept: stateful route_step "\<lambda>s. routes_ok s \<and> held key index ch s"
  "\<lambda>op. control_by_actor op \<and> op \<noteq> Emit (Retire key index) \<and> op \<noteq> Remove key" for key index ch
  by unfold_locales (use route_step_held in blast)

section \<open>Properties\<close>

text \<open>
  C29: no packet is routed to a removed peer. Whatever peers are registered, removed and
  registered again, whatever indices their actors bind and retire, and however the read loop
  interleaves with them: once the control queue is empty, every index routes to the channel of a
  peer that is registered.
\<close>

theorem routes_lead_to_registered_peers:
  assumes "\<forall>op \<in> set ops. control_by_actor op"
  shows "\<exists>es rt ir. run route_step (RoutingTable_new :: 'ts RoutingTable, IndexRouter_new) ops = Some (es, rt, ir) \<and>
    (rt_control rt = [] \<longrightarrow> (\<forall>index ch. ir index = Some ch \<longrightarrow> (\<exists>key. entry rt key = Some ch)))"
proof -
  have "routes_ok (RoutingTable_new :: 'ts RoutingTable, IndexRouter_new)"
    by (simp add: routes_ok_def RoutingTable_new_def IndexRouter_new_def)
  from routes.run_ok [OF this assms] obtain es rt ir
    where "run route_step (RoutingTable_new :: 'ts RoutingTable, IndexRouter_new) ops = Some (es, rt, ir)" "routes_ok (rt, ir)"
    by auto
  moreover from routes_okD(4) [OF this(2)]
  have "rt_control rt = [] \<longrightarrow> (\<forall>index ch. ir index = Some ch \<longrightarrow> (\<exists>key. entry rt key = Some ch))"
    by (simp add: entry_def)
  ultimately show ?thesis by blast
qed

theorem routes_lead_to_registered_peers_witness:
  "\<exists>es rt ir. run route_step (RoutingTable_new :: u64 RoutingTable, IndexRouter_new)
      [Register [1], Emit (Bind [1] 7), ApplyNext, Remove [1], Emit (Bind [1] 8), ApplyNext, ApplyNext] =
      Some (es, rt, ir) \<and>
    (rt_control rt = [] \<longrightarrow> (\<forall>index ch. ir index = Some ch \<longrightarrow> (\<exists>key. entry rt key = Some ch)))"
  by (rule routes_lead_to_registered_peers) simp

text \<open>
  C30: an index belongs to the peer that bound it first. As long as that peer is registered and its
  actor does not retire the index, no registration, removal, bind or retire of any other peer,
  in any order, changes where the index routes.
\<close>

theorem index_route_is_exclusive:
  assumes "routes_ok (rt, ir)" and "held key index ch (rt, ir)"
    and "\<forall>op \<in> set ops. control_by_actor op \<and> op \<noteq> Emit (Retire key index) \<and> op \<noteq> Remove key"
  shows "\<exists>es rt' ir'. run route_step (rt, ir) ops = Some (es, rt', ir') \<and> ir' index = Some ch"
proof -
  obtain es rt' ir' where "run route_step (rt, ir) ops = Some (es, rt', ir')" "held key index ch (rt', ir')"
    using kept.run_ok [of "(rt, ir)" key index ch ops] assms by auto
  then show ?thesis by (auto simp: held_def)
qed

definition ex_table :: "u64 RoutingTable" where
  "ex_table = snd (register_peer (snd (register_peer RoutingTable_new [1])) [2])"

theorem index_route_is_exclusive_witness:
  "\<exists>es rt' ir'. run route_step (ex_table, [7 \<mapsto> 0])
      [Emit (Bind [2] 7), Emit (Retire [2] 7), ApplyNext, ApplyNext, Remove [2], ApplyNext] = Some (es, rt', ir') \<and>
    ir' 7 = Some 0"
  by (rule index_route_is_exclusive [where key = "[1]"])
    (auto simp: routes_ok_def held_def ex_table_def register_peer_def RoutingTable_new_def split: if_splits)

end
