(* ===== verification/Socket.thy ===== *)
theory Socket
  imports Net
begin

text \<open>
  The UDP socket (\<open>tunnel/src/socket.rs\<close>): it repeats a system call for as long as
  the call would block. The runtime and the system call are parameters: what they answer at each attempt.
\<close>

text \<open>An attempt: waiting for readiness may fail, and so may the call itself.\<close>

record ('e, 'a) attempt =
  wait_ready :: "'e + unit"
  try_io :: "'e + 'a"

record Transmit =
  tx_destination :: SocketAddr
  tx_contents :: bytes
  tx_segment_size :: "nat option"

partial_function (option) UdpSocket_recv ::
  "('e \<Rightarrow> bool) \<Rightarrow> (nat \<Rightarrow> ('e, 'a) attempt) \<Rightarrow> nat \<Rightarrow> ('e + 'a) option" where
  "UdpSocket_recv would_block io i =
     (case wait_ready (io i) of
        Inl e \<Rightarrow> Some (Inl e)
      | Inr _ \<Rightarrow>
          (case try_io (io i) of
             Inr n \<Rightarrow> Some (Inr n)
           | Inl e \<Rightarrow> if would_block e then UdpSocket_recv would_block io (i + 1) else Some (Inl e)))"

partial_function (option) UdpSocket_transmit ::
  "('e \<Rightarrow> bool) \<Rightarrow> (Transmit \<Rightarrow> nat \<Rightarrow> ('e, unit) attempt) \<Rightarrow> SocketAddr \<Rightarrow> bytes \<Rightarrow> nat option \<Rightarrow> nat \<Rightarrow>
     ('e + unit) option" where
  "UdpSocket_transmit would_block io endpoint payload segment_size i =
     (let attempt = io \<lparr>tx_destination = endpoint, tx_contents = payload, tx_segment_size = segment_size\<rparr> i
      in case wait_ready attempt of
           Inl e \<Rightarrow> Some (Inl e)
         | Inr _ \<Rightarrow>
             (case try_io attempt of
                Inr _ \<Rightarrow> Some (Inr ())
              | Inl e \<Rightarrow>
                  if would_block e then UdpSocket_transmit would_block io endpoint payload segment_size (i + 1)
                  else Some (Inl e)))"

definition UdpSocket_send ::
  "('e \<Rightarrow> bool) \<Rightarrow> (Transmit \<Rightarrow> nat \<Rightarrow> ('e, unit) attempt) \<Rightarrow> SocketAddr \<Rightarrow> bytes \<Rightarrow> ('e + unit) option" where
  "UdpSocket_send would_block io endpoint payload = UdpSocket_transmit would_block io endpoint payload None 0"

definition UdpSocket_send_segments ::
  "('e \<Rightarrow> bool) \<Rightarrow> (Transmit \<Rightarrow> nat \<Rightarrow> ('e, unit) attempt) \<Rightarrow> SocketAddr \<Rightarrow> bytes \<Rightarrow> nat \<Rightarrow> ('e + unit) option" where
  "UdpSocket_send_segments would_block io endpoint payload segment_size =
     UdpSocket_transmit would_block io endpoint payload (Some segment_size) 0"

section \<open>The loops end at the first decisive attempt\<close>

definition blocked :: "('e \<Rightarrow> bool) \<Rightarrow> ('e, 'a) attempt \<Rightarrow> bool" where
  "blocked would_block a \<longleftrightarrow> (\<exists>u. wait_ready a = Inr u) \<and> (\<exists>e. try_io a = Inl e \<and> would_block e)"

definition answer :: "('e, 'a) attempt \<Rightarrow> 'e + 'a" where
  "answer a = (case wait_ready a of Inl e \<Rightarrow> Inl e | Inr _ \<Rightarrow> try_io a)"

lemma recv_step:
  "UdpSocket_recv would_block io i =
     (if blocked would_block (io i) then UdpSocket_recv would_block io (i + 1) else Some (answer (io i)))"
  by (subst UdpSocket_recv.simps) (auto simp: blocked_def answer_def split: sum.split)

text \<open>Sending is the same loop over the attempts for the message to send.\<close>

lemma transmit_step:
  fixes io :: "Transmit \<Rightarrow> nat \<Rightarrow> ('e, unit) attempt"
  defines "msg \<equiv> \<lambda>endpoint payload segment_size. \<lparr>tx_destination = endpoint, tx_contents = payload, tx_segment_size = segment_size\<rparr>"
  shows "UdpSocket_transmit would_block io endpoint payload segment_size i =
    (if blocked would_block (io (msg endpoint payload segment_size) i)
     then UdpSocket_transmit would_block io endpoint payload segment_size (i + 1)
     else Some (answer (io (msg endpoint payload segment_size) i)))"
  by (subst UdpSocket_transmit.simps) (auto simp: msg_def blocked_def answer_def Let_def split: sum.split)

lemma loop_first:
  fixes i n :: nat
  assumes step: "\<And>i. f i = (if P i then f (i + 1) else Some (g i))" and "\<not> P (i + n)" and "\<forall>j < n. P (i + j)"
  shows "f i = Some (g (i + n))"
  using assms(2,3)
proof (induction n arbitrary: i)
  case 0
  then show ?case by (simp add: step [of i])
next
  case (Suc n)
  from Suc.prems(2) [rule_format, of 0] have "f i = f (i + 1)" by (simp add: step [of i])
  moreover have "f (i + 1) = Some (g (i + 1 + n))"
    using Suc.prems(1) Suc.prems(2) [rule_format, of "Suc _"] by (intro Suc.IH) simp_all
  ultimately show ?case by simp
qed

lemma recv_first:
  "\<not> blocked would_block (io n) \<Longrightarrow> \<forall>j < n. blocked would_block (io j) \<Longrightarrow> UdpSocket_recv would_block io 0 = Some (answer (io n))"
  using loop_first [of "UdpSocket_recv would_block io" "\<lambda>i. blocked would_block (io i)" "\<lambda>i. answer (io i)" 0 n] recv_step by fastforce

text \<open>A loop whose attempts all block never returns.\<close>

lemma recv_returns_not_blocked:
  assumes "UdpSocket_recv would_block io i = Some r"
  shows "\<exists>n \<ge> i. \<not> blocked would_block (io n)"
proof (rule UdpSocket_recv.raw_induct [OF _ assms, where P = "\<lambda>wb io i r. \<exists>n \<ge> i. \<not> blocked wb (io n)"], goal_cases)
  case (1 loop wb io i r)
  show ?case
  proof (cases "blocked wb (io i)")
    case True
    then obtain u e where "wait_ready (io i) = Inr u" "try_io (io i) = Inl e" "wb e" by (auto simp: blocked_def)
    then have "loop wb io (i + 1) = Some r" using 1(2) by simp
    from 1(1) [OF this] obtain n where "i + 1 \<le> n" "\<not> blocked wb (io n)" by blast
    then show ?thesis by (intro exI [of _ n]) simp
  qed blast
qed

lemma recv_returns_iff:
  "(\<exists>r. UdpSocket_recv would_block io 0 = Some r) \<longleftrightarrow> (\<exists>n. \<not> blocked would_block (io n))"
proof
  assume "\<exists>n. \<not> blocked would_block (io n)"
  then obtain n where "\<not> blocked would_block (io n)" "\<forall>j < n. blocked would_block (io j)"
    using exists_least_iff [of "\<lambda>n. \<not> blocked would_block (io n)"] by auto
  then show "\<exists>r. UdpSocket_recv would_block io 0 = Some r" using recv_first by blast
qed (use recv_returns_not_blocked in blast)

lemma transmit_first:
  assumes "\<not> blocked would_block (io msg n)" and "\<forall>j < n. blocked would_block (io msg j)"
    and "msg = \<lparr>tx_destination = endpoint, tx_contents = payload, tx_segment_size = segment_size\<rparr>"
  shows "UdpSocket_transmit would_block io endpoint payload segment_size 0 = Some (answer (io msg n))"
  using loop_first [of "UdpSocket_transmit would_block io endpoint payload segment_size" "\<lambda>i. blocked would_block (io msg i)"
      "\<lambda>i. answer (io msg i)" 0 n] transmit_step [of would_block io endpoint payload segment_size] assms by fastforce

end
