(* ===== verification/Actor.thy ===== *)
theory Actor
  imports Router Socket
begin

text \<open>
  The driver of one peer (\<open>tunnel/src/actor.rs\<close>): it owns the peer's protocol state, the timers
  around it and the queue of payloads that wait for a session.

  What the actor reads from outside is a parameter, the environment: the clock, the random
  numbers, the fresh secrets and timestamps, and whether the socket and the inbound queue take
  what they are given. The actor counts its readings, and the \<open>k\<close>-th reading is the environment's
  answer at \<open>k\<close>, so an environment is any sequence of answers. What the actor emits is
  appended to logs in its state: control messages for the read loop, datagrams the socket took,
  packets the inbound queue took. A call that waits (\<open>await\<close> on the socket) is the call with its
  answer. Byte counters are \<open>u64\<close> and wrap around.
\<close>

section \<open>The environment\<close>

record 'ts env =
  env_now :: "nat \<Rightarrow> Instant"
  env_index :: "nat \<Rightarrow> u32"
  env_secret :: "nat \<Rightarrow> bytes"
  env_tai :: "nat \<Rightarrow> 'ts"
  env_random_range :: "nat \<Rightarrow> nat \<Rightarrow> nat"
  env_system_time :: "nat \<Rightarrow> nat"
  env_socket_send :: "nat \<Rightarrow> bool"
  env_max_gso_segments :: "nat \<Rightarrow> nat"
  env_inbound_room :: "nat \<Rightarrow> bool"
  env_clock_max :: Duration

record Packet =
  pk_public_key :: bytes
  pk_payload :: bytes

record PeerConfig =
  pc_endpoint :: "SocketAddr option"
  pc_preshared_key :: "bytes option"
  pc_persistent_keepalive :: "Duration option"

section \<open>State\<close>

definition MAX_STAGED_PACKETS :: nat where "MAX_STAGED_PACKETS = 128"
definition MAX_MESSAGE_SIZE :: nat where "MAX_MESSAGE_SIZE = 65535"

record HandshakeAttempt =
  ha_first_sent :: Instant
  ha_retry_at :: Instant

record ActorSession =
  as_initiator :: bool
  as_established :: Instant
  as_keepalive_at :: "Instant option"
  as_new_handshake_at :: "Instant option"

record 'ts PeerActor =
  pa_our_key :: bytes
  pa_machine :: "'ts Peer"
  pa_persistent_keepalive :: "Duration option"
  pa_last_send :: Instant
  pa_handshake :: "HandshakeAttempt option"
  pa_session :: "ActorSession option"
  pa_session_tx :: bool
  pa_staged :: "bytes list"
  pa_status :: PeerStatus
  pa_control :: "Control list"
  pa_wire :: "Transmit list"
  pa_inbound :: "Packet list"
  pa_tick :: nat

section \<open>Readings and outputs\<close>

definition read_env :: "(nat \<Rightarrow> 'x) \<Rightarrow> 'ts PeerActor \<Rightarrow> 'x \<times> 'ts PeerActor" where
  "read_env f a = (f (pa_tick a), a\<lparr>pa_tick := pa_tick a + 1\<rparr>)"

definition rekey_jitter :: "'ts env \<Rightarrow> 'ts PeerActor \<Rightarrow> Duration \<times> 'ts PeerActor" where
  "rekey_jitter E a =
     (let (ms, a) = read_env (\<lambda>k. env_random_range E k (REKEY_TIMEOUT_JITTER_MAX div 1000000)) a
      in (from_millis ms, a))"

definition Clock_sleep_until :: "'ts env \<Rightarrow> Instant option \<Rightarrow> unit option" where
  "Clock_sleep_until E at =
     (if since_epoch (unwrap_or at Instant_default) \<le> env_clock_max E then Some () else None)"

definition socket_send ::
  "'ts env \<Rightarrow> 'ts PeerActor \<Rightarrow> SocketAddr \<Rightarrow> bytes \<Rightarrow> nat option \<Rightarrow> bool \<times> 'ts PeerActor" where
  "socket_send E a endpoint payload segment_size =
     (let (ok, a) = read_env (env_socket_send E) a
      in (ok, if ok then a\<lparr>pa_wire := pa_wire a @
                [\<lparr>tx_destination = endpoint, tx_contents = payload, tx_segment_size = segment_size\<rparr>]\<rparr> else a))"

definition inbound_try_send :: "'ts env \<Rightarrow> 'ts PeerActor \<Rightarrow> Packet \<Rightarrow> 'ts PeerActor" where
  "inbound_try_send E a packet =
     (let (room, a) = read_env (env_inbound_room E) a
      in if room then a\<lparr>pa_inbound := pa_inbound a @ [packet]\<rparr> else a)"

definition update_status :: "'ts PeerActor \<Rightarrow> (PeerStatus \<Rightarrow> PeerStatus) \<Rightarrow> 'ts PeerActor" where
  "update_status a func = a\<lparr>pa_status := func (pa_status a)\<rparr>"

definition retire_index :: "'ts PeerActor \<Rightarrow> u32 option \<Rightarrow> 'ts PeerActor" where
  "retire_index a index =
     (case index of
        None \<Rightarrow> a
      | Some index \<Rightarrow> a\<lparr>pa_control := pa_control a @ [Retire (p_peer_key (pa_machine a)) index]\<rparr>)"

definition bind_index :: "'ts PeerActor \<Rightarrow> u32 \<Rightarrow> 'ts PeerActor" where
  "bind_index a index = a\<lparr>pa_control := pa_control a @ [Bind (p_peer_key (pa_machine a)) index]\<rparr>"

section \<open>Timers of a session\<close>

definition HandshakeAttempt_new ::
  "'ts env \<Rightarrow> 'ts PeerActor \<Rightarrow> Instant \<Rightarrow> Instant \<Rightarrow> HandshakeAttempt \<times> 'ts PeerActor" where
  "HandshakeAttempt_new E a first_sent now =
     (let (jitter, a) = rekey_jitter E a
      in (\<lparr>ha_first_sent = first_sent, ha_retry_at = instant_add (instant_add now REKEY_TIMEOUT) jitter\<rparr>, a))"

definition ActorSession_new :: "bool \<Rightarrow> Instant \<Rightarrow> ActorSession" where
  "ActorSession_new initiator now =
     \<lparr>as_initiator = initiator, as_established = now, as_keepalive_at = None, as_new_handshake_at = None\<rparr>"

definition expires_at :: "ActorSession \<Rightarrow> Instant" where
  "expires_at s = instant_add (as_established s) REJECT_AFTER_TIME"

definition data_sent :: "ActorSession \<Rightarrow> Instant \<Rightarrow> Duration \<Rightarrow> ActorSession" where
  "data_sent s now jitter =
     s\<lparr>as_keepalive_at := None,
       as_new_handshake_at := get_or_insert (as_new_handshake_at s)
         (instant_add (instant_add (instant_add now KEEPALIVE_TIMEOUT) REKEY_TIMEOUT) jitter)\<rparr>"

definition keepalive_sent :: "ActorSession \<Rightarrow> ActorSession" where
  "keepalive_sent s = s\<lparr>as_keepalive_at := None\<rparr>"

definition packet_received :: "Instant \<Rightarrow> bool \<Rightarrow> ActorSession \<Rightarrow> ActorSession" where
  "packet_received now carried_payload s =
     (let s = s\<lparr>as_new_handshake_at := None\<rparr>
      in if carried_payload
         then s\<lparr>as_keepalive_at := get_or_insert (as_keepalive_at s) (instant_add now KEEPALIVE_TIMEOUT)\<rparr>
         else s)"

definition usable :: "ActorSession \<Rightarrow> Instant \<Rightarrow> bool" where
  "usable s now \<longleftrightarrow> now < expires_at s"

definition rekey_after_send :: "ActorSession \<Rightarrow> Instant \<Rightarrow> bool" where
  "rekey_after_send s now \<longleftrightarrow> as_initiator s \<and> REKEY_AFTER_TIME \<le> duration_since now (as_established s)"

definition rekey_after_receive :: "ActorSession \<Rightarrow> Instant \<Rightarrow> bool" where
  "rekey_after_receive s now \<longleftrightarrow>
     as_initiator s \<and> REKEY_AFTER_TIME_RECEIVING \<le> duration_since now (as_established s)"

section \<open>Handshakes\<close>

definition fresh_values :: "'ts env \<Rightarrow> 'ts PeerActor \<Rightarrow> 'ts HandshakeValues \<times> 'ts PeerActor" where
  "fresh_values E a =
     (let (index, a) = read_env (env_index E) a;
          (secret, a) = read_env (env_secret E) a;
          (ts, a) = read_env (env_tai E) a
      in (\<lparr>hv_index = index, hv_ephemeral_secret = secret, hv_timestamp = ts\<rparr>, a))"

definition count_sent :: "'ts env \<Rightarrow> 'ts PeerActor \<Rightarrow> nat \<Rightarrow> 'ts PeerActor" where
  "count_sent E a len =
     (let (t, a) = read_env (env_system_time E) a
      in update_status a (\<lambda>st. st\<lparr>st_tx_bytes := st_tx_bytes st + of_nat len, st_last_send := Some t\<rparr>))"

definition send_handshake ::
  "crypto \<Rightarrow> 'ts tai \<Rightarrow> 'ts env \<Rightarrow> 'ts PeerActor \<Rightarrow> Instant \<Rightarrow> 'ts PeerActor option" where
  "send_handshake C T E a first_sent =
     (case p_endpoint (pa_machine a) of
        None \<Rightarrow> Some a
      | Some endpoint \<Rightarrow> do {
          let (now, a) = read_env (env_now E) a;
          let (attempt, a) = HandshakeAttempt_new E a first_sent now;
          let a = a\<lparr>pa_handshake := Some attempt\<rparr>;
          let (vals, a) = fresh_values E a;
          (r, m, msg) \<leftarrow> Peer_initiate C T (pa_machine a) (pa_our_key a) vals (replicate INIT_MSG_LENGTH 0);
          let a = a\<lparr>pa_machine := m\<rparr>;
          case r of
            Inl _ \<Rightarrow> Some a
          | Inr replaced \<Rightarrow>
              let a = retire_index a replaced;
                  a = bind_index a (hv_index vals);
                  (ok, a) = socket_send E a endpoint msg None
              in if \<not> ok then Some a else Some (count_sent E (a\<lparr>pa_last_send := now\<rparr>) (length msg))
        })"

definition ensure_handshake :: "crypto \<Rightarrow> 'ts tai \<Rightarrow> 'ts env \<Rightarrow> 'ts PeerActor \<Rightarrow> 'ts PeerActor option" where
  "ensure_handshake C T E a =
     (if pa_handshake a = None
      then let (now, a) = read_env (env_now E) a in send_handshake C T E a now
      else Some a)"

definition apply_endpoint ::
  "crypto \<Rightarrow> 'ts tai \<Rightarrow> 'ts env \<Rightarrow> 'ts PeerActor \<Rightarrow> SocketAddr \<Rightarrow> 'ts PeerActor option" where
  "apply_endpoint C T E a endpoint =
     (let a = a\<lparr>pa_machine := set_endpoint (pa_machine a) endpoint\<rparr>;
          a = update_status a (\<lambda>st. st\<lparr>st_endpoint := Some endpoint\<rparr>)
      in ensure_handshake C T E a)"

definition apply_update ::
  "crypto \<Rightarrow> 'ts tai \<Rightarrow> 'ts env \<Rightarrow> 'ts PeerActor \<Rightarrow> PeerUpdate \<Rightarrow> 'ts PeerActor option" where
  "apply_update C T E a update =
     (let a = (case pu_preshared_key update of
                 Keep \<Rightarrow> a
               | Clear \<Rightarrow> a\<lparr>pa_machine := set_preshared_key (pa_machine a) None\<rparr>
               | Set preshared_key \<Rightarrow> a\<lparr>pa_machine := set_preshared_key (pa_machine a) (Some preshared_key)\<rparr>);
          a = (case pu_persistent_keepalive update of
                 Keep \<Rightarrow> a
               | Clear \<Rightarrow> a\<lparr>pa_persistent_keepalive := None\<rparr>
               | Set interval \<Rightarrow> a\<lparr>pa_persistent_keepalive := Some interval\<rparr>)
      in case pu_endpoint update of
           None \<Rightarrow> Some a
         | Some endpoint \<Rightarrow> apply_endpoint C T E a endpoint)"

section \<open>Sending\<close>

definition stage_one :: "'ts PeerActor \<Rightarrow> bytes \<Rightarrow> 'ts PeerActor" where
  "stage_one a payload =
     (let staged = (if length (pa_staged a) = MAX_STAGED_PACKETS then tl (pa_staged a) else pa_staged a)
      in a\<lparr>pa_staged := staged @ [payload]\<rparr>)"

definition stage :: "'ts PeerActor \<Rightarrow> bytes list \<Rightarrow> 'ts PeerActor" where
  "stage a payloads = foldl stage_one a payloads"

definition max_batch_segments :: "nat \<Rightarrow> nat \<Rightarrow> nat" where
  "max_batch_segments gso_segments segment_size = max (min gso_segments (MAX_MESSAGE_SIZE div segment_size)) 1"

function batch_end :: "bytes list \<Rightarrow> nat \<Rightarrow> nat \<Rightarrow> nat \<Rightarrow> nat \<Rightarrow> nat" where
  "batch_end payloads start stop max_segments segment_size =
     (if stop < length payloads \<and> stop - start < max_segments \<and>
         packet_len (length (payloads ! stop)) = segment_size
      then batch_end payloads start (stop + 1) max_segments segment_size
      else stop)"
  by pat_completeness auto
termination by (relation "measure (\<lambda>(ps, _, e, _). length ps - e)") auto

fun chunks :: "nat \<Rightarrow> 'a list \<Rightarrow> 'a list list" where
  "chunks len xs = (if len = 0 \<or> xs = [] then [] else take len xs # chunks len (drop len xs))"

fun encrypt_batch ::
  "crypto \<Rightarrow> Instant \<Rightarrow> 'ts Peer \<Rightarrow> bytes list \<Rightarrow> bytes list \<Rightarrow> (nat \<times> bool \<times> 'ts Peer \<times> bytes list) option" where
  "encrypt_batch C now m (payload # payloads) (buf # bufs) = do {
     (r, m, buf) \<leftarrow> encrypt C m now payload buf;
     case r of
       Inl _ \<Rightarrow> Some (0, True, m, buf # bufs)
     | Inr _ \<Rightarrow> do {
         (encrypted, stalled, m, bufs) \<leftarrow> encrypt_batch C now m payloads bufs;
         Some (encrypted + 1, stalled, m, buf # bufs)
       }
   }"
| "encrypt_batch C now m _ bufs = Some (0, False, m, bufs)"

declare batch_end.simps [simp del] chunks.simps [simp del]

lemma encrypt_batch_length:
  "encrypt_batch C now m payloads bufs = Some (encrypted, stalled, m', bufs') \<Longrightarrow>
     (\<not> stalled \<longrightarrow> encrypted = min (length payloads) (length bufs)) \<and> length bufs' = length bufs"
  by (induction C now m payloads bufs arbitrary: encrypted m' bufs' rule: encrypt_batch.induct)
    (auto split: bind_splits sum.splits)

lemma batch_end_bounds:
  "start < stop \<Longrightarrow> stop \<le> length payloads \<Longrightarrow>
     start < batch_end payloads start stop n len \<and> batch_end payloads start stop n len \<le> length payloads"
proof (induction payloads start stop n len rule: batch_end.induct)
  case (1 payloads start stop n len)
  then show ?case by (auto simp: batch_end.simps [of payloads start stop n len])
qed

lemma chunks_Nil [simp]: "chunks len [] = []"
  by (simp add: chunks.simps)

lemma chunks_replicate:
  "0 < len \<Longrightarrow> chunks len (replicate (n * len) x) = replicate n (replicate len x)"
proof (induction n)
  case (Suc n)
  then show ?case by (simp add: chunks.simps [of len "replicate (len + n * len) x"])
qed simp

function flush_loop ::
  "crypto \<Rightarrow> 'ts env \<Rightarrow> Instant \<Rightarrow> nat \<Rightarrow> bytes list \<Rightarrow> nat \<Rightarrow> bool \<Rightarrow> bool \<Rightarrow> 'ts PeerActor \<Rightarrow>
     (nat \<times> bool \<times> bool \<times> 'ts PeerActor) option" where
  "flush_loop C E now gso_segments payloads start sent encrypted_any a =
     (if start < length payloads then do {
        let segment_size = packet_len (length (payloads ! start));
        let max_segments = max_batch_segments gso_segments segment_size;
        let stop = batch_end payloads start (start + 1) max_segments segment_size;
        let bufs = chunks segment_size (replicate ((stop - start) * segment_size) 0);
        (encrypted, stalled, m, bufs) \<leftarrow> encrypt_batch C now (pa_machine a) (sub payloads start stop) bufs;
        let a = a\<lparr>pa_machine := m\<rparr>;
        (sent, encrypted_any, a) \<leftarrow>
          (if 0 < encrypted then do {
             let batch = take (encrypted * segment_size) (concat bufs);
             endpoint \<leftarrow> p_endpoint m;
             let (ok, a) = socket_send E a endpoint batch (Some segment_size);
             Some (if ok then (True, True, count_sent E a (length batch)) else (sent, True, a))
           } else Some (sent, encrypted_any, a));
        if stalled then Some (start + encrypted, sent, encrypted_any, a)
        else flush_loop C E now gso_segments payloads (start + encrypted) sent encrypted_any a
      } else Some (start, sent, encrypted_any, a))"
  by pat_completeness auto
termination
proof (relation "measure (\<lambda>(_, _, _, _, payloads, start, _). length payloads - start)", goal_cases)
  case 1
  then show ?case by simp
next
  case (2 C E now gso payloads start sent encrypted_any a len maxs stop bufs x encrypted x2 stalled x3 m bufs')
  have "start < stop" "stop \<le> length payloads"
    using 2 batch_end_bounds [of start "start + 1" payloads] by auto
  moreover have "bufs = replicate (stop - start) (replicate len 0)"
    using 2 by (simp add: chunks_replicate)
  ultimately have "0 < encrypted" using 2 encrypt_batch_length by fastforce
  then show ?case using 2 by auto
qed

declare flush_loop.simps [simp del]

definition note_sent :: "'ts env \<Rightarrow> 'ts PeerActor \<Rightarrow> Instant \<Rightarrow> bool \<times> 'ts PeerActor" where
  "note_sent E a now =
     (let a = a\<lparr>pa_last_send := now\<rparr>
      in case pa_session a of
           None \<Rightarrow> (False, a)
         | Some session \<Rightarrow>
             let (jitter, a) = rekey_jitter E a;
                 session = data_sent session now jitter
             in (rekey_after_send session now, a\<lparr>pa_session := Some session\<rparr>))"

definition flush_sends ::
  "crypto \<Rightarrow> 'ts tai \<Rightarrow> 'ts env \<Rightarrow> 'ts PeerActor \<Rightarrow> bytes list \<Rightarrow> 'ts PeerActor option" where
  "flush_sends C T E a payloads =
     (if payloads = [] then Some a else do {
        let (now, a) = read_env (env_now E) a;
        let (gso_segments, a) = read_env (env_max_gso_segments E) a;
        (start, sent, encrypted_any, a) \<leftarrow> flush_loop C E now gso_segments payloads 0 False False a;
        if start < length payloads
        then ensure_handshake C T E (stage (a\<lparr>pa_session := None\<rparr>) (drop start payloads))
        else
          let rekey = (encrypted_any \<and> Peer_rekey_due_to_messages (pa_machine a));
              (time_rekey, a) = (if sent then note_sent E a now else (False, a))
          in if (rekey \<or> time_rekey) \<and> pa_handshake a = None then send_handshake C T E a now else Some a
      })"

definition flush_staged :: "crypto \<Rightarrow> 'ts tai \<Rightarrow> 'ts env \<Rightarrow> 'ts PeerActor \<Rightarrow> 'ts PeerActor option" where
  "flush_staged C T E a =
     (if pa_staged a = [] then Some a else flush_sends C T E (a\<lparr>pa_staged := []\<rparr>) (pa_staged a))"

definition send_keepalive :: "crypto \<Rightarrow> 'ts tai \<Rightarrow> 'ts env \<Rightarrow> 'ts PeerActor \<Rightarrow> 'ts PeerActor option" where
  "send_keepalive C T E a = do {
     let (now, a) = read_env (env_now E) a;
     (r, m, msg) \<leftarrow> encrypt C (pa_machine a) now [] (replicate (packet_len 0) 0);
     let a = a\<lparr>pa_machine := m\<rparr>;
     case r of
       Inl _ \<Rightarrow> Some (a\<lparr>pa_session := None\<rparr>)
     | Inr len \<Rightarrow> do {
         let message_rekey = Peer_rekey_due_to_messages m;
         endpoint \<leftarrow> p_endpoint m;
         let a = a\<lparr>pa_session := map_option keepalive_sent (pa_session a)\<rparr>;
         packet \<leftarrow> subslice msg 0 len;
         let (sent, a) = socket_send E a endpoint packet None;
         let a = (if sent then count_sent E (a\<lparr>pa_last_send := now\<rparr>) len else a);
         let time_rekey = (sent \<and> is_some_and (pa_session a) (\<lambda>session. rekey_after_send session now));
         if message_rekey \<or> time_rekey then ensure_handshake C T E a else Some a
       }
   }"

definition session_established ::
  "crypto \<Rightarrow> 'ts tai \<Rightarrow> 'ts env \<Rightarrow> 'ts PeerActor \<Rightarrow> bool \<Rightarrow> 'ts PeerActor option" where
  "session_established C T E a initiator = do {
     let had_staged = (pa_staged a \<noteq> []);
     a \<leftarrow> flush_staged C T E a;
     a \<leftarrow> (if initiator \<and> \<not> had_staged then send_keepalive C T E a else Some a);
     Some (a\<lparr>pa_session_tx := True\<rparr>)
   }"

section \<open>Actions\<close>

definition recv_data_action ::
  "crypto \<Rightarrow> 'ts tai \<Rightarrow> 'ts env \<Rightarrow> 'ts PeerActor \<Rightarrow> Instant \<Rightarrow> bytes \<Rightarrow> u32 \<Rightarrow> SocketAddr \<Rightarrow> 'ts PeerActor option" where
  "recv_data_action C T E a now data receiver endpoint = do {
     let rx_bytes = of_nat (length data);
     (r, m, data) \<leftarrow> decrypt C (pa_machine a) now receiver data endpoint;
     let a = a\<lparr>pa_machine := m\<rparr>;
     case r of
       Inl _ \<Rightarrow> Some a
     | Inr recv \<Rightarrow> do {
         let confirmed = rv_confirmed recv;
         let payload = (if 0 < rv_payload_len recv then Some (take (rv_payload_len recv) data) else None);
         let a = retire_index a (rv_unmapped recv);
         let (t, a) = read_env (env_system_time E) a;
         let a = update_status a (\<lambda>st. st\<lparr>st_endpoint := Some endpoint,
           st_rx_bytes := st_rx_bytes st + rx_bytes, st_last_recv := Some t\<rparr>);
         let a = (if confirmed then a\<lparr>pa_session := Some (ActorSession_new False now)\<rparr> else a);
         let a = a\<lparr>pa_session := map_option (packet_received now (payload \<noteq> None)) (pa_session a)\<rparr>;
         let rekey = is_some_and (pa_session a) (\<lambda>session. rekey_after_receive session now);
         let a = (case payload of
                    None \<Rightarrow> a
                  | Some payload \<Rightarrow> inbound_try_send E a
                      \<lparr>pk_public_key = p_peer_key (pa_machine a), pk_payload = payload\<rparr>);
         a \<leftarrow> (if confirmed then session_established C T E a False else Some a);
         if rekey then ensure_handshake C T E a else Some a
       }
   }"

definition recv_init_action ::
  "crypto \<Rightarrow> ('ts::linorder) tai \<Rightarrow> 'ts env \<Rightarrow> 'ts PeerActor \<Rightarrow> Instant \<Rightarrow> 'ts InitReceived \<Rightarrow> SocketAddr \<Rightarrow>
     'ts PeerActor option" where
  "recv_init_action C T E a now handshake endpoint = do {
     let (vals, a) = fresh_values E a;
     (r, m, msg) \<leftarrow> Peer_respond C T (pa_machine a) now handshake vals endpoint (replicate RESP_MSG_LENGTH 0);
     let a = a\<lparr>pa_machine := m\<rparr>;
     case r of
       Inl _ \<Rightarrow> Some a
     | Inr displaced \<Rightarrow>
         let a = retire_index a displaced;
             a = bind_index a (hv_index vals);
             (ok, a) = socket_send E a endpoint msg None
         in if \<not> ok then Some a else
              let a = a\<lparr>pa_last_send := now\<rparr>;
                  (t1, a) = read_env (env_system_time E) a;
                  (t2, a) = read_env (env_system_time E) a;
                  (t3, a) = read_env (env_system_time E) a
              in Some (update_status a (\<lambda>st. st\<lparr>st_endpoint := Some endpoint,
                   st_rx_bytes := st_rx_bytes st + of_nat INIT_MSG_LENGTH, st_last_recv := Some t1,
                   st_tx_bytes := st_tx_bytes st + of_nat (length msg), st_last_send := Some t2,
                   st_last_successful_handshake := Some t3\<rparr>))
   }"

definition recv_resp_action ::
  "crypto \<Rightarrow> 'ts tai \<Rightarrow> 'ts env \<Rightarrow> 'ts PeerActor \<Rightarrow> Instant \<Rightarrow> bytes \<Rightarrow> SocketAddr \<Rightarrow> 'ts PeerActor option" where
  "recv_resp_action C T E a now resp endpoint = do {
     let rx_bytes = of_nat (length resp);
     (r, m, _) \<leftarrow> handshake_response C (pa_machine a) (pa_our_key a) now resp endpoint;
     let a = a\<lparr>pa_machine := m\<rparr>;
     case r of
       Inl _ \<Rightarrow> Some a
     | Inr retired \<Rightarrow>
         let a = retire_index a retired;
             a = a\<lparr>pa_handshake := None, pa_session := Some (ActorSession_new True now)\<rparr>;
             (t1, a) = read_env (env_system_time E) a;
             (t2, a) = read_env (env_system_time E) a;
             a = update_status a (\<lambda>st. st\<lparr>st_endpoint := Some endpoint, st_rx_bytes := st_rx_bytes st + rx_bytes,
                   st_last_recv := Some t1, st_last_successful_handshake := Some t2\<rparr>)
         in session_established C T E a True
   }"

definition handle_message ::
  "crypto \<Rightarrow> ('ts::linorder) tai \<Rightarrow> 'ts env \<Rightarrow> 'ts PeerActor \<Rightarrow> 'ts PeerAction \<Rightarrow> 'ts PeerActor option" where
  "handle_message C T E a action =
     (let (now, a) = read_env (env_now E) a
      in case action of
           Connect endpoint \<Rightarrow> apply_endpoint C T E a endpoint
         | Update update \<Rightarrow> apply_update C T E a update
         | SendData payload \<Rightarrow> flush_sends C T E a [payload]
         | RecvData data receiver endpoint \<Rightarrow> recv_data_action C T E a now data receiver endpoint
         | RecvHandshakeInit handshake endpoint \<Rightarrow> recv_init_action C T E a now handshake endpoint
         | RecvHandshakeResp resp endpoint \<Rightarrow> recv_resp_action C T E a now resp endpoint
         | RecvCookieReply reply \<Rightarrow> do {
             let (ts, a) = read_env (env_tai E) a;
             (_, m) \<leftarrow> cookie_reply C (pa_machine a) reply ts;
             Some (a\<lparr>pa_machine := m\<rparr>)
           })"

fun process_actions ::
  "crypto \<Rightarrow> ('ts::linorder) tai \<Rightarrow> 'ts env \<Rightarrow> 'ts PeerActor \<Rightarrow> 'ts PeerAction list \<Rightarrow> bytes list \<Rightarrow>
     'ts PeerActor option" where
  "process_actions C T E a [] payloads = flush_sends C T E a payloads"
| "process_actions C T E a (action # actions) payloads =
     (case action of
        SendData payload \<Rightarrow> process_actions C T E a actions (payloads @ [payload])
      | _ \<Rightarrow> do {
          a \<leftarrow> flush_sends C T E a payloads;
          a \<leftarrow> handle_message C T E a action;
          process_actions C T E a actions []
        })"

section \<open>Timers\<close>

definition persistent_keepalive_at :: "'ts PeerActor \<Rightarrow> Instant option" where
  "persistent_keepalive_at a =
     (case pa_persistent_keepalive a of
        Some interval \<Rightarrow>
          if p_endpoint (pa_machine a) \<noteq> None then Some (instant_add (pa_last_send a) interval) else None
      | None \<Rightarrow> None)"

definition handshake_due :: "crypto \<Rightarrow> 'ts tai \<Rightarrow> 'ts env \<Rightarrow> 'ts PeerActor \<Rightarrow> 'ts PeerActor option" where
  "handshake_due C T E a =
     (case pa_handshake a of
        None \<Rightarrow> Some a
      | Some handshake \<Rightarrow>
          let (now, a) = read_env (env_now E) a
          in if REKEY_ATTEMPT_TIME \<le> duration_since now (ha_first_sent handshake) then
               let (abandoned, m) = abandon_handshake (pa_machine a)
               in Some (retire_index (a\<lparr>pa_handshake := None, pa_staged := [], pa_machine := m\<rparr>) abandoned)
             else send_handshake C T E a (ha_first_sent handshake))"

definition session_expired :: "'ts PeerActor \<Rightarrow> 'ts PeerActor" where
  "session_expired a = a\<lparr>pa_session := None\<rparr>"

definition new_handshake_due :: "crypto \<Rightarrow> 'ts tai \<Rightarrow> 'ts env \<Rightarrow> 'ts PeerActor \<Rightarrow> 'ts PeerActor option" where
  "new_handshake_due C T E a =
     ensure_handshake C T E
       (a\<lparr>pa_session := map_option (\<lambda>session. session\<lparr>as_new_handshake_at := None\<rparr>) (pa_session a)\<rparr>)"

definition persistent_keepalive_due ::
  "crypto \<Rightarrow> 'ts tai \<Rightarrow> 'ts env \<Rightarrow> 'ts PeerActor \<Rightarrow> 'ts PeerActor option" where
  "persistent_keepalive_due C T E a =
     (let (now, a) = read_env (env_now E) a;
          a = a\<lparr>pa_last_send := now\<rparr>
      in if is_some_and (pa_session a) (\<lambda>s. usable s now) then send_keepalive C T E a
         else ensure_handshake C T E a)"

section \<open>The loop\<close>

datatype 'ts event =
    Actions "'ts PeerAction list"
  | HandshakeTimer
  | ExpiryTimer
  | KeepaliveTimer
  | NewHandshakeTimer
  | PersistentTimer

fun timer_at :: "'ts PeerActor \<Rightarrow> 'ts event \<Rightarrow> Instant option" where
  "timer_at a (Actions _) = None"
| "timer_at a HandshakeTimer = map_option ha_retry_at (pa_handshake a)"
| "timer_at a ExpiryTimer = map_option expires_at (pa_session a)"
| "timer_at a KeepaliveTimer = Option.bind (pa_session a) as_keepalive_at"
| "timer_at a NewHandshakeTimer = Option.bind (pa_session a) as_new_handshake_at"
| "timer_at a PersistentTimer = persistent_keepalive_at a"

definition iteration ::
  "crypto \<Rightarrow> ('ts::linorder) tai \<Rightarrow> 'ts env \<Rightarrow> 'ts PeerActor \<Rightarrow> 'ts event \<Rightarrow> 'ts PeerActor option" where
  "iteration C T E a event = do {
     _ \<leftarrow> Clock_sleep_until E (timer_at a HandshakeTimer);
     _ \<leftarrow> Clock_sleep_until E (timer_at a ExpiryTimer);
     _ \<leftarrow> Clock_sleep_until E (timer_at a KeepaliveTimer);
     _ \<leftarrow> Clock_sleep_until E (timer_at a NewHandshakeTimer);
     _ \<leftarrow> Clock_sleep_until E (timer_at a PersistentTimer);
     case event of
       Actions actions \<Rightarrow> process_actions C T E a actions []
     | HandshakeTimer \<Rightarrow> handshake_due C T E a
     | ExpiryTimer \<Rightarrow> Some (session_expired a)
     | KeepaliveTimer \<Rightarrow> send_keepalive C T E a
     | NewHandshakeTimer \<Rightarrow> new_handshake_due C T E a
     | PersistentTimer \<Rightarrow> persistent_keepalive_due C T E a
   }"

definition spawn :: "crypto \<Rightarrow> bytes \<Rightarrow> bytes \<Rightarrow> PeerConfig \<Rightarrow> PeerStatus \<Rightarrow> 'ts PeerActor" where
  "spawn C our_key public_key config status =
     \<lparr>pa_our_key = our_key, pa_machine = set_preshared_key (Peer_new C public_key) (pc_preshared_key config),
      pa_persistent_keepalive = pc_persistent_keepalive config, pa_last_send = Instant_default,
      pa_handshake = None, pa_session = None, pa_session_tx = False, pa_staged = [], pa_status = status,
      pa_control = [], pa_wire = [], pa_inbound = [], pa_tick = 0\<rparr>"

end
