(* ===== verification/ReadLoop.thy ===== *)
theory ReadLoop
  imports Load Actor
begin

text \<open>
  The receive side of the tunnel (\<open>Tunnel::read_loop\<close> of \<open>tunnel/src/lib.rs\<close>): it cuts what the
  socket delivers into messages, sends handshake messages through the load guard and hands
  each message to the actor it is addressed to.

  The socket is a parameter: an event of the loop carries the buffers and the descriptions
  (\<open>RecvMeta\<close>) it filled. The clock and the random numbers are an environment, read like that of an actor.
  Cookie replies are appended to a log. A handshake message is decrypted in place in the receive
  buffer; those bytes are not read again, so the buffer is not part of the result.
\<close>

section \<open>State\<close>

record net_env =
  ne_now :: "nat \<Rightarrow> Instant"
  ne_secret :: "nat \<Rightarrow> bytes"
  ne_nonce :: "nat \<Rightarrow> bytes"

record RecvMeta =
  rm_addr :: SocketAddr
  rm_len :: nat
  rm_stride :: nat

record ReadLoop =
  rl_our_private :: bytes
  rl_guard :: LoadGuard
  rl_secret_rotated :: Instant
  rl_indices :: IndexRouter
  rl_replies :: "(SocketAddr \<times> bytes) list"
  rl_tick :: nat

definition rl_read :: "(nat \<Rightarrow> 'x) \<Rightarrow> ReadLoop \<Rightarrow> 'x \<times> ReadLoop" where
  "rl_read f l = (f (rl_tick l), l\<lparr>rl_tick := rl_tick l + 1\<rparr>)"

definition read_loop_start :: "net_env \<Rightarrow> bytes \<Rightarrow> LoadGuard \<Rightarrow> ReadLoop" where
  "read_loop_start E our_private guard =
     \<lparr>rl_our_private = our_private, rl_guard = guard, rl_secret_rotated = ne_now E 0,
      rl_indices = IndexRouter_new, rl_replies = [], rl_tick = 1\<rparr>"

section \<open>One message\<close>

text \<open>The load guard in front of handshake messages, and whether the message goes on.\<close>

definition rotate_due :: "net_env \<Rightarrow> ReadLoop \<Rightarrow> Instant \<Rightarrow> ReadLoop" where
  "rotate_due E l now =
     (if COOKIE_REFRESH_INTERVAL \<le> duration_since now (rl_secret_rotated l)
      then let (secret, l) = rl_read (ne_secret E) l
           in l\<lparr>rl_guard := rotate_secret (rl_guard l) secret, rl_secret_rotated := now\<rparr>
      else l)"

definition admit ::
  "crypto \<Rightarrow> net_env \<Rightarrow> ReadLoop \<Rightarrow> SocketAddr \<Rightarrow> bytes \<Rightarrow> (bool \<times> ReadLoop) option" where
  "admit C E l addr segment = do {
     let (now, l) = rl_read (ne_now E) l;
     let l = rotate_due E l now;
     let (nonce, l) = rl_read (ne_nonce E) l;
     (decision, guard) \<leftarrow> check C (rl_guard l) now segment addr nonce;
     let l = l\<lparr>rl_guard := guard\<rparr>;
     case decision of
       Process \<Rightarrow> Some (True, l)
     | Drop \<Rightarrow> Some (False, l)
     | Cookie reply \<Rightarrow> Some (False, l\<lparr>rl_replies := rl_replies l @ [(addr, reply)]\<rparr>)
   }"

definition dispatch ::
  "crypto \<Rightarrow> 'ts tai \<Rightarrow> ReadLoop \<Rightarrow> 'ts RoutingTable \<Rightarrow> SocketAddr \<Rightarrow> MessageHeader \<Rightarrow> bytes \<Rightarrow>
     'ts RoutingTable option" where
  "dispatch C T l rt addr header segment =
     (case header of
        HandshakeInit \<Rightarrow> do {
          (r, _) \<leftarrow> receive C T (rl_our_private l) segment;
          Some (case r of Inl _ \<Rightarrow> rt | Inr handshake \<Rightarrow> recv_handshake_init rt addr handshake)
        }
      | HandshakeResponse receiver \<Rightarrow> Some (recv_handshake_resp (rl_indices l) rt addr receiver segment)
      | Data receiver \<Rightarrow> Some (recv_data (rl_indices l) rt addr receiver segment)
      | CookieReply receiver \<Rightarrow> Some (recv_cookie_reply (rl_indices l) rt receiver segment))"

definition process_segment ::
  "crypto \<Rightarrow> 'ts tai \<Rightarrow> net_env \<Rightarrow> ReadLoop \<times> 'ts RoutingTable \<Rightarrow> SocketAddr \<Rightarrow> bytes \<Rightarrow>
     (ReadLoop \<times> 'ts RoutingTable) option" where
  "process_segment C T E = (\<lambda>(l, rt) addr segment. do {
     r \<leftarrow> MessageHeader_try_from segment;
     case r of
       Inl _ \<Rightarrow> Some (l, rt)
     | Inr header \<Rightarrow> do {
         (go, l) \<leftarrow> (if is_handshake (Inr header) then admit C E l addr segment else Some (True, l));
         if \<not> go then Some (l, rt) else do {
           rt \<leftarrow> dispatch C T l rt addr header segment;
           Some (l, rt)
         }
       }
   })"

section \<open>What the socket delivers\<close>

function segment_loop ::
  "crypto \<Rightarrow> 'ts tai \<Rightarrow> net_env \<Rightarrow> ReadLoop \<times> 'ts RoutingTable \<Rightarrow> bytes \<Rightarrow> RecvMeta \<Rightarrow> nat \<Rightarrow>
     (ReadLoop \<times> 'ts RoutingTable) option" where
  "segment_loop C T E st buf meta offset =
     (if offset < rm_len meta then do {
        let len = min (rm_stride meta) (rm_len meta - offset);
        if len = 0 then Some st else do {
          segment \<leftarrow> subslice buf offset (offset + len);
          st \<leftarrow> process_segment C T E st (rm_addr meta) segment;
          segment_loop C T E st buf meta (offset + len)
        }
      } else Some st)"
  by pat_completeness auto
termination by (relation "measure (\<lambda>(_, _, _, _, _, meta, offset). rm_len meta - offset)") auto

declare segment_loop.simps [simp del]

fun batch_loop ::
  "crypto \<Rightarrow> 'ts tai \<Rightarrow> net_env \<Rightarrow> ReadLoop \<times> 'ts RoutingTable \<Rightarrow> (bytes \<times> RecvMeta) list \<Rightarrow>
     (ReadLoop \<times> 'ts RoutingTable) option" where
  "batch_loop C T E st [] = Some st"
| "batch_loop C T E st ((buf, meta) # batch) = do {
     st \<leftarrow> segment_loop C T E st buf meta 0;
     batch_loop C T E st batch
   }"

datatype read_event =
    RoutingUpdate
  | RecvError
  | Received "bytes list" "RecvMeta list" nat

fun read_loop ::
  "crypto \<Rightarrow> 'ts tai \<Rightarrow> net_env \<Rightarrow> ReadLoop \<times> 'ts RoutingTable \<Rightarrow> read_event \<Rightarrow>
     (ReadLoop \<times> 'ts RoutingTable) option" where
  "read_loop C T E (l, rt) RoutingUpdate =
     (case rt_control rt of
        [] \<Rightarrow> Some (l, rt)
      | update # control \<Rightarrow>
          Some (l\<lparr>rl_indices := IndexRouter_apply (rl_indices l) update rt\<rparr>, rt\<lparr>rt_control := control\<rparr>))"
| "read_loop C T E st RecvError = Some st"
| "read_loop C T E st (Received bufs metas n) = batch_loop C T E st (take n (zip bufs metas))"

section \<open>The loops visit every message once\<close>

text \<open>
  The messages of a batch: each buffer up to the received length, cut at the stride, with the
  address it came from.
\<close>

definition messages :: "(bytes \<times> RecvMeta) list \<Rightarrow> (SocketAddr \<times> bytes) list" where
  "messages batch =
     concat (map (\<lambda>(buf, meta). map (Pair (rm_addr meta)) (chunks (rm_stride meta) (take (rm_len meta) buf))) batch)"

fun process_all ::
  "crypto \<Rightarrow> 'ts tai \<Rightarrow> net_env \<Rightarrow> ReadLoop \<times> 'ts RoutingTable \<Rightarrow> (SocketAddr \<times> bytes) list \<Rightarrow>
     (ReadLoop \<times> 'ts RoutingTable) option" where
  "process_all C T E st [] = Some st"
| "process_all C T E st ((addr, segment) # msgs) = do {
     st \<leftarrow> process_segment C T E st addr segment;
     process_all C T E st msgs
   }"

lemma process_all_append:
  "process_all C T E st (xs @ ys) = do { st \<leftarrow> process_all C T E st xs; process_all C T E st ys }"
proof (induction xs arbitrary: st)
  case (Cons x xs)
  show ?case by (cases x) (simp add: Cons.IH)
qed simp

text \<open>A datagram fits in the buffer it was received into.\<close>

definition meta_ok :: "bytes \<times> RecvMeta \<Rightarrow> bool" where
  "meta_ok = (\<lambda>(buf, meta). rm_len meta \<le> length buf)"

lemma segment_loop_eq:
  assumes "rm_len meta \<le> length buf"
  shows "segment_loop C T E st buf meta offset =
    process_all C T E st (map (Pair (rm_addr meta)) (chunks (rm_stride meta) (drop offset (take (rm_len meta) buf))))"
  using assms
proof (induction C T E st buf meta offset rule: segment_loop.induct)
  case (1 C T E st buf meta offset)
  let ?rest = "drop offset (take (rm_len meta) buf)" and ?n = "min (rm_stride meta) (rm_len meta - offset)"
  show ?case
  proof (cases "offset < rm_len meta \<and> rm_stride meta \<noteq> 0")
    case False
    then have "chunks (rm_stride meta) ?rest = []" by (auto simp: chunks.simps)
    then show ?thesis using False by (auto simp: segment_loop.simps [of C T E st buf meta offset])
  next
    case True
    then have n: "?n \<noteq> 0" "offset + ?n \<le> length buf" and rest: "?rest \<noteq> []" using 1(2) by auto
    from n(2) have seg: "subslice buf offset (offset + ?n) = Some (sub buf offset (offset + ?n))"
      by (rule subslice_Some [OF le_add1])
    moreover have "take (rm_stride meta) ?rest = sub buf offset (offset + ?n)"
        "drop (rm_stride meta) ?rest = drop (offset + ?n) (take (rm_len meta) buf)"
      using 1(2) by (simp_all add: sub_def drop_take min_def add.commute)
    ultimately have ch: "chunks (rm_stride meta) ?rest =
        sub buf offset (offset + ?n) # chunks (rm_stride meta) (drop (offset + ?n) (take (rm_len meta) buf))"
      using True rest chunks.simps [of "rm_stride meta" ?rest] by simp
    have loop: "segment_loop C T E st' buf meta (offset + ?n) = process_all C T E st'
        (map (Pair (rm_addr meta)) (chunks (rm_stride meta) (drop (offset + ?n) (take (rm_len meta) buf))))"
      if "process_segment C T E st (rm_addr meta) (sub buf offset (offset + ?n)) = Some st'" for st'
      using 1(1) [OF _ refl _ seg that] True n(1) 1(2) by simp
    have "segment_loop C T E st buf meta offset =
        Option.bind (process_segment C T E st (rm_addr meta) (sub buf offset (offset + ?n)))
          (\<lambda>st'. segment_loop C T E st' buf meta (offset + ?n))"
      using True n(1) seg by (subst segment_loop.simps) (simp add: Let_def del: min_less_iff_conj)
    then show ?thesis unfolding ch list.map process_all.simps
      by (cases "process_segment C T E st (rm_addr meta) (sub buf offset (offset + ?n))") (simp_all only: loop bind.simps)
  qed
qed

lemma batch_loop_eq:
  "list_all meta_ok batch \<Longrightarrow> batch_loop C T E st batch = process_all C T E st (messages batch)"
proof (induction batch arbitrary: st)
  case (Cons x batch)
  then show ?case by (cases x) (simp add: messages_def segment_loop_eq meta_ok_def process_all_append)
qed (simp add: messages_def)

lemma concat_chunks: "0 < n \<Longrightarrow> concat (chunks n xs) = xs"
proof (induction n xs rule: chunks.induct)
  case (1 n xs)
  then show ?case by (cases "xs = []") (simp_all add: chunks.simps [of n xs])
qed

section \<open>Additions to the queues\<close>

text \<open>
  A call that only appends to the queues of the actors, respecting their capacity; \<open>P\<close> holds of
  what is appended and the channel it is appended to.
\<close>

definition enqueued :: "'ts RoutingTable \<Rightarrow> 'ts RoutingTable \<Rightarrow> (chan \<Rightarrow> 'ts PeerAction \<Rightarrow> bool) \<Rightarrow> bool" where
  "enqueued rt rt' P \<longleftrightarrow> rt_peers rt' = rt_peers rt \<and> rt_control rt' = rt_control rt \<and>
     rt_statuses rt' = rt_statuses rt \<and> rt_next_chan rt' = rt_next_chan rt \<and>
     (\<forall>ch. \<exists>new. rt_queues rt' ch = rt_queues rt ch @ new \<and> (\<forall>action \<in> set new. P ch action) \<and>
        (new \<noteq> [] \<longrightarrow> length (rt_queues rt' ch) \<le> PEER_ACTION_QUEUE_CAPACITY))"

lemma enqueued_refl [simp]: "enqueued rt rt P"
  by (simp add: enqueued_def)

lemma enqueued_trans:
  assumes "enqueued rt rt1 P" and "enqueued rt1 rt2 P"
  shows "enqueued rt rt2 P"
proof -
  have "\<exists>new. rt_queues rt2 ch = rt_queues rt ch @ new \<and> (\<forall>action \<in> set new. P ch action) \<and>
      (new \<noteq> [] \<longrightarrow> length (rt_queues rt2 ch) \<le> PEER_ACTION_QUEUE_CAPACITY)" for ch
  proof -
    obtain new1 new2 where "rt_queues rt1 ch = rt_queues rt ch @ new1" "\<forall>action \<in> set new1. P ch action"
      "new1 \<noteq> [] \<longrightarrow> length (rt_queues rt1 ch) \<le> PEER_ACTION_QUEUE_CAPACITY"
      "rt_queues rt2 ch = rt_queues rt1 ch @ new2" "\<forall>action \<in> set new2. P ch action"
      "new2 \<noteq> [] \<longrightarrow> length (rt_queues rt2 ch) \<le> PEER_ACTION_QUEUE_CAPACITY"
      using assms unfolding enqueued_def by blast
    then show ?thesis by (intro exI [of _ "new1 @ new2"]) auto
  qed
  then show ?thesis using assms by (simp add: enqueued_def)
qed

lemma enqueued_mono: "enqueued rt rt' P \<Longrightarrow> (\<And>ch action. P ch action \<Longrightarrow> Q ch action) \<Longrightarrow> enqueued rt rt' Q"
  unfolding enqueued_def by meson

lemma enqueued_try_send: "P ch action \<Longrightarrow> enqueued rt (snd (try_send rt ch action)) P"
  by (simp add: enqueued_def try_send_def)

lemma enqueued_index: "(\<And>ch. ir i = Some ch \<Longrightarrow> P ch action) \<Longrightarrow> enqueued rt (try_send_to_index ir rt i action) P"
  by (simp add: try_send_to_index_def enqueued_try_send split: option.split)

section \<open>What the loop hands on\<close>

definition net_env_ok :: "net_env \<Rightarrow> bool" where
  "net_env_ok E \<longleftrightarrow> (\<forall>k. length (ne_secret E k) = 32 \<and> length (ne_nonce E k) = 24)"

text \<open>The read loop goes on with the same key and routes, and counts one message.\<close>

definition rl_kept :: "ReadLoop \<Rightarrow> nat \<Rightarrow> ReadLoop \<Rightarrow> bool" where
  "rl_kept l n l' \<longleftrightarrow> rl_our_private l' = rl_our_private l \<and> rl_indices l' = rl_indices l \<and>
     LoadGuard_ok (rl_guard l') \<and> lg_verifier (rl_guard l') = lg_verifier (rl_guard l) \<and>
     lg_max_per_second (rl_guard l') = lg_max_per_second (rl_guard l) \<and>
     unat (lg_handshakes (rl_guard l')) \<le> unat (lg_handshakes (rl_guard l)) + n"

lemma mac1_valid_verifier: "lg_verifier g' = lg_verifier g \<Longrightarrow> mac1_valid C g' msg = mac1_valid C g msg"
  by (simp add: mac1_valid_def)

text \<open>The guard counts fewer messages than its rate: it asks nobody for a cookie.\<close>

definition relaxed :: "LoadGuard \<Rightarrow> bool" where
  "relaxed g \<longleftrightarrow> lg_handshakes g < lg_max_per_second g"

lemma relaxed_admits:
  assumes "relaxed g"
  shows "lg_handshakes (open_window g now) + 1 \<le> lg_max_per_second g"
proof -
  have "lg_handshakes g < lg_max_per_second g" "0 < lg_max_per_second g"
    using assms word_zero_le le_less_trans unfolding relaxed_def by blast+
  then have "lg_handshakes g + 1 \<le> lg_max_per_second g" "0 + 1 \<le> lg_max_per_second g" by (blast intro: inc_le)+
  then show ?thesis by (simp add: open_window_def)
qed

lemma admit_ok:
  assumes C: "crypto_ok C" and E: "net_env_ok E" and g: "LoadGuard_ok (rl_guard l)"
    and room: "unat (lg_handshakes (rl_guard l)) < 2 ^ 32 - 1"
  shows "\<exists>go l'. admit C E l addr segment = Some (go, l') \<and> rl_kept l 1 l' \<and> (go \<longrightarrow> mac1_valid C (rl_guard l) segment) \<and>
    (mac1_valid C (rl_guard l) segment \<longrightarrow> relaxed (rl_guard l) \<longrightarrow> go)"
proof -
  define now where "now = ne_now E (rl_tick l)"
  define l1 where "l1 = rotate_due E (l\<lparr>rl_tick := Suc (rl_tick l)\<rparr>) now"
  have l1: "rl_our_private l1 = rl_our_private l" "rl_indices l1 = rl_indices l" "LoadGuard_ok (rl_guard l1)"
    "lg_verifier (rl_guard l1) = lg_verifier (rl_guard l)" "lg_handshakes (rl_guard l1) = lg_handshakes (rl_guard l)"
    "lg_max_per_second (rl_guard l1) = lg_max_per_second (rl_guard l)"
    using g E by (simp_all add: l1_def rotate_due_def rl_read_def rotate_secret_def LoadGuard_ok_def net_env_ok_def)
  define g' where "g' = open_window (rl_guard l1) now"
  have up: "unat (lg_handshakes g' + 1) \<le> Suc (unat (lg_handshakes (rl_guard l)))"
    using count_up_unat [OF room] l1(5) by (simp add: g'_def open_window_def)
  have "lg_handshakes (rl_guard l1) \<noteq> - 1" "length (ne_nonce E (rl_tick l1)) = 24"
    using count_up_unat [OF room] l1(5) E by (simp_all add: net_env_ok_def)
  note check = check_eq [OF C l1(3) this(2,1) g'_def, of segment addr]
  have guard: "LoadGuard_ok g'" "lg_verifier g' = lg_verifier (rl_guard l)"
    "lg_max_per_second g' = lg_max_per_second (rl_guard l)"
    using l1(3,4,6) by (simp_all add: g'_def LoadGuard_ok_def)
  have calm: "lg_handshakes g' + 1 \<le> lg_max_per_second (rl_guard l1)" if "relaxed (rl_guard l)"
    using relaxed_admits [of "rl_guard l1" now] that l1(5,6) by (simp add: g'_def relaxed_def)
  have "rl_kept l 1 (l1\<lparr>rl_tick := t, rl_guard := g'\<lparr>lg_handshakes := lg_handshakes g' + 1\<rparr>, rl_replies := r\<rparr>)"
    "rl_kept l 1 (l1\<lparr>rl_tick := t, rl_guard := g'\<lparr>lg_handshakes := lg_handshakes g' + 1\<rparr>\<rparr>)" for t r
    using l1 guard up by (simp_all add: rl_kept_def LoadGuard_ok_def)
  moreover have "rl_kept l 1 (l1\<lparr>rl_tick := t\<rparr>)" for t using l1 by (simp add: rl_kept_def)
  ultimately show ?thesis using mac1_valid_verifier [OF l1(4)] calm
    by (auto simp: admit_def rl_read_def Let_def check l1_def [symmetric] now_def [symmetric])
qed

text \<open>
  The action for a channel that a message gives rise to: an initiation goes to the peer whose
  static key it carries, the other messages to the holder of their receiver index, and both
  handshake messages have passed the mac1 check.
\<close>

definition addressed ::
  "crypto \<Rightarrow> 'ts tai \<Rightarrow> ReadLoop \<Rightarrow> 'ts RoutingTable \<Rightarrow> chan \<Rightarrow> SocketAddr \<Rightarrow> bytes \<Rightarrow> 'ts PeerAction \<Rightarrow> bool" where
  "addressed C T l rt ch addr segment action \<longleftrightarrow>
     (case action of
        RecvHandshakeInit handshake a \<Rightarrow> a = addr \<and> mac1_valid C (rl_guard l) segment \<and>
          (\<exists>b. receive C T (rl_our_private l) segment = Some (Inr handshake, b)) \<and>
          entry rt (ir_peer_public handshake) = Some ch
      | RecvHandshakeResp packet a \<Rightarrow> packet = segment \<and> a = addr \<and> mac1_valid C (rl_guard l) segment \<and>
          (\<exists>i. MessageHeader_try_from segment = Some (Inr (HandshakeResponse i)) \<and> rl_indices l i = Some ch)
      | RecvData packet i a \<Rightarrow> packet = segment \<and> a = addr \<and>
          MessageHeader_try_from segment = Some (Inr (Data i)) \<and> rl_indices l i = Some ch
      | RecvCookieReply packet \<Rightarrow> packet = segment \<and>
          (\<exists>i. MessageHeader_try_from segment = Some (Inr (CookieReply i)) \<and> rl_indices l i = Some ch)
      | _ \<Rightarrow> False)"

lemma addressed_cong:
  assumes "rl_kept l n l'" and "enqueued rt rt' P"
  shows "addressed C T l' rt' = addressed C T l rt"
  using assms mac1_valid_verifier [of "rl_guard l'" "rl_guard l"]
  by (simp add: fun_eq_iff addressed_def rl_kept_def enqueued_def entry_def split: PeerAction.split)

lemma rl_kept_refl: "LoadGuard_ok (rl_guard l) \<Longrightarrow> rl_kept l n l"
  by (simp add: rl_kept_def)

lemma rl_kept_trans: "rl_kept l m l1 \<Longrightarrow> rl_kept l1 n l2 \<Longrightarrow> rl_kept l (m + n) l2"
  by (simp add: rl_kept_def)

lemma dispatch_ok:
  assumes C: "crypto_ok C" and h: "MessageHeader_try_from segment = Some (Inr header)"
    and k: "rl_kept l 1 l'" and m: "is_handshake (Inr header) \<Longrightarrow> mac1_valid C (rl_guard l) segment"
  shows "\<exists>rt'. dispatch C T l' rt addr header segment = Some rt' \<and>
    enqueued rt rt' (\<lambda>ch. addressed C T l rt ch addr segment)"
proof (cases header)
  case HandshakeInit
  obtain r b where r: "receive C T (rl_our_private l) segment = Some (r, b)" using receive_total [OF C] by blast
  have "enqueued rt (recv_handshake_init rt addr hs) (\<lambda>ch. addressed C T l rt ch addr segment)" if "r = Inr hs" for hs
    using r that m HandshakeInit unfolding recv_handshake_init_def
    by (auto simp: addressed_def is_handshake_def intro: enqueued_try_send split: option.split)
  then show ?thesis using HandshakeInit r k by (cases r) (simp_all add: dispatch_def rl_kept_def)
next
  case (HandshakeResponse i)
  then have "enqueued rt (recv_handshake_resp (rl_indices l) rt addr i segment) (\<lambda>ch. addressed C T l rt ch addr segment)"
    using h m unfolding recv_handshake_resp_def by (intro enqueued_index) (simp add: addressed_def is_handshake_def)
  then show ?thesis using HandshakeResponse k by (simp add: dispatch_def rl_kept_def)
next
  case (CookieReply i)
  then have "enqueued rt (recv_cookie_reply (rl_indices l) rt i segment) (\<lambda>ch. addressed C T l rt ch addr segment)"
    using h unfolding recv_cookie_reply_def by (intro enqueued_index) (simp add: addressed_def)
  then show ?thesis using CookieReply k by (simp add: dispatch_def rl_kept_def)
next
  case (Data i)
  then have "enqueued rt (recv_data (rl_indices l) rt addr i segment) (\<lambda>ch. addressed C T l rt ch addr segment)"
    using h unfolding recv_data_def by (intro enqueued_index) (simp add: addressed_def)
  then show ?thesis using Data k by (simp add: dispatch_def rl_kept_def)
qed

lemma process_segment_ok:
  assumes C: "crypto_ok C" and E: "net_env_ok E" and g: "LoadGuard_ok (rl_guard l)"
    and room: "unat (lg_handshakes (rl_guard l)) < 2 ^ 32 - 1"
  shows "\<exists>l' rt'. process_segment C T E (l, rt) addr segment = Some (l', rt') \<and> rl_kept l 1 l' \<and>
    enqueued rt rt' (\<lambda>ch. addressed C T l rt ch addr segment)"
proof -
  obtain r where r: "MessageHeader_try_from segment = Some r" by (simp add: MessageHeader_try_from_eq)
  show ?thesis
  proof (cases r)
    case (Inl e)
    then show ?thesis using r rl_kept_refl [OF g] by (simp add: process_segment_def)
  next
    case (Inr header)
    let ?admit = "if is_handshake (Inr header) then admit C E l addr segment else Some (True, l)"
    obtain go l' where a: "?admit = Some (go, l')" "rl_kept l 1 l'"
        "go \<Longrightarrow> is_handshake (Inr header) \<Longrightarrow> mac1_valid C (rl_guard l) segment"
      using admit_ok [OF C E g room, of addr segment] rl_kept_refl [OF g, of 1]
      by (cases "is_handshake (Inr header)") auto
    show ?thesis
    proof (cases go)
      case True
      then obtain rt' where "dispatch C T l' rt addr header segment = Some rt'"
          "enqueued rt rt' (\<lambda>ch. addressed C T l rt ch addr segment)"
        using dispatch_ok [OF C _ a(2), of segment header] r Inr a(3) by blast
      then show ?thesis using r Inr a(1,2) True by (simp add: process_segment_def)
    next
      case False
      then show ?thesis using r Inr a(1,2) by (simp add: process_segment_def)
    qed
  qed
qed

lemma process_all_ok:
  assumes C: "crypto_ok C" and E: "net_env_ok E"
  shows "LoadGuard_ok (rl_guard l) \<Longrightarrow> unat (lg_handshakes (rl_guard l)) + length msgs < 2 ^ 32 \<Longrightarrow>
    \<exists>l' rt'. process_all C T E (l, rt) msgs = Some (l', rt') \<and> rl_kept l (length msgs) l' \<and>
      enqueued rt rt' (\<lambda>ch action. \<exists>(addr, segment) \<in> set msgs. addressed C T l rt ch addr segment action)"
proof (induction msgs arbitrary: l rt)
  case Nil
  then show ?case by (simp add: rl_kept_refl)
next
  case (Cons msg msgs)
  obtain addr segment where msg: "msg = (addr, segment)" by (cases msg)
  obtain l1 rt1 where 1: "process_segment C T E (l, rt) addr segment = Some (l1, rt1)" "rl_kept l 1 l1"
      "enqueued rt rt1 (\<lambda>ch. addressed C T l rt ch addr segment)"
    using process_segment_ok [OF C E Cons.prems(1)] Cons.prems(2) by fastforce
  then have "LoadGuard_ok (rl_guard l1)" "unat (lg_handshakes (rl_guard l1)) + length msgs < 2 ^ 32"
    using Cons.prems(2) by (auto simp: rl_kept_def)
  from Cons.IH [OF this] obtain l2 rt2 where 2: "process_all C T E (l1, rt1) msgs = Some (l2, rt2)"
      "rl_kept l1 (length msgs) l2"
      "enqueued rt1 rt2 (\<lambda>ch action. \<exists>(addr, segment) \<in> set msgs. addressed C T l1 rt1 ch addr segment action)"
    by blast
  have "enqueued rt rt2 (\<lambda>ch action. \<exists>(addr, segment) \<in> set (msg # msgs). addressed C T l rt ch addr segment action)"
    by (rule enqueued_trans [OF enqueued_mono [OF 1(3)] enqueued_mono [OF 2(3)]])
      (auto simp: msg addressed_cong [OF 1(2,3)])
  then show ?case using 1(1) 2(1) rl_kept_trans [OF 1(2) 2(2)] by (simp add: msg)
qed

text \<open>
  Every message that is addressed to a channel reaches it, when its queue has room and no cookie is
  asked for.
\<close>

lemma message_reaches_actor:
  assumes C: "crypto_ok C" and E: "net_env_ok E" and g: "LoadGuard_ok (rl_guard l)" "relaxed (rl_guard l)"
    and to: "addressed C T l rt ch addr segment action"
    and room: "length (rt_queues rt ch) < PEER_ACTION_QUEUE_CAPACITY" "unat (lg_handshakes (rl_guard l)) < 2 ^ 32 - 1"
  shows "\<exists>l'. process_segment C T E (l, rt) addr segment =
    Some (l', rt\<lparr>rt_queues := (rt_queues rt)(ch := rt_queues rt ch @ [action])\<rparr>) \<and> rl_kept l 1 l'"
proof -
  obtain header where h: "MessageHeader_try_from segment = Some (Inr header)"
    "is_handshake (Inr header) \<Longrightarrow> mac1_valid C (rl_guard l) segment"
    using to by (auto simp: addressed_def is_handshake_def split: PeerAction.splits dest: receive_header)
  obtain l' where l': "(if is_handshake (Inr header) then admit C E l addr segment else Some (True, l)) = Some (True, l')" "rl_kept l 1 l'"
    using admit_ok [OF C E g(1) room(2), of addr segment] rl_kept_refl [OF g(1), of 1] h(2) g(2)
    by (cases "is_handshake (Inr header)") auto
  have "dispatch C T l' rt addr header segment = Some (rt\<lparr>rt_queues := (rt_queues rt)(ch := rt_queues rt ch @ [action])\<rparr>)"
  proof (cases action)
    case (RecvHandshakeInit hs a)
    then obtain b where "receive C T (rl_our_private l) segment = Some (Inr hs, b)" using to by (auto simp: addressed_def)
    moreover from this have "header = HandshakeInit" using h(1) receive_header by fastforce
    ultimately show ?thesis using RecvHandshakeInit to l'(2) room(1)
      by (simp add: addressed_def dispatch_def rl_kept_def recv_handshake_init_def try_send_def)
  qed (use to h(1) l'(2) room(1) in \<open>auto simp: addressed_def dispatch_def rl_kept_def recv_handshake_resp_def recv_data_def
        recv_cookie_reply_def try_send_to_index_def try_send_def\<close>)
  then show ?thesis using h(1) l' by (simp add: process_segment_def)
qed

section \<open>Properties\<close>

definition ex_net_env :: net_env where
  "ex_net_env = \<lparr>ne_now = (\<lambda>_. Instant 5), ne_secret = (\<lambda>_. ex_key 6), ne_nonce = (\<lambda>_. replicate 24 0)\<rparr>"

definition ex_loop :: ReadLoop where
  "ex_loop = (read_loop_start ex_net_env (ex_key 5) (ex_guard 25))\<lparr>rl_indices := [7 \<mapsto> 0]\<rparr>"

definition ex_data :: bytes where
  "ex_data = [4, 0, 0, 0, 7, 0, 0, 0] @ replicate 24 0"

definition ex_metas :: "RecvMeta list" where
  "ex_metas = [\<lparr>rm_addr = ex_addr, rm_len = 64, rm_stride = 32\<rparr>, \<lparr>rm_addr = ex_addr, rm_len = 0, rm_stride = 0\<rparr>]"

lemma ex_loop_ok:
  "net_env_ok ex_net_env" "LoadGuard_ok (rl_guard ex_loop)" "lg_handshakes (rl_guard ex_loop) = 0"
  by (simp_all add: net_env_ok_def ex_net_env_def ex_loop_def read_loop_start_def ex_guard_def with_max_rate_def
      LoadGuard_new_def LoadGuard_ok_def Verifier_ok_new)

lemma ex_messages: "messages (take 1 (zip [ex_data @ ex_data, ex_data] ex_metas)) = [(ex_addr, ex_data), (ex_addr, ex_data)]"
  by (simp add: messages_def ex_metas_def ex_data_def chunks.simps)

text \<open>
  C13: the read loop hands every message to the right actor only. For each batch from the socket
  the loop ends without a panic, and what it appends to the queue of a channel are messages of that
  batch addressed to it: an initiation with a valid mac1 that decrypts to the static key
  registered with the channel, a response with a valid mac1, a cookie reply or a data message whose
  receiver index is routed to the channel. Nothing else changes in the registry, and queues stay within
  their capacity.
\<close>

theorem read_loop_delivers:
  assumes "crypto_ok C" and "net_env_ok E" and "LoadGuard_ok (rl_guard l)"
    and "list_all meta_ok (take n (zip bufs metas))"
    and "unat (lg_handshakes (rl_guard l)) + length (messages (take n (zip bufs metas))) < 2 ^ 32"
  shows "\<exists>l' rt'. read_loop C T E (l, rt) (Received bufs metas n) = Some (l', rt') \<and>
    rl_indices l' = rl_indices l \<and> rt_peers rt' = rt_peers rt \<and> rt_control rt' = rt_control rt \<and>
    (\<forall>ch. \<exists>new. rt_queues rt' ch = rt_queues rt ch @ new \<and>
       (\<forall>action \<in> set new. \<exists>(addr, segment) \<in> set (messages (take n (zip bufs metas))).
          addressed C T l rt ch addr segment action) \<and>
       (new \<noteq> [] \<longrightarrow> length (rt_queues rt' ch) \<le> PEER_ACTION_QUEUE_CAPACITY))"
proof -
  obtain l' rt' where "process_all C T E (l, rt) (messages (take n (zip bufs metas))) = Some (l', rt')"
    "rl_kept l (length (messages (take n (zip bufs metas)))) l'"
    "enqueued rt rt' (\<lambda>ch action. \<exists>(addr, segment) \<in> set (messages (take n (zip bufs metas))). addressed C T l rt ch addr segment action)"
    using process_all_ok [OF assms(1-3,5), of T rt] by blast
  then show ?thesis unfolding read_loop.simps batch_loop_eq [OF assms(4)] rl_kept_def enqueued_def by blast
qed

theorem read_loop_delivers_witness:
  "\<exists>l' rt'. read_loop ex_crypto ex_tai ex_net_env (ex_loop, ex_table)
      (Received [ex_data @ ex_data, ex_data] ex_metas 1) = Some (l', rt') \<and>
    rl_indices l' = [7 \<mapsto> 0] \<and>
    (\<forall>ch. \<exists>new. rt_queues rt' ch = rt_queues ex_table ch @ new \<and>
       (\<forall>action \<in> set new. addressed ex_crypto ex_tai ex_loop ex_table ch ex_addr ex_data action))"
proof -
  have "\<exists>l' rt'. read_loop ex_crypto ex_tai ex_net_env (ex_loop, ex_table)
      (Received [ex_data @ ex_data, ex_data] ex_metas 1) = Some (l', rt') \<and>
    rl_indices l' = rl_indices ex_loop \<and> rt_peers rt' = rt_peers ex_table \<and> rt_control rt' = rt_control ex_table \<and>
    (\<forall>ch. \<exists>new. rt_queues rt' ch = rt_queues ex_table ch @ new \<and>
       (\<forall>action \<in> set new. \<exists>(addr, segment) \<in> set (messages (take 1 (zip [ex_data @ ex_data, ex_data] ex_metas))).
          addressed ex_crypto ex_tai ex_loop ex_table ch addr segment action) \<and>
       (new \<noteq> [] \<longrightarrow> length (rt_queues rt' ch) \<le> PEER_ACTION_QUEUE_CAPACITY))"
    by (rule read_loop_delivers [OF ex_crypto_ok ex_loop_ok(1,2)])
      (unfold ex_messages, simp_all add: ex_loop_ok(3) meta_ok_def ex_metas_def ex_data_def)
  moreover have "rl_indices ex_loop = [7 \<mapsto> 0]" by (simp add: ex_loop_def)
  ultimately show ?thesis unfolding ex_messages by fastforce
qed

text \<open>
  C33: the receive loop ends on every batch and cuts it exactly. Whatever lengths and strides
  the socket reports, the nested loops amount to processing one after the other the messages one
  gets by cutting each buffer, up to its received length, into pieces of the stride, the last one
  possibly shorter: with a stride no received byte is skipped or seen twice, and a stride of
  zero yields no message.
\<close>

theorem read_loop_segments:
  assumes "list_all meta_ok (take n (zip bufs metas))"
  shows "read_loop C T E (l, rt) (Received bufs metas n) =
      process_all C T E (l, rt) (messages (take n (zip bufs metas))) \<and>
    (\<forall>(buf, meta) \<in> set (take n (zip bufs metas)).
       concat (chunks (rm_stride meta) (take (rm_len meta) buf)) =
         (if rm_stride meta = 0 then [] else take (rm_len meta) buf) \<and>
       (\<forall>segment \<in> set (chunks (rm_stride meta) (take (rm_len meta) buf)).
          0 < length segment \<and> length segment \<le> rm_stride meta))"
proof -
  have "0 < length segment \<and> length segment \<le> n" if "segment \<in> set (chunks n xs)" for segment n and xs :: bytes
    using that
  proof (induction n xs rule: chunks.induct)
    case (1 n xs)
    then show ?case by (auto simp: chunks.simps [of n xs] split: if_splits)
  qed
  then show ?thesis using batch_loop_eq [OF assms] concat_chunks by (auto simp: chunks.simps [of 0])
qed

theorem read_loop_segments_witness:
  "read_loop ex_crypto ex_tai ex_net_env (ex_loop, ex_table) (Received [ex_data @ ex_data, ex_data] ex_metas 1) =
     process_all ex_crypto ex_tai ex_net_env (ex_loop, ex_table) [(ex_addr, ex_data), (ex_addr, ex_data)]"
proof -
  have "list_all meta_ok (take 1 (zip [ex_data @ ex_data, ex_data] ex_metas))"
    by (simp add: meta_ok_def ex_metas_def ex_data_def)
  from conjunct1 [OF read_loop_segments [OF this, of ex_crypto ex_tai ex_net_env ex_loop ex_table]]
  show ?thesis unfolding ex_messages .
qed

end
