(* ===== verification/Actor_Sends.thy ===== *)
theory Actor_Sends
  imports Actor "HOL-Library.Sublist"
begin

text \<open>
  What the send path of an actor (\<open>flush_sends\<close> in \<open>tunnel/src/actor.rs\<close>) puts on the wire: how
  many of the queued payloads a session can take, the packets they become, and how these are
  batched into transmissions.
\<close>

section \<open>How much a session can send\<close>

definition capacity :: "'ts Peer \<Rightarrow> Instant \<Rightarrow> nat" where
  "capacity m now =
     (case p_current m of
        None \<Rightarrow> 0
      | Some s \<Rightarrow>
          if p_endpoint m \<noteq> None \<and> \<not> Session_expired s now
          then unat REJECT_AFTER_MESSAGES - unat (t_send_counter (s_transport s)) else 0)"

definition advance :: "'ts Peer \<Rightarrow> nat \<Rightarrow> 'ts Peer" where
  "advance m k = m\<lparr>p_current := map_option (\<lambda>s. s\<lparr>s_transport := (s_transport s)\<lparr>t_send_counter :=
     t_send_counter (s_transport s) + of_nat k\<rparr>\<rparr>) (p_current m)\<rparr>"

definition outgoing :: "crypto \<Rightarrow> 'ts Peer \<Rightarrow> bytes list \<Rightarrow> bytes list" where
  "outgoing C m payloads =
     (case p_current m of None \<Rightarrow> [] | Some s \<Rightarrow> data_packets C (s_transport s) payloads)"

lemma unat_add_nat:
  assumes "unat (c :: u64) + k \<le> unat (r :: u64)"
  shows "unat (c + of_nat k) = unat c + k"
proof -
  have lt: "unat c + k < 2 ^ 64" using assms unsigned_less [of r, where ?'a = nat] by simp
  then have "unat (of_nat k :: u64) = k" by (simp add: unat_of_nat)
  then show ?thesis using lt by (simp add: unat_word_ariths)
qed

lemma advance_0 [simp]: "advance m 0 = m"
  by (cases "p_current m") (simp_all add: advance_def)

lemma advance_advance [simp]: "advance (advance m j) k = advance m (j + k)"
  by (cases "p_current m") (simp_all add: advance_def add.assoc)

lemma advance_fields [simp]:
  "p_peer_key (advance m k) = p_peer_key m" "p_endpoint (advance m k) = p_endpoint m"
  "p_pending (advance m k) = p_pending m" "est (advance m k) = est m" "indices (advance m k) = indices m"
  by (cases "p_current m"; auto simp: advance_def est_def fun_eq_iff all_slots indices_def Session_our_index_def)+

lemma capacity_advance:
  assumes "k \<le> capacity m now"
  shows "capacity (advance m k) now = capacity m now - k"
proof (cases "p_current m")
  case None
  then show ?thesis using assms by (simp add: capacity_def advance_def)
next
  case (Some s)
  show ?thesis
  proof (cases "p_endpoint m \<noteq> None \<and> \<not> Session_expired s now")
    case True
    then have "unat (t_send_counter (s_transport s)) + k \<le> unat REJECT_AFTER_MESSAGES \<or> k = 0"
      using assms Some by (auto simp: capacity_def simp del: window_consts)
    then have "unat (t_send_counter (s_transport s) + of_nat k) = unat (t_send_counter (s_transport s)) + k"
      by (elim disjE) (erule unat_add_nat, simp)
    then show ?thesis using True Some
      by (auto simp: capacity_def advance_def Session_expired_def simp del: window_consts)
  qed (use assms Some in \<open>auto simp: capacity_def advance_def Session_expired_def\<close>)
qed

lemma capacity_pos: "0 < capacity m now \<Longrightarrow> \<exists>e s. p_endpoint m = Some e \<and> p_current m = Some s \<and> \<not> Session_expired s now"
  by (cases "p_current m"; cases "p_endpoint m") (simp_all add: capacity_def split: if_splits)

lemma Peer_ok_advance:
  assumes "Peer_ok m" and "k \<le> capacity m now"
  shows "Peer_ok (advance m k)"
proof (cases "p_current m")
  case (Some s)
  then have "Session_ok s" using assms(1) by (simp add: peer_inv)
  have "t_send_counter (s_transport s) + of_nat k \<le> REJECT_AFTER_MESSAGES"
  proof (cases "k = 0")
    case False
    then have le: "unat (t_send_counter (s_transport s)) + k \<le> unat REJECT_AFTER_MESSAGES"
      using assms(2) Some by (auto simp: capacity_def simp del: window_consts split: if_splits)
    then show ?thesis using unat_add_nat [OF le] by (simp add: word_le_nat_alt del: window_consts)
  qed (use \<open>Session_ok s\<close> in \<open>simp add: Session_ok_def\<close>)
  then show ?thesis using assms(1) Some
    by (auto simp: advance_def peer_inv Session_ok_def Transport_ok_def)
qed (use assms in \<open>auto simp: advance_def peer_inv\<close>)

lemma data_packets_append:
  "data_packets C t (ps @ qs) =
     data_packets C t ps @ data_packets C (t\<lparr>t_send_counter := t_send_counter t + of_nat (length ps)\<rparr>) qs"
  by (induction ps arbitrary: t) (simp_all add: add.assoc)

lemma outgoing_append:
  "outgoing C m (ps @ qs) = outgoing C m ps @ outgoing C (advance m (length ps)) qs"
  by (cases "p_current m") (simp_all add: outgoing_def advance_def data_packets_append)

lemma outgoing_Nil [simp]: "outgoing C m [] = []"
  by (simp add: outgoing_def split: option.split)

lemma outgoing_lengths:
  assumes C: "crypto_ok C" and m: "Peer_ok m"
    and ps: "\<forall>p \<in> set ps. length p < AEAD_P_MAX \<and> packet_len (length p) = len"
  shows "\<forall>q \<in> set (outgoing C m ps). length q = len" and "p_current m \<noteq> None \<Longrightarrow> length (outgoing C m ps) = length ps"
proof -
  have l: "\<forall>q \<in> set (data_packets C t ps). length q = len" if "Transport_ok t" for t
    using ps that
  proof (induction ps arbitrary: t)
    case (Cons p ps)
    let ?t = "t\<lparr>t_send_counter := t_send_counter t + 1\<rparr>"
    have "Transport_ok ?t" using Cons.prems(2) by (simp add: Transport_ok_def)
    then have "\<forall>q \<in> set (data_packets C ?t ps). length q = len" using Cons.IH Cons.prems(1) by simp
    then show ?case using length_data_packet [OF C Cons.prems(2), of p] Cons.prems(1) by simp
  qed simp
  have n: "length (data_packets C t qs) = length qs" for t qs by (induction qs arbitrary: t) auto
  have "Transport_ok (s_transport s)" if "p_current m = Some s" for s
    using m that by (simp add: peer_inv Session_ok_def)
  then show "\<forall>q \<in> set (outgoing C m ps). length q = len" 
    using l by (cases "p_current m") (auto simp: outgoing_def)
  show "p_current m \<noteq> None \<Longrightarrow> length (outgoing C m ps) = length ps" using n by (auto simp: outgoing_def)
qed

section \<open>Encrypting a batch\<close>

lemma encrypt_eq:
  assumes C: "crypto_ok C" and m: "Peer_ok m" and p: "length payload < AEAD_P_MAX"
    and buf: "packet_len (length payload) = length buf"
  shows "\<exists>e. encrypt C m now payload buf = Some
    (if 0 < capacity m now then (Inr (length buf), advance m 1, concat (outgoing C m [payload])) else (Inl e, m, buf))"
proof (cases "p_current m")
  case None
  then show ?thesis by (simp add: encrypt_def capacity_def)
next
  case (Some s)
  then have t: "Transport_ok (s_transport s)" using m by (simp add: peer_inv Session_ok_def)
  show ?thesis
  proof (cases "p_endpoint m \<noteq> None \<and> \<not> Session_expired s now")
    case True
    then show ?thesis using Some Transport_send_cases [OF C t p, of buf] buf
      by (auto simp: encrypt_def capacity_def Session_send_def advance_def outgoing_def word_le_nat_alt
          simp del: window_consts)
  qed (use Some in \<open>auto simp: encrypt_def capacity_def\<close>)
qed

lemma encrypt_batch_eq:
  assumes C: "crypto_ok C"
  shows "Peer_ok m \<Longrightarrow> \<forall>p \<in> set ps. length p < AEAD_P_MAX \<and> packet_len (length p) = len \<Longrightarrow>
    k = min (length ps) (capacity m now) \<Longrightarrow>
    encrypt_batch C now m ps (replicate (length ps) (replicate len 0)) =
      Some (k, k < length ps, advance m k, outgoing C m (take k ps) @ replicate (length ps - k) (replicate len 0))"
proof (induction ps arbitrary: m k)
  case Nil
  then show ?case by simp
next
  case (Cons p ps)
  have p: "length p < AEAD_P_MAX" "packet_len (length p) = length (replicate len (0 :: u8))" using Cons.prems(2) by auto
  obtain e where e: "encrypt C m now p (replicate len 0) = Some
      (if 0 < capacity m now then (Inr len, advance m 1, concat (outgoing C m [p])) else (Inl e, m, replicate len 0))"
    using encrypt_eq [OF C Cons.prems(1) p, of now] unfolding length_replicate by blast
  show ?case
  proof (cases "capacity m now")
    case 0
    then show ?thesis using e Cons.prems(3) by simp
  next
    case (Suc c)
    then obtain s where s: "p_current m = Some s" by (cases "p_current m") (auto simp: capacity_def)
    let ?k = "min (length ps) (capacity (advance m 1) now)"
    have k: "k = Suc ?k" using Cons.prems(3) Suc capacity_advance [of 1 m now] by simp
    have "Peer_ok (advance m 1)" using Peer_ok_advance [OF Cons.prems(1), of 1 now] Suc by simp
    from Cons.IH [OF this _ refl] Cons.prems(2)
    have "encrypt_batch C now (advance m 1) ps (replicate (length ps) (replicate len 0)) = Some (?k, ?k < length ps,
        advance (advance m 1) ?k, outgoing C (advance m 1) (take ?k ps) @ replicate (length ps - ?k) (replicate len 0))"
      by simp
    moreover have "outgoing C m (p # take ?k ps) = concat (outgoing C m [p]) # outgoing C (advance m 1) (take ?k ps)"
      using outgoing_append [of C m "[p]" "take ?k ps"] s by (simp add: outgoing_def)
    ultimately show ?thesis using e Suc k by simp
  qed
qed

section \<open>Batches\<close>

fun datagrams :: "Transmit \<Rightarrow> bytes list" where
  "datagrams tr = (case tx_segment_size tr of None \<Rightarrow> [tx_contents tr] | Some n \<Rightarrow> chunks n (tx_contents tr))"

lemma chunks_concat: "0 < len \<Longrightarrow> \<forall>q \<in> set qs. length q = len \<Longrightarrow> chunks len (concat qs) = qs"
proof (induction qs)
  case (Cons q qs)
  then show ?case by (auto simp: chunks.simps [of len "q @ concat qs"])
qed simp

lemma length_concat_same: "\<forall>q \<in> set qs. length q = len \<Longrightarrow> length (concat qs) = length qs * len"
  by (induction qs) auto

lemma batch_end_same:
  "start < stop \<Longrightarrow> \<forall>i. start \<le> i \<and> i < stop \<longrightarrow> packet_len (length (payloads ! i)) = len \<Longrightarrow> stop - start \<le> n \<Longrightarrow>
     (\<forall>i. start \<le> i \<and> i < batch_end payloads start stop n len \<longrightarrow> packet_len (length (payloads ! i)) = len) \<and>
     batch_end payloads start stop n len - start \<le> n"
proof (induction payloads start stop n len rule: batch_end.induct)
  case (1 payloads start stop n len)
  show ?case
  proof (cases "stop < length payloads \<and> stop - start < n \<and> packet_len (length (payloads ! stop)) = len")
    case True
    then have "\<forall>i. start \<le> i \<and> i < stop + 1 \<longrightarrow> packet_len (length (payloads ! i)) = len"
      using 1(3) by (auto simp: less_Suc_eq)
    from 1(1) [OF True _ this] True 1(2) show ?thesis
      by (simp add: batch_end.simps [of payloads start stop n len] Suc_diff_le)
  next
    case False
    then show ?thesis using 1(3,4) by (auto simp: batch_end.simps [of payloads start stop n len])
  qed
qed

lemma max_batch_segments_bounds:
  "max_batch_segments gso len \<le> max gso 1 \<and>
     (max_batch_segments gso len = 1 \<or> max_batch_segments gso len * len \<le> MAX_MESSAGE_SIZE) \<and>
     1 \<le> max_batch_segments gso len"
proof -
  let ?n = "min gso (MAX_MESSAGE_SIZE div len)"
  have "?n * len \<le> MAX_MESSAGE_SIZE div len * len" by (rule mult_le_mono1) simp
  then have "?n * len \<le> MAX_MESSAGE_SIZE" by (rule le_trans) (rule div_times_less_eq_dividend)
  moreover have "max_batch_segments gso len = ?n \<or> max_batch_segments gso len = 1" "?n \<le> gso"
    by (auto simp: max_batch_segments_def max_def)
  ultimately show ?thesis by (auto simp: max_batch_segments_def)
qed

text \<open>
  A transmission the batching may make: equal segments for the peer's endpoint, as many as the
  socket can split, and either one segment or no more bytes than a datagram can carry.
\<close>

definition batch_ok :: "nat \<Rightarrow> SocketAddr option \<Rightarrow> Transmit \<Rightarrow> bool" where
  "batch_ok gso endpoint tr \<longleftrightarrow> endpoint = Some (tx_destination tr) \<and> datagrams tr \<noteq> [] \<and>
     (\<forall>q \<in> set (datagrams tr). tx_segment_size tr = Some (length q)) \<and> length (datagrams tr) \<le> max gso 1 \<and>
     (length (datagrams tr) = 1 \<or> length (tx_contents tr) \<le> MAX_MESSAGE_SIZE)"

lemma batch_ok_concat:
  assumes "\<forall>q \<in> set qs. length q = len" and "0 < len" and "0 < length qs" and "length qs \<le> max_batch_segments gso len"
  shows "batch_ok gso (Some e) \<lparr>tx_destination = e, tx_contents = concat qs, tx_segment_size = Some len\<rparr>"
    and "datagrams \<lparr>tx_destination = e, tx_contents = concat qs, tx_segment_size = Some len\<rparr> = qs"
proof -
  have "length qs * len \<le> max_batch_segments gso len * len" using assms(4) by (rule mult_le_mono1)
  moreover have "length qs = 1" if "max_batch_segments gso len = 1" using that assms(3,4) by linarith
  ultimately have "length qs = 1 \<or> length qs * len \<le> MAX_MESSAGE_SIZE" "length qs \<le> max gso 1"
    using max_batch_segments_bounds [of gso len] assms(4) le_trans by blast+
  then show "batch_ok gso (Some e) \<lparr>tx_destination = e, tx_contents = concat qs, tx_segment_size = Some len\<rparr>"
    using assms(1-3) chunks_concat [OF assms(2,1)] length_concat_same [OF assms(1)] by (auto simp: batch_ok_def)
  show "datagrams \<lparr>tx_destination = e, tx_contents = concat qs, tx_segment_size = Some len\<rparr> = qs"
    using chunks_concat [OF assms(2,1)] by simp
qed

section \<open>The send loop\<close>

definition sent_ok :: "crypto \<Rightarrow> 'ts env \<Rightarrow> nat \<Rightarrow> 'ts Peer \<Rightarrow> bytes list \<Rightarrow> Transmit list \<Rightarrow> bool" where
  "sent_ok C E gso m payloads W \<longleftrightarrow> (\<forall>tr \<in> set W. batch_ok gso (p_endpoint m) tr) \<and>
     subseq (concat (map datagrams W)) (outgoing C m payloads) \<and>
     ((\<forall>k. env_socket_send E k) \<longrightarrow> concat (map datagrams W) = outgoing C m payloads)"

lemma sent_ok_append:
  assumes "sent_ok C E gso m ps V" and "sent_ok C E gso (advance m (length ps)) qs W"
  shows "sent_ok C E gso m (ps @ qs) (V @ W)"
  using assms by (auto simp: sent_ok_def outgoing_append intro: list_emb_append_mono)

lemma sent_ok_batch:
  assumes "drop start payloads = ps @ drop (start + length ps) payloads" and "sent_ok C E gso m ps V"
    and "sent_ok C E gso (advance m (length ps)) (take k (drop (start + length ps) payloads)) W"
  shows "sent_ok C E gso m (take (length ps + k) (drop start payloads)) (V @ W)"
  using sent_ok_append [OF assms(2,3)] by (subst assms(1)) simp

lemma flush_loop_done:
  "length payloads \<le> start \<Longrightarrow> flush_loop C E now gso payloads start sent some a = Some (start, sent, some, a)"
  by (subst flush_loop.simps) simp

text \<open>One round of the loop, by what the batch encrypts to and whether the socket takes it.\<close>

lemma flush_loop_step:
  assumes "start < length payloads" and "len = packet_len (length (payloads ! start))"
    and "stop = batch_end payloads start (start + 1) (max_batch_segments gso len) len"
    and "encrypt_batch C now (pa_machine a) (sub payloads start stop) (chunks len (replicate ((stop - start) * len) 0)) =
      Some (j, stalled, m, bufs)"
  shows "j = 0 \<Longrightarrow> stalled \<Longrightarrow> flush_loop C E now gso payloads start sent some a = Some (start, sent, some, a\<lparr>pa_machine := m\<rparr>)"
    and "0 < j \<Longrightarrow> p_endpoint m = Some e \<Longrightarrow> batch = take (j * len) (concat bufs) \<Longrightarrow>
      socket_send E (a\<lparr>pa_machine := m\<rparr>) e batch (Some len) = (ok, b) \<Longrightarrow>
      b' = (if ok then count_sent E b (length batch) else b) \<Longrightarrow>
      flush_loop C E now gso payloads start sent some a =
        (if stalled then Some (start + j, sent \<or> ok, True, b')
         else flush_loop C E now gso payloads (start + j) (sent \<or> ok) True b')"
  using assms(1,4) unfolding flush_loop.simps [of C E now gso payloads start sent some a] assms(2) [symmetric]
  by (simp_all only: Let_def assms(3) [symmetric] if_True)
    (auto simp del: layout_data)

text \<open>The payloads of the next batch: a nonempty run of equally long ones.\<close>

lemma next_batch:
  assumes sizes: "\<forall>p \<in> set payloads. length p < AEAD_P_MAX" and start: "start < length payloads"
    and len: "len = packet_len (length (payloads ! start))"
    and stop: "stop = batch_end payloads start (start + 1) (max_batch_segments gso len) len"
    and ps: "ps = sub payloads start stop"
  shows "0 < length ps" and "length ps = stop - start" and "length ps \<le> max_batch_segments gso len"
    and "\<forall>p \<in> set ps. length p < AEAD_P_MAX \<and> packet_len (length p) = len"
    and "start + length ps \<le> length payloads" and "drop start payloads = ps @ drop (start + length ps) payloads"
proof -
  let ?n = "max_batch_segments gso len"
  have "1 \<le> ?n" using max_batch_segments_bounds [of gso len] by simp
  moreover have "\<forall>i. start \<le> i \<and> i < start + 1 \<longrightarrow> packet_len (length (payloads ! i)) = len"
    by (auto simp: len less_Suc_eq)
  ultimately have same: "\<forall>i. start \<le> i \<and> i < stop \<longrightarrow> packet_len (length (payloads ! i)) = len" "stop - start \<le> ?n"
    using batch_end_same [of start "start + 1" payloads len ?n] by (simp_all add: stop del: layout_data)
  have le: "start < stop" "stop \<le> length payloads"
    using batch_end_bounds [of start "start + 1" payloads ?n len] start by (simp_all add: stop)
  show l: "length ps = stop - start" using le by (simp add: ps)
  then show "0 < length ps" "length ps \<le> ?n" "start + length ps \<le> length payloads" using le same(2) by auto
  have "set ps \<subseteq> set payloads" by (auto simp: ps sub_def dest: in_set_takeD in_set_dropD)
  moreover have "\<forall>p \<in> set ps. packet_len (length p) = len"
    using le same by (auto simp: ps in_set_conv_nth nth_sub simp del: layout_data)
  ultimately show "\<forall>p \<in> set ps. length p < AEAD_P_MAX \<and> packet_len (length p) = len" using sizes by blast
  have "stop - start + start = stop" using le by simp
  then show "drop start payloads = ps @ drop (start + length ps) payloads"
    using append_take_drop_id [of "stop - start" "drop start payloads"] l
    by (simp add: ps sub_def add.commute)
qed

text \<open>What a batch encrypts to fills the front of its buffer and is one transmission.\<close>

lemma outgoing_batch:
  assumes C: "crypto_ok C" and m: "Peer_ok m" and len: "0 < len"
    and ps: "\<forall>p \<in> set ps. length p < AEAD_P_MAX \<and> packet_len (length p) = len" "length ps \<le> max_batch_segments gso len"
    and j: "j = min (length ps) (capacity m now)" "0 < j" and out: "out = outgoing C m (take j ps)"
    and tr: "tr = \<lparr>tx_destination = e, tx_contents = concat out, tx_segment_size = Some len\<rparr>"
  shows "take (j * len) (concat (out @ zs)) = concat out" and "batch_ok gso (Some e) tr" and "datagrams tr = out"
proof -
  obtain s where s: "p_current m = Some s" using capacity_pos [of m now] j by auto
  have "\<forall>p \<in> set (take j ps). length p < AEAD_P_MAX \<and> packet_len (length p) = len"
    using ps(1) by (blast dest: in_set_takeD)
  note lens = outgoing_lengths [OF C m this, folded out]
  have lo: "length out = j" using lens(2) s j by simp
  then show "take (j * len) (concat (out @ zs)) = concat out" using length_concat_same [OF lens(1)] by simp
  have "0 < length out" "length out \<le> max_batch_segments gso len" using lo j ps(2) by simp_all
  from batch_ok_concat [OF lens(1) len this, of e] show "batch_ok gso (Some e) tr" "datagrams tr = out"
    by (simp_all add: tr)
qed

text \<open>The socket takes a transmission or drops it; what is taken is counted.\<close>

lemma send_batch:
  assumes V: "V = (if env_socket_send E (pa_tick a) then [\<lparr>tx_destination = e, tx_contents = c, tx_segment_size = Some len\<rparr>] else [])"
  obtains ok b st i where "socket_send E (a\<lparr>pa_machine := m\<rparr>) e c (Some len) = (ok, b)" "ok = (V \<noteq> [])" "pa_tick a \<le> i"
    "(if ok then count_sent E b (length c) else b) =
      a\<lparr>pa_machine := m, pa_wire := pa_wire a @ V, pa_status := st, pa_tick := i\<rparr>"
proof (cases "env_socket_send E (pa_tick a)")
  case True
  then show thesis using V that [where i = "pa_tick a + 2" and st = "(pa_status a)\<lparr>st_tx_bytes :=
      st_tx_bytes (pa_status a) + of_nat (length c), st_last_send := Some (env_system_time E (pa_tick a + 1))\<rparr>"]
    by (simp add: socket_send_def read_env_def count_sent_def update_status_def)
next
  case False
  then show thesis using V that [where st = "pa_status a" and i = "pa_tick a + 1"]
    by (simp add: socket_send_def read_env_def)
qed

text \<open>A round sends a prefix of its batch, all of it if the session can take it.\<close>

lemma flush_round:
  assumes C: "crypto_ok C" and m: "Peer_ok (pa_machine a)" and sizes: "\<forall>p \<in> set payloads. length p < AEAD_P_MAX"
    and start: "start < length payloads"
  obtains ps j V st i where "0 < length ps" "start + length ps \<le> length payloads"
    "drop start payloads = ps @ drop (start + length ps) payloads"
    "j = min (length ps) (capacity (pa_machine a) now)" "pa_tick a \<le> i" "sent_ok C E gso (pa_machine a) (take j ps) V"
    "flush_loop C E now gso payloads start sent some a =
      (let b = a\<lparr>pa_machine := advance (pa_machine a) j, pa_wire := pa_wire a @ V, pa_status := st, pa_tick := i\<rparr>
       in if j < length ps then Some (start + j, sent \<or> V \<noteq> [], some \<or> 0 < j, b)
          else flush_loop C E now gso payloads (start + j) (sent \<or> V \<noteq> []) True b)"
proof -
  define len where "len = packet_len (length (payloads ! start))"
  define stop where "stop = batch_end payloads start (start + 1) (max_batch_segments gso len) len"
  define ps where "ps = sub payloads start stop"
  let ?m = "pa_machine a"
  define j where "j = min (length ps) (capacity ?m now)"
  note ps = next_batch [OF sizes start len_def stop_def ps_def]
  have len: "0 < len" by (simp add: len_def)
  let ?out = "outgoing C ?m (take j ps)"
  have "encrypt_batch C now ?m ps (replicate (length ps) (replicate len 0)) = Some (j, j < length ps, advance ?m j,
      ?out @ replicate (length ps - j) (replicate len 0))"
    by (rule encrypt_batch_eq [OF C m ps(4) j_def])
  then have enc: "encrypt_batch C now ?m (sub payloads start stop) (chunks len (replicate ((stop - start) * len) 0)) =
      Some (j, j < length ps, advance ?m j, ?out @ replicate (length ps - j) (replicate len 0))"
    using chunks_replicate [OF len, of "stop - start" "0 :: u8"] ps(2) by (simp add: ps_def [symmetric])
  note step = flush_loop_step [OF start len_def stop_def enc]
  show thesis
  proof (cases "j = 0")
    case True
    then have "flush_loop C E now gso payloads start sent some a = Some (start, sent, some, a\<lparr>pa_machine := advance ?m j\<rparr>)"
      using step(1) ps(1) by simp
    then show thesis
      by (intro that [OF ps(1,5,6) j_def, where V = "[]" and st = "pa_status a" and i = "pa_tick a"])
        (use True ps(1) in \<open>simp_all add: sent_ok_def Let_def\<close>)
  next
    case False
    then have "0 < capacity ?m now" by (simp add: j_def)
    from capacity_pos [OF this] obtain e where e: "p_endpoint ?m = Some e" by blast
    define tr where "tr = \<lparr>tx_destination = e, tx_contents = concat ?out, tx_segment_size = Some len\<rparr>"
    define V where "V = (if env_socket_send E (pa_tick a) then [tr] else [])"
    note out = outgoing_batch [OF C m len ps(4,3) j_def _ refl tr_def]
    have V: "sent_ok C E gso ?m (take j ps) V" using out(2,3) False e by (simp add: sent_ok_def V_def)
    obtain ok b st i where s: "socket_send E (a\<lparr>pa_machine := advance ?m j\<rparr>) e (concat ?out) (Some len) = (ok, b)"
        "ok = (V \<noteq> [])" "pa_tick a \<le> i" "(if ok then count_sent E b (length (concat ?out)) else b) =
          a\<lparr>pa_machine := advance ?m j, pa_wire := pa_wire a @ V, pa_status := st, pa_tick := i\<rparr>"
      by (rule send_batch [OF V_def [unfolded tr_def]])
    have e': "p_endpoint (advance ?m j) = Some e" and b: "concat ?out = take (j * len) (concat (?out @ zs))" for zs
      using e out(1) False by simp_all
    show thesis
      by (intro that [OF ps(1,5,6) j_def s(3) V, of st])
        (use step(2) [OF _ e' b s(1) refl] s(2,4) False in \<open>simp_all add: Let_def\<close>)
  qed
qed

text \<open>The loop sends as many payloads as the session can take.\<close>

lemma flush_loop_eq:
  assumes C: "crypto_ok C" and sizes: "\<forall>p \<in> set payloads. length p < AEAD_P_MAX"
  shows "Peer_ok (pa_machine a) \<Longrightarrow> start \<le> length payloads \<Longrightarrow>
    k = min (length payloads - start) (capacity (pa_machine a) now) \<Longrightarrow>
    \<exists>W st n. flush_loop C E now gso payloads start sent some a =
      Some (start + k, sent \<or> W \<noteq> [], some \<or> 0 < k,
        a\<lparr>pa_machine := advance (pa_machine a) k, pa_wire := pa_wire a @ W, pa_status := st, pa_tick := n\<rparr>) \<and>
      pa_tick a \<le> n \<and> sent_ok C E gso (pa_machine a) (take k (drop start payloads)) W"
proof (induction "length payloads - start" arbitrary: start sent some a k rule: less_induct)
  case less
  let ?m = "pa_machine a"
  show ?case
  proof (cases "start < length payloads")
    case False
    then show ?thesis using less.prems
      by (intro exI [of _ "[]"] exI [of _ "pa_status a"] exI [of _ "pa_tick a"])
        (simp add: flush_loop_done sent_ok_def)
  next
    case True
    obtain ps j V st i where ps: "0 < length ps" "start + length ps \<le> length payloads"
        "drop start payloads = ps @ drop (start + length ps) payloads" "j = min (length ps) (capacity ?m now)"
      and V: "pa_tick a \<le> i" "sent_ok C E gso ?m (take j ps) V"
      and step: "flush_loop C E now gso payloads start sent some a =
        (let b = a\<lparr>pa_machine := advance ?m j, pa_wire := pa_wire a @ V, pa_status := st, pa_tick := i\<rparr>
         in if j < length ps then Some (start + j, sent \<or> V \<noteq> [], some \<or> 0 < j, b)
            else flush_loop C E now gso payloads (start + j) (sent \<or> V \<noteq> []) True b)"
      by (rule flush_round [OF C less.prems(1) sizes True])
    show ?thesis
    proof (cases "j < length ps")
      case True
      then have "k = j" "take j (drop start payloads) = take j ps" using less.prems(3) ps by auto
      then show ?thesis using step True V
        by (intro exI [of _ V] exI [of _ st] exI [of _ i]) (simp add: Let_def)
    next
      case False
      then have j: "j = length ps" "j \<le> capacity ?m now" using ps(4) by simp_all
      define b where "b = a\<lparr>pa_machine := advance ?m j, pa_wire := pa_wire a @ V, pa_status := st, pa_tick := i\<rparr>"
      have m': "pa_machine b = advance ?m j" by (simp add: b_def)
      have k: "k - j = min (length payloads - (start + j)) (capacity (pa_machine b) now)" "j + (k - j) = k" "0 < k"
        using less.prems(3) capacity_advance [OF j(2)] j ps(1,2) length_greater_0_conv [of ps]
        by (simp_all add: m' min_diff del: length_greater_0_conv)
      have "length payloads - (start + j) < length payloads - start" "start + j \<le> length payloads"
        using j(1) ps(1,2) by linarith+
      from less.hyps [OF this(1) _ this(2) k(1), of "sent \<or> V \<noteq> []" True] Peer_ok_advance [OF less.prems(1) j(2)] m'
      obtain W st' i' where ih: "flush_loop C E now gso payloads (start + j) (sent \<or> V \<noteq> []) True b =
          Some (start + j + (k - j), (sent \<or> V \<noteq> []) \<or> W \<noteq> [], True,
            b\<lparr>pa_machine := advance (pa_machine b) (k - j), pa_wire := pa_wire b @ W, pa_status := st', pa_tick := i'\<rparr>)"
          "pa_tick b \<le> i'" "sent_ok C E gso (pa_machine b) (take (k - j) (drop (start + j) payloads)) W"
        by auto
      have "sent_ok C E gso ?m (take k (drop start payloads)) (V @ W)"
        using sent_ok_batch [OF ps(3), of C E gso ?m V "k - j" W] V(2) ih(3) j(1) k(2) m' by simp
      then show ?thesis using step [folded b_def] False ih V(1) k
        by (intro exI [of _ "V @ W"] exI [of _ st'] exI [of _ i']) (auto simp: b_def)
    qed
  qed
qed

end
