(* ===== verification/Actor_Inv.thy ===== *)
theory Actor_Inv
  imports Actor_Sends
begin

text \<open>
  The invariant of the actor, and that every operation keeps it and does not panic: the
  queue stays bounded, a pending handshake has its retry timer, the timers fit the clock, the
  actor's session is one the peer holds, and the routing updates it emits account for the
  receiver indices its peer holds.
\<close>

section \<open>Invariant\<close>

text \<open>
  What the actor relies on: the clock does not run backwards, \<open>random_range(0..n)\<close> is below \<open>n\<close>,
  and the clock is far enough from the end of the platform's time that the longest timer
  still fits. The last one is a bound on the keepalive interval, \<open>KEEPALIVE_MAX\<close>.
\<close>

definition KEEPALIVE_MAX :: Duration where "KEEPALIVE_MAX = from_secs 65535"

definition env_ok :: "'ts env \<Rightarrow> bool" where
  "env_ok E \<longleftrightarrow> (\<forall>i j. i \<le> j \<longrightarrow> env_now E i \<le> env_now E j) \<and>
     (\<forall>k n. 0 < n \<longrightarrow> env_random_range E k n < n) \<and> env_clock_max E \<le> DURATION_MAX \<and>
     (\<forall>k. since_epoch (env_now E k) + KEEPALIVE_MAX \<le> env_clock_max E)"

definition fits :: "'ts env \<Rightarrow> Instant option \<Rightarrow> bool" where
  "fits E t \<longleftrightarrow> since_epoch (unwrap_or t Instant_default) \<le> env_clock_max E"

fun bound :: "Control list \<Rightarrow> u32 multiset" where
  "bound [] = {#}"
| "bound (Bind _ i # cs) = add_mset i (bound cs)"
| "bound (_ # cs) = bound cs"

fun retired :: "Control list \<Rightarrow> u32 multiset" where
  "retired [] = {#}"
| "retired (Retire _ i # cs) = add_mset i (retired cs)"
| "retired (_ # cs) = retired cs"

lemma bound_append [simp]: "bound (cs @ ds) = bound cs + bound ds"
  by (induction cs rule: bound.induct) auto

lemma retired_append [simp]: "retired (cs @ ds) = retired cs + retired ds"
  by (induction cs rule: retired.induct) auto

definition control_for :: "bytes \<Rightarrow> Control list \<Rightarrow> bool" where
  "control_for key cs \<longleftrightarrow> (\<forall>c \<in> set cs. \<exists>i. c = Bind key i \<or> c = Retire key i)"

definition clock :: "'ts env \<Rightarrow> 'ts PeerActor \<Rightarrow> Instant" where
  "clock E a = env_now E (pa_tick a)"

definition staged_ok :: "'ts PeerActor \<Rightarrow> bool" where
  "staged_ok a \<longleftrightarrow> length (pa_staged a) \<le> MAX_STAGED_PACKETS \<and> (\<forall>p \<in> set (pa_staged a). length p < AEAD_P_MAX)"

definition balanced :: "'ts PeerActor \<Rightarrow> bool" where
  "balanced a \<longleftrightarrow> control_for (p_peer_key (pa_machine a)) (pa_control a) \<and>
     bound (pa_control a) = retired (pa_control a) + indices (pa_machine a)"

definition handshake_ok :: "'ts env \<Rightarrow> 'ts PeerActor \<Rightarrow> bool" where
  "handshake_ok E a \<longleftrightarrow>
     (p_pending (pa_machine a) \<noteq> None \<longrightarrow> pa_handshake a \<noteq> None) \<and>
     (\<forall>h. pa_handshake a = Some h \<longrightarrow> p_endpoint (pa_machine a) \<noteq> None \<and> ha_first_sent h \<le> clock E a \<and>
        fits E (Some (ha_retry_at h)))"

definition session_ok :: "'ts env \<Rightarrow> 'ts PeerActor \<Rightarrow> bool" where
  "session_ok E a \<longleftrightarrow>
     (\<forall>sl t. est (pa_machine a) sl = Some t \<longrightarrow> t \<le> clock E a) \<and>
     (\<forall>s. pa_session a = Some s \<longrightarrow> as_established s \<le> clock E a \<and>
        (\<exists>t. est (pa_machine a) Current = Some t \<and> t \<le> as_established s) \<and>
        fits E (as_keepalive_at s) \<and> fits E (as_new_handshake_at s))"

definition keepalive_ok :: "'ts env \<Rightarrow> 'ts PeerActor \<Rightarrow> bool" where
  "keepalive_ok E a \<longleftrightarrow> pa_last_send a \<le> clock E a \<and>
     (\<forall>interval. pa_persistent_keepalive a = Some interval \<longrightarrow> interval \<le> KEEPALIVE_MAX)"

definition actor_ok :: "'ts env \<Rightarrow> 'ts PeerActor \<Rightarrow> bool" where
  "actor_ok E a \<longleftrightarrow> Peer_ok (pa_machine a) \<and> staged_ok a \<and> balanced a \<and> handshake_ok E a \<and>
     session_ok E a \<and> keepalive_ok E a"

lemmas actor_inv = actor_ok_def staged_ok_def balanced_def handshake_ok_def session_ok_def keepalive_ok_def clock_def

section \<open>Time\<close>

lemma fits_None [simp]: "fits E None"
  by (simp add: fits_def Instant_default_def)

lemma clock_mono: "env_ok E \<Longrightarrow> i \<le> j \<Longrightarrow> env_now E i \<le> env_now E j"
  by (simp add: env_ok_def)

text \<open>The clock's past stays past.\<close>

lemma past_mono: "env_ok E \<Longrightarrow> t \<le> env_now E i \<Longrightarrow> i \<le> j \<Longrightarrow> t \<le> env_now E j"
  using clock_mono order_trans by blast

lemma fits_add:
  assumes "env_ok E" and "t \<le> env_now E k" and "d \<le> KEEPALIVE_MAX"
  shows "fits E (Some (instant_add t d))"
proof -
  have "since_epoch t \<le> since_epoch (env_now E k)" using assms(2) by (simp add: less_eq_Instant_def)
  then have "since_epoch t + d \<le> env_clock_max E"
    using assms(1,3) by (metis (no_types) add_mono env_ok_def order_trans)
  then show ?thesis by (simp add: fits_def)
qed

lemma jitter_bound:
  assumes "env_ok E"
  shows "from_millis (env_random_range E k (REKEY_TIMEOUT_JITTER_MAX div 1000000)) < REKEY_TIMEOUT_JITTER_MAX"
proof -
  have "env_random_range E k 334 < 334" using assms by (simp add: env_ok_def)
  then show ?thesis by (simp add: time_consts)
qed

lemma fits_add_timeouts:
  assumes "env_ok E" and "t \<le> env_now E k" and "d < REKEY_TIMEOUT_JITTER_MAX"
  shows "fits E (Some (instant_add (instant_add t REKEY_TIMEOUT) d))"
    and "fits E (Some (instant_add (instant_add (instant_add t KEEPALIVE_TIMEOUT) REKEY_TIMEOUT) d))"
proof -
  have "fits E (Some (instant_add t (KEEPALIVE_TIMEOUT + REKEY_TIMEOUT + d)))"
    by (rule fits_add [OF assms(1,2)]) (use assms(3) in \<open>simp add: KEEPALIVE_MAX_def time_consts\<close>)
  then show "fits E (Some (instant_add (instant_add t REKEY_TIMEOUT) d))"
    "fits E (Some (instant_add (instant_add (instant_add t KEEPALIVE_TIMEOUT) REKEY_TIMEOUT) d))"
    using assms(1) by (auto simp: fits_def env_ok_def add_ac)
qed

section \<open>Readings and outputs\<close>

text \<open>Readings, logs and the time of the last send do not matter to the invariant.\<close>

lemma actor_ok_frame:
  assumes "env_ok E" and "actor_ok E a" and "pa_tick a \<le> pa_tick b"
    and "pa_machine b = pa_machine a" and "pa_staged b = pa_staged a" and "pa_control b = pa_control a"
    and "pa_handshake b = pa_handshake a" and "pa_session b = pa_session a"
    and "pa_persistent_keepalive b = pa_persistent_keepalive a"
    and "pa_last_send b \<le> clock E a \<or> pa_last_send b = pa_last_send a"
  shows "actor_ok E b"
  using assms(2,4-) past_mono [OF assms(1) _ assms(3)] unfolding actor_inv by auto

lemma read_env_eq: "read_env f a = (f (pa_tick a), a\<lparr>pa_tick := pa_tick a + 1\<rparr>)"
  by (simp add: read_env_def)

lemma socket_send_eq:
  "\<exists>ok H. socket_send E a e p seg = (ok, a\<lparr>pa_wire := pa_wire a @ H, pa_tick := pa_tick a + 1\<rparr>) \<and> length H \<le> 1 \<and>
     (ok \<longleftrightarrow> H = [\<lparr>tx_destination = e, tx_contents = p, tx_segment_size = seg\<rparr>]) \<and> (\<not> ok \<longleftrightarrow> H = []) \<and>
     ((\<forall>k. env_socket_send E k) \<longrightarrow> ok)"
proof (cases "env_socket_send E (pa_tick a)")
  case True
  then show ?thesis
    by (intro exI [of _ True] exI [of _ "[\<lparr>tx_destination = e, tx_contents = p, tx_segment_size = seg\<rparr>]"])
      (simp add: socket_send_def read_env_def)
next
  case False
  then show ?thesis by (intro exI [of _ False] exI [of _ "[]"]) (auto simp: socket_send_def read_env_def)
qed

lemma inbound_try_send_eq:
  "\<exists>is. inbound_try_send E a p = a\<lparr>pa_inbound := pa_inbound a @ is, pa_tick := pa_tick a + 1\<rparr> \<and> set is \<subseteq> {p}"
proof (cases "env_inbound_room E (pa_tick a)")
  case True
  then show ?thesis by (intro exI [of _ "[p]"]) (simp add: inbound_try_send_def read_env_def)
next
  case False
  then show ?thesis by (intro exI [of _ "[]"]) (simp add: inbound_try_send_def read_env_def)
qed

text \<open>The fresh values a handshake message is made of, and the routing updates it comes with.\<close>

definition values_at :: "'ts env \<Rightarrow> nat \<Rightarrow> 'ts HandshakeValues" where
  "values_at E k = \<lparr>hv_index = env_index E k, hv_ephemeral_secret = env_secret E (k + 1), hv_timestamp = env_tai E (k + 2)\<rparr>"

lemma fresh_values_at: "fresh_values E a = (values_at E (pa_tick a), a\<lparr>pa_tick := pa_tick a + 3\<rparr>)"
  by (simp add: fresh_values_def read_env_def values_at_def)

lemma values_at_index [simp]: "hv_index (values_at E k) = env_index E k"
  by (simp add: values_at_def)

definition retire_msgs :: "bytes \<Rightarrow> u32 option \<Rightarrow> Control list" where
  "retire_msgs key index = (case index of None \<Rightarrow> [] | Some i \<Rightarrow> [Retire key i])"

lemma retire_index_eq:
  "retire_index a index = a\<lparr>pa_control := pa_control a @ retire_msgs (p_peer_key (pa_machine a)) index\<rparr>"
  by (simp add: retire_index_def retire_msgs_def split: option.split)

lemma retire_msgs [simp]:
  "control_for key (retire_msgs key index)" "bound (retire_msgs key index) = {#}"
  "retired (retire_msgs key index) = opt_mset index"
  by (cases index; simp add: control_for_def retire_msgs_def)+

section \<open>Handshakes\<close>

lemma balanced_swap:
  assumes "balanced a" and "p_peer_key m = p_peer_key (pa_machine a)"
    and "indices m + opt_mset old = indices (pa_machine a) + new"
    and "control_for (p_peer_key m) cs" and "bound cs = new" and "retired cs = opt_mset old"
  shows "balanced (a\<lparr>pa_machine := m, pa_control := pa_control a @ cs\<rparr>)"
proof -
  have "bound (pa_control a) + new = retired (pa_control a) + (indices m + opt_mset old)"
    using assms(1) by (simp add: balanced_def assms(3) add.assoc)
  then show ?thesis using assms by (auto simp: balanced_def control_for_def ac_simps)
qed

definition handshaking :: "'ts PeerActor \<Rightarrow> 'ts PeerActor \<Rightarrow> bool" where
  "handshaking a b \<longleftrightarrow> pa_session b = pa_session a \<and> pa_staged b = pa_staged a \<and> pa_inbound b = pa_inbound a \<and>
     pa_session_tx b = pa_session_tx a \<and> pa_tick a \<le> pa_tick b \<and> same_sessions (pa_machine a) (pa_machine b) \<and>
     p_peer_key (pa_machine b) = p_peer_key (pa_machine a) \<and>
     (\<exists>H. pa_wire b = pa_wire a @ H \<and> length H \<le> 1) \<and> (p_endpoint (pa_machine a) \<noteq> None \<longrightarrow> pa_handshake b \<noteq> None)"

text \<open>Sending a handshake message, by the outcome of \<open>initiate\<close> and of the socket.\<close>

lemma send_handshake_eq:
  assumes E: "env_ok E" and e: "p_endpoint (pa_machine a) = Some e" and k: "k = pa_tick a + 2"
    and i: "Peer_initiate C T (pa_machine a) (pa_our_key a) (values_at E k) (replicate INIT_MSG_LENGTH 0) = Some (r, m, msg)"
    and cs: "cs = (case r of Inl _ \<Rightarrow> [] | Inr old \<Rightarrow> retire_msgs (p_peer_key m) old @ [Bind (p_peer_key m) (env_index E k)])"
    and H: "H = (if isl r \<or> \<not> env_socket_send E (k + 3) then []
      else [\<lparr>tx_destination = e, tx_contents = msg, tx_segment_size = None\<rparr>])"
  obtains b t where "send_handshake C T E a first_sent = Some b"
    "pa_handshake b = Some \<lparr>ha_first_sent = first_sent, ha_retry_at = t\<rparr>" "fits E (Some t)" "pa_tick a \<le> pa_tick b"
    "pa_last_send b = pa_last_send a \<or> pa_last_send b = clock E a" "pa_control b = pa_control a @ cs" "pa_wire b = pa_wire a @ H"
    "pa_machine b = m" "pa_our_key b = pa_our_key a" "pa_session b = pa_session a" "pa_staged b = pa_staged a"
    "pa_inbound b = pa_inbound a" "pa_session_tx b = pa_session_tx a" "pa_persistent_keepalive b = pa_persistent_keepalive a"
proof -
  let ?t = "instant_add (instant_add (clock E a) REKEY_TIMEOUT)
    (from_millis (env_random_range E (pa_tick a + 1) (REKEY_TIMEOUT_JITTER_MAX div 1000000)))"
  have t: "fits E (Some ?t)"
    using fits_add_timeouts(1) [OF E, of "clock E a" "pa_tick a"] jitter_bound [OF E] by (simp add: clock_def)
  let ?a = "a\<lparr>pa_handshake := Some \<lparr>ha_first_sent = first_sent, ha_retry_at = ?t\<rparr>, pa_tick := 5 + pa_tick a, pa_machine := m\<rparr>"
  have eq: "send_handshake C T E a first_sent = (case r of
      Inl _ \<Rightarrow> Some ?a
    | Inr old \<Rightarrow>
        let (ok, c) = socket_send E (bind_index (retire_index ?a old) (env_index E k)) e msg None
        in if \<not> ok then Some c else Some (count_sent E (c\<lparr>pa_last_send := clock E a\<rparr>) (length msg)))"
    using e i k
    by (cases r) (simp_all add: send_handshake_def read_env_eq HandshakeAttempt_new_def rekey_jitter_def fresh_values_at clock_def Let_def
        split: prod.split)
  have "\<exists>b. send_handshake C T E a first_sent = Some b" unfolding eq by (cases r) (simp_all add: Let_def split: prod.split)
  then obtain b where b: "send_handshake C T E a first_sent = Some b" by blast
  show thesis
    by (rule that [OF b _ t]; insert b [unfolded eq] k; cases r; cases "env_socket_send E (5 + pa_tick a)")
      (auto simp: cs H retire_index_eq bind_index_def socket_send_def count_sent_def update_status_def read_env_eq)
qed

lemma send_handshake_ok:
  assumes C: "crypto_ok C" and T: "tai_ok T" and E: "env_ok E" and a: "actor_ok E a" and f: "first_sent \<le> clock E a"
  shows "\<exists>b. send_handshake C T E a first_sent = Some b \<and> actor_ok E b \<and> handshaking a b"
proof (cases "p_endpoint (pa_machine a)")
  case None
  then show ?thesis using a by (simp add: send_handshake_def handshaking_def)
next
  case (Some e)
  define k where "k = pa_tick a + 2"
  have m: "Peer_ok (pa_machine a)" using a by (simp add: actor_ok_def)
  obtain r m msg where i: "Peer_initiate C T (pa_machine a) (pa_our_key a) (values_at E k) (replicate INIT_MSG_LENGTH 0) = Some (r, m, msg)"
      "Peer_ok m" "same_sessions (pa_machine a) m"
      "case r of Inr old \<Rightarrow> indices m + opt_mset old = indices (pa_machine a) + {#env_index E k#}
       | Inl _ \<Rightarrow> indices m = indices (pa_machine a)"
    using Peer_initiate_total [OF C T m, of "pa_our_key a" "values_at E k" "replicate INIT_MSG_LENGTH 0"]
    by (elim exE conjE, rename_tac r m msg, case_tac r) auto
  note keeps = Peer_initiate_keeps [OF i(1)]
  define cs where "cs = (case r of Inl _ \<Rightarrow> [] | Inr old \<Rightarrow> retire_msgs (p_peer_key m) old @ [Bind (p_peer_key m) (env_index E k)])"
  define H where "H = (if isl r \<or> \<not> env_socket_send E (k + 3) then []
    else [\<lparr>tx_destination = e, tx_contents = msg, tx_segment_size = None\<rparr>])"
  obtain b t where b: "send_handshake C T E a first_sent = Some b"
    "pa_handshake b = Some \<lparr>ha_first_sent = first_sent, ha_retry_at = t\<rparr>" "fits E (Some t)" "pa_tick a \<le> pa_tick b"
    "pa_last_send b = pa_last_send a \<or> pa_last_send b = clock E a" "pa_control b = pa_control a @ cs" "pa_wire b = pa_wire a @ H"
    "pa_machine b = m" "pa_session b = pa_session a" "pa_staged b = pa_staged a" "pa_inbound b = pa_inbound a"
    "pa_session_tx b = pa_session_tx a" "pa_persistent_keepalive b = pa_persistent_keepalive a"
    by (rule send_handshake_eq [OF E Some k_def i(1) cs_def H_def]) (rule that)
  have "\<exists>old new. indices m + opt_mset old = indices (pa_machine a) + new \<and> bound cs = new \<and> retired cs = opt_mset old"
    using i(4) by (cases r) (auto simp: cs_def intro: exI [of _ None])
  moreover have "control_for (p_peer_key m) cs"
    by (auto simp: cs_def control_for_def retire_msgs_def split: sum.split option.splits)
  ultimately have "balanced (a\<lparr>pa_machine := m, pa_control := pa_control a @ cs\<rparr>)"
    using balanced_swap [of a m] a keeps by (auto simp: actor_ok_def)
  then have "balanced b" using b by (simp add: balanced_def)
  then have "actor_ok E b"
    using a b i(2) keeps Some past_mono [OF E f [unfolded clock_def] b(4)] past_mono [OF E _ b(4)]
    by (auto simp: actor_ok_def staged_ok_def handshake_ok_def session_ok_def keepalive_ok_def clock_def)
  moreover have "handshaking a b" using b i(3) keeps by (simp add: handshaking_def H_def)
  ultimately show ?thesis using b(1) by blast
qed

lemma handshaking_frame:
  "handshaking b c \<Longrightarrow> pa_tick a \<le> pa_tick b \<Longrightarrow> pa_machine b = pa_machine a \<Longrightarrow> pa_staged b = pa_staged a \<Longrightarrow>
     pa_session b = pa_session a \<Longrightarrow> pa_inbound b = pa_inbound a \<Longrightarrow> pa_wire b = pa_wire a \<Longrightarrow>
     pa_session_tx b = pa_session_tx a \<Longrightarrow> handshaking a c"
  by (auto simp: handshaking_def)

lemma ensure_handshake_ok:
  assumes C: "crypto_ok C" and T: "tai_ok T" and E: "env_ok E" and a: "actor_ok E a"
  shows "\<exists>b. ensure_handshake C T E a = Some b \<and> actor_ok E b \<and> handshaking a b"
proof (cases "pa_handshake a")
  case None
  let ?a = "a\<lparr>pa_tick := pa_tick a + 1\<rparr>"
  have "actor_ok E ?a" by (rule actor_ok_frame [OF E a]) simp_all
  moreover have "env_now E (pa_tick a) \<le> clock E ?a" using clock_mono [OF E] by (simp add: clock_def)
  ultimately obtain b where "send_handshake C T E ?a (env_now E (pa_tick a)) = Some b" "actor_ok E b" "handshaking ?a b"
    using send_handshake_ok [OF C T E] by blast
  then show ?thesis using None handshaking_frame [of ?a b a] by (simp add: ensure_handshake_def read_env_eq)
next
  case (Some h)
  then show ?thesis using a by (simp add: ensure_handshake_def handshaking_def)
qed

lemma apply_endpoint_ok:
  assumes C: "crypto_ok C" and T: "tai_ok T" and E: "env_ok E" and a: "actor_ok E a"
  shows "\<exists>b. apply_endpoint C T E a endpoint = Some b \<and> actor_ok E b"
proof -
  let ?a = "a\<lparr>pa_machine := set_endpoint (pa_machine a) endpoint\<rparr>"
  have "actor_ok E (update_status ?a f)" for f
    using a by (auto simp: actor_inv update_status_def set_endpoint_def peer_inv est_def)
  from ensure_handshake_ok [OF C T E this] show ?thesis by (auto simp: apply_endpoint_def Let_def)
qed

text \<open>An update the actor can carry out: the keepalive interval leaves room on the clock.\<close>

definition update_ok :: "PeerUpdate \<Rightarrow> bool" where
  "update_ok u \<longleftrightarrow> (\<forall>interval. pu_persistent_keepalive u = Set interval \<longrightarrow> interval \<le> KEEPALIVE_MAX)"

lemma actor_ok_preshared_key:
  "actor_ok E a \<Longrightarrow> actor_ok E (a\<lparr>pa_machine := set_preshared_key (pa_machine a) psk\<rparr>)"
  by (auto simp: actor_inv set_preshared_key_def peer_inv est_def)

lemma actor_ok_keepalive:
  "actor_ok E a \<Longrightarrow> (\<forall>i. interval = Some i \<longrightarrow> i \<le> KEEPALIVE_MAX) \<Longrightarrow> actor_ok E (a\<lparr>pa_persistent_keepalive := interval\<rparr>)"
  by (auto simp: actor_inv)

lemma apply_update_ok:
  assumes C: "crypto_ok C" and T: "tai_ok T" and E: "env_ok E" and a: "actor_ok E a" and u: "update_ok u"
  shows "\<exists>b. apply_update C T E a u = Some b \<and> actor_ok E b"
proof -
  let ?a1 = "case pu_preshared_key u of Keep \<Rightarrow> a
    | Clear \<Rightarrow> a\<lparr>pa_machine := set_preshared_key (pa_machine a) None\<rparr>
    | Set k \<Rightarrow> a\<lparr>pa_machine := set_preshared_key (pa_machine a) (Some k)\<rparr>"
  have 1: "actor_ok E ?a1" using a actor_ok_preshared_key by (auto split: Update.split)
  let ?a2 = "case pu_persistent_keepalive u of Keep \<Rightarrow> ?a1
    | Clear \<Rightarrow> ?a1\<lparr>pa_persistent_keepalive := None\<rparr> | Set i \<Rightarrow> ?a1\<lparr>pa_persistent_keepalive := Some i\<rparr>"
  have "actor_ok E ?a2"
    using 1 u actor_ok_keepalive [OF 1, of None] actor_ok_keepalive [OF 1, of "Some _"]
    by (cases "pu_persistent_keepalive u") (auto simp: update_ok_def)
  then show ?thesis using apply_endpoint_ok [OF C T E]
    by (cases "pu_endpoint u") (auto simp: apply_update_def Let_def)
qed

section \<open>Sends\<close>

definition last_n :: "nat \<Rightarrow> 'a list \<Rightarrow> 'a list" where
  "last_n n xs = drop (length xs - n) xs"

lemma last_n_snoc: "0 < n \<Longrightarrow> last_n n (last_n n xs @ [x]) = last_n n (xs @ [x])"
  by (cases "n \<le> length xs") (auto simp: last_n_def Suc_diff_le)

lemma stage_eq:
  "length (pa_staged a) \<le> MAX_STAGED_PACKETS \<Longrightarrow>
     stage a ps = a\<lparr>pa_staged := last_n MAX_STAGED_PACKETS (pa_staged a @ ps)\<rparr>"
proof (induction ps rule: rev_induct)
  case Nil
  then show ?case by (simp add: stage_def last_n_def)
next
  case (snoc p ps)
  have one: "stage_one b p = b\<lparr>pa_staged := last_n MAX_STAGED_PACKETS (pa_staged b @ [p])\<rparr>"
    if "length (pa_staged b) \<le> MAX_STAGED_PACKETS" for b :: "'a PeerActor"
    using that by (auto simp: stage_one_def last_n_def drop_Suc MAX_STAGED_PACKETS_def)
  have "stage a (ps @ [p]) = stage_one (stage a ps) p" by (simp add: stage_def)
  also have "\<dots> = a\<lparr>pa_staged := last_n MAX_STAGED_PACKETS (last_n MAX_STAGED_PACKETS (pa_staged a @ ps) @ [p])\<rparr>"
    using snoc by (simp add: one last_n_def)
  finally show ?case using last_n_snoc [of MAX_STAGED_PACKETS "pa_staged a @ ps" p]
    by (simp add: MAX_STAGED_PACKETS_def)
qed

lemma actor_ok_advance:
  assumes E: "env_ok E" and a: "actor_ok E a" and "k \<le> capacity (pa_machine a) now" and "pa_tick a \<le> pa_tick b"
    and "pa_machine b = advance (pa_machine a) k" and "pa_staged b = pa_staged a" and "pa_control b = pa_control a"
    and "pa_handshake b = pa_handshake a" and "pa_session b = pa_session a"
    and "pa_persistent_keepalive b = pa_persistent_keepalive a" and "pa_last_send b = pa_last_send a"
  shows "actor_ok E b"
  using actor_ok_frame [OF E a, of "b\<lparr>pa_machine := pa_machine a\<rparr>"] Peer_ok_advance [OF _ assms(3)] assms
  by (simp add: actor_inv)

lemma actor_ok_session:
  assumes "actor_ok E a" and "pa_session a = Some s" and "as_established s' = as_established s"
    and "fits E (as_keepalive_at s')" and "fits E (as_new_handshake_at s')"
  shows "actor_ok E (a\<lparr>pa_session := Some s'\<rparr>)"
  using assms by (auto simp: actor_inv)

lemma actor_ok_no_session: "actor_ok E a \<Longrightarrow> actor_ok E (a\<lparr>pa_session := None\<rparr>)"
  by (simp add: actor_inv)

lemma note_sent_ok:
  assumes E: "env_ok E" and a: "actor_ok E a" and now: "now \<le> clock E a"
  shows "\<exists>rekey b. note_sent E a now = (rekey, b) \<and> actor_ok E b \<and> pa_tick a \<le> pa_tick b \<and>
    pa_machine b = pa_machine a \<and> pa_staged b = pa_staged a \<and> pa_wire b = pa_wire a \<and> pa_inbound b = pa_inbound a"
proof (cases "pa_session a")
  case None
  have "actor_ok E (a\<lparr>pa_last_send := now\<rparr>)" by (rule actor_ok_frame [OF E a]) (use now in simp_all)
  then show ?thesis using None by (auto simp: note_sent_def)
next
  case (Some s)
  let ?j = "from_millis (env_random_range E (pa_tick a) (REKEY_TIMEOUT_JITTER_MAX div 1000000))"
  let ?a = "a\<lparr>pa_last_send := now, pa_tick := pa_tick a + 1\<rparr>"
  have "actor_ok E ?a" by (rule actor_ok_frame [OF E a]) (use now in simp_all)
  moreover have "fits E (as_new_handshake_at (data_sent s now ?j))"
    using a Some fits_add_timeouts(2) [OF E now [unfolded clock_def] jitter_bound [OF E]]
    by (cases "as_new_handshake_at s") (simp_all add: actor_inv data_sent_def)
  ultimately have "actor_ok E (?a\<lparr>pa_session := Some (data_sent s now ?j)\<rparr>)"
    using Some by (intro actor_ok_session [of E ?a s]) (simp_all add: data_sent_def)
  then show ?thesis using Some by (auto simp: note_sent_def rekey_jitter_def read_env_eq Let_def)
qed

text \<open>
  What a flush does: the payloads the session can take become packets on the wire, in order and
  batched, followed by at most one handshake message. If the session cannot take all of them, the rest waits in
  the queue, of which the last \<open>MAX_STAGED_PACKETS\<close> are kept, and a handshake is under way.
\<close>

definition flushed :: "crypto \<Rightarrow> 'ts env \<Rightarrow> 'ts PeerActor \<Rightarrow> bytes list \<Rightarrow> 'ts PeerActor \<Rightarrow> bool" where
  "flushed C E a payloads b \<longleftrightarrow>
     (let k = min (length payloads) (capacity (pa_machine a) (clock E a))
      in (\<exists>W H. pa_wire b = pa_wire a @ W @ H \<and> length H \<le> 1 \<and>
            sent_ok C E (env_max_gso_segments E (pa_tick a + 1)) (pa_machine a) (take k payloads) W) \<and>
         (\<forall>sl. get_slot (pa_machine b) sl = get_slot (advance (pa_machine a) k) sl) \<and>
         p_endpoint (pa_machine b) = p_endpoint (pa_machine a) \<and> pa_inbound b = pa_inbound a \<and>
         (if k < length payloads
          then pa_staged b = last_n MAX_STAGED_PACKETS (pa_staged a @ drop k payloads) \<and> pa_session b = None \<and>
            (p_endpoint (pa_machine a) \<noteq> None \<longrightarrow> pa_handshake b \<noteq> None)
          else pa_staged b = pa_staged a))"

text \<open>The loop of the flush, and its two ways on: the rest is staged, or a new handshake may be due.\<close>

lemma flush_sends_eq:
  assumes C: "crypto_ok C" and E: "env_ok E" and a: "actor_ok E a" and sizes: "\<forall>p \<in> set payloads. length p < AEAD_P_MAX"
    and "payloads \<noteq> []" and k: "k = min (length payloads) (capacity (pa_machine a) (clock E a))"
  obtains b W where "actor_ok E b" "pa_tick a \<le> pa_tick b" "pa_machine b = advance (pa_machine a) k" "pa_wire b = pa_wire a @ W"
    "pa_staged b = pa_staged a" "pa_inbound b = pa_inbound a"
    "sent_ok C E (env_max_gso_segments E (pa_tick a + 1)) (pa_machine a) (take k payloads) W"
    "flush_sends C T E a payloads =
      (if k < length payloads then ensure_handshake C T E (stage (b\<lparr>pa_session := None\<rparr>) (drop k payloads))
       else let rekey = (0 < k \<and> Peer_rekey_due_to_messages (pa_machine b));
                (time_rekey, c) = (if W \<noteq> [] then note_sent E b (clock E a) else (False, b))
            in if (rekey \<or> time_rekey) \<and> pa_handshake c = None then send_handshake C T E c (clock E a) else Some c)"
proof -
  let ?m = "pa_machine a" and ?now = "clock E a" and ?gso = "env_max_gso_segments E (pa_tick a + 1)"
  let ?a = "a\<lparr>pa_tick := pa_tick a + 2\<rparr>"
  have m: "Peer_ok ?m" using a by (simp add: actor_ok_def)
  obtain W st n where loop: "flush_loop C E ?now ?gso payloads 0 False False ?a =
      Some (k, W \<noteq> [], 0 < k, a\<lparr>pa_machine := advance ?m k, pa_wire := pa_wire a @ W, pa_status := st, pa_tick := n\<rparr>)"
      and n: "pa_tick a + 2 \<le> n" and W: "sent_ok C E ?gso ?m (take k payloads) W"
    using flush_loop_eq [OF C sizes, of ?a 0 k ?now E ?gso False False] m by (auto simp: k)
  let ?b = "a\<lparr>pa_machine := advance ?m k, pa_wire := pa_wire a @ W, pa_status := st, pa_tick := n\<rparr>"
  have b: "actor_ok E ?b" by (rule actor_ok_advance [OF E a, of _ ?now]) (use n in \<open>simp_all add: k\<close>)
  show thesis
    by (rule that [OF b _ _ _ _ _ W]; (unfold clock_def)?)
      (use n assms(5) loop [unfolded clock_def] in \<open>simp_all add: flush_sends_def read_env_eq\<close>)
qed

lemma stage_ok:
  assumes E: "env_ok E" and b: "actor_ok E b" and "\<forall>p \<in> set ps. length p < AEAD_P_MAX"
  obtains c where "stage (b\<lparr>pa_session := None\<rparr>) ps = c" "actor_ok E c"
    "c = b\<lparr>pa_session := None, pa_staged := last_n MAX_STAGED_PACKETS (pa_staged b @ ps)\<rparr>"
proof -
  let ?ps = "last_n MAX_STAGED_PACKETS (pa_staged b @ ps)"
  have "\<forall>p \<in> set ?ps. length p < AEAD_P_MAX"
    using b assms(3) by (auto simp: last_n_def actor_inv dest!: in_set_dropD)
  then have "actor_ok E (b\<lparr>pa_session := None, pa_staged := ?ps\<rparr>)"
    using actor_ok_no_session [OF b] by (simp add: actor_inv last_n_def)
  then show thesis using b by (intro that) (simp_all add: stage_eq actor_inv)
qed

lemma flush_ends_ok:
  assumes C: "crypto_ok C" and T: "tai_ok T" and E: "env_ok E" and b: "actor_ok E b" and now: "now \<le> clock E b"
  obtains d H where "(let (time_rekey, c) = (if sent then note_sent E b now else (False, b))
      in if (rekey \<or> time_rekey) \<and> pa_handshake c = None then send_handshake C T E c now else Some c) = Some d"
    "actor_ok E d" "pa_staged d = pa_staged b" "pa_inbound d = pa_inbound b" "same_sessions (pa_machine b) (pa_machine d)"
    "pa_wire d = pa_wire b @ H" "length H \<le> 1"
proof -
  obtain r c where c: "(if sent then note_sent E b now else (False, b)) = (r, c)" "actor_ok E c" "pa_tick b \<le> pa_tick c"
      "pa_machine c = pa_machine b" "pa_staged c = pa_staged b" "pa_wire c = pa_wire b" "pa_inbound c = pa_inbound b"
    using note_sent_ok [OF E b now] b by (cases sent) auto
  have "now \<le> clock E c" using past_mono [OF E now [unfolded clock_def] c(3)] by (simp add: clock_def)
  from send_handshake_ok [OF C T E c(2) this] obtain d where d: "send_handshake C T E c now = Some d" "actor_ok E d" "handshaking c d"
    by blast
  then obtain H where H: "pa_wire d = pa_wire b @ H" "length H \<le> 1" using c by (auto simp: handshaking_def)
  show thesis
  proof (cases "(rekey \<or> r) \<and> pa_handshake c = None")
    case True
    then show thesis using that [of d H] c d H by (simp add: handshaking_def)
  next
    case False
    then show thesis using c by (intro that [of c "[]"]) (auto simp: Let_def)
  qed
qed

lemma flush_sends_ok:
  assumes C: "crypto_ok C" and T: "tai_ok T" and E: "env_ok E" and a: "actor_ok E a"
    and sizes: "\<forall>p \<in> set payloads. length p < AEAD_P_MAX"
  shows "\<exists>b. flush_sends C T E a payloads = Some b \<and> actor_ok E b \<and> flushed C E a payloads b"
proof (cases "payloads = []")
  case True
  then show ?thesis using a by (simp add: flush_sends_def flushed_def sent_ok_def)
next
  case False
  define k where "k = min (length payloads) (capacity (pa_machine a) (clock E a))"
  obtain b W where b: "actor_ok E b" "pa_tick a \<le> pa_tick b" "pa_machine b = advance (pa_machine a) k" "pa_wire b = pa_wire a @ W"
      "pa_staged b = pa_staged a" "pa_inbound b = pa_inbound a"
      "sent_ok C E (env_max_gso_segments E (pa_tick a + 1)) (pa_machine a) (take k payloads) W"
    and fl: "flush_sends C T E a payloads =
      (if k < length payloads then ensure_handshake C T E (stage (b\<lparr>pa_session := None\<rparr>) (drop k payloads))
       else let rekey = (0 < k \<and> Peer_rekey_due_to_messages (pa_machine b));
                (time_rekey, c) = (if W \<noteq> [] then note_sent E b (clock E a) else (False, b))
            in if (rekey \<or> time_rekey) \<and> pa_handshake c = None then send_handshake C T E c (clock E a) else Some c)"
    by (rule flush_sends_eq [OF C E a sizes False k_def])
  show ?thesis
  proof (cases "k < length payloads")
    case True
    obtain c where c: "stage (b\<lparr>pa_session := None\<rparr>) (drop k payloads) = c" "actor_ok E c"
        "c = b\<lparr>pa_session := None, pa_staged := last_n MAX_STAGED_PACKETS (pa_staged b @ drop k payloads)\<rparr>"
      by (rule stage_ok [OF E b(1), of "drop k payloads"]) (use sizes in \<open>auto dest: in_set_dropD\<close>)
    from ensure_handshake_ok [OF C T E c(2)]
    obtain d where d: "ensure_handshake C T E c = Some d" "actor_ok E d" "handshaking c d" by blast
    have "flushed C E a payloads d" using d(3) True b
      by (auto simp: flushed_def k_def [symmetric] handshaking_def same_sessions_def c(3))
    then show ?thesis using fl True d c(1) by simp
  next
    case False
    have "clock E a \<le> clock E b" using clock_mono [OF E b(2)] by (simp add: clock_def)
    then obtain d H where d: "(let rekey = (0 < k \<and> Peer_rekey_due_to_messages (pa_machine b));
            (time_rekey, c) = (if W \<noteq> [] then note_sent E b (clock E a) else (False, b))
          in if (rekey \<or> time_rekey) \<and> pa_handshake c = None then send_handshake C T E c (clock E a) else Some c) = Some d"
        "actor_ok E d" "pa_staged d = pa_staged b" "pa_inbound d = pa_inbound b"
        "same_sessions (pa_machine b) (pa_machine d)" "pa_wire d = pa_wire b @ H" "length H \<le> 1"
      unfolding Let_def [of "0 < k \<and> _"] by (rule flush_ends_ok [OF C T E b(1)])
    then have "flushed C E a payloads d" using False b
      by (auto simp: flushed_def k_def [symmetric] same_sessions_def)
    then show ?thesis using fl False d(1,2) by simp
  qed
qed

lemma flush_staged_ok:
  assumes C: "crypto_ok C" and T: "tai_ok T" and E: "env_ok E" and a: "actor_ok E a"
  shows "\<exists>b. flush_staged C T E a = Some b \<and> actor_ok E b"
proof -
  have "actor_ok E (a\<lparr>pa_staged := []\<rparr>)" "\<forall>p \<in> set (pa_staged a). length p < AEAD_P_MAX"
    using a by (simp_all add: actor_inv)
  then show ?thesis using flush_sends_ok [OF C T E] a by (fastforce simp: flush_staged_def)
qed

text \<open>A keepalive is an empty packet, if the session can still take one.\<close>

lemma encrypt_keepalive:
  assumes C: "crypto_ok C" and m: "Peer_ok m"
  obtains e p where "encrypt C m now [] (replicate 32 0) =
      Some (if 0 < capacity m now then (Inr 32, advance m 1, p) else (Inl e, m, replicate 32 0))"
    "0 < capacity m now \<longrightarrow> length p = 32"
proof -
  let ?p = "concat (outgoing C m [[]])"
  have "length ([] :: bytes) < AEAD_P_MAX" "packet_len (length ([] :: bytes)) = length (replicate 32 (0 :: u8))"
    by (simp_all add: AEAD_P_MAX_def)
  from encrypt_eq [OF C m this, of now] obtain e where
    "encrypt C m now [] (replicate 32 0) = Some (if 0 < capacity m now then (Inr 32, advance m 1, ?p) else (Inl e, m, replicate 32 0))"
    unfolding length_replicate by blast
  moreover have "0 < capacity m now \<longrightarrow> length ?p = 32"
    using outgoing_lengths [OF C m, of "[[]]" 32] length_concat_same [of "outgoing C m [[]]" 32] capacity_pos [of m now]
    by (auto simp: AEAD_P_MAX_def)
  ultimately show thesis by (rule that)
qed

lemma actor_ok_keepalive_sent:
  assumes "actor_ok E a"
  shows "actor_ok E (a\<lparr>pa_session := map_option keepalive_sent (pa_session a)\<rparr>)"
proof (cases "pa_session a")
  case (Some s)
  then show ?thesis using actor_ok_session [OF assms Some, of "keepalive_sent s"] assms
    by (simp add: keepalive_sent_def actor_inv)
qed (use actor_ok_no_session [OF assms] in simp)

lemma send_keepalive_ok:
  assumes C: "crypto_ok C" and T: "tai_ok T" and E: "env_ok E" and a: "actor_ok E a"
  shows "\<exists>b. send_keepalive C T E a = Some b \<and> actor_ok E b"
proof -
  let ?m = "pa_machine a" and ?now = "clock E a"
  have m: "Peer_ok ?m" using a by (simp add: actor_ok_def)
  obtain e p where enc: "encrypt C ?m ?now [] (replicate 32 0) =
      Some (if 0 < capacity ?m ?now then (Inr 32, advance ?m 1, p) else (Inl e, ?m, replicate 32 0))"
    and p: "0 < capacity ?m ?now \<longrightarrow> length p = 32"
    by (rule encrypt_keepalive [OF C m, of ?now])
  show ?thesis
  proof (cases "0 < capacity ?m ?now")
    case False
    have "actor_ok E (a\<lparr>pa_tick := pa_tick a + 1\<rparr>)" by (rule actor_ok_frame [OF E a]) simp_all
    then show ?thesis using enc False actor_ok_no_session
      by (auto simp: send_keepalive_def read_env_eq clock_def)
  next
    case True
    from capacity_pos [OF this] obtain d where d: "p_endpoint ?m = Some d" by blast
    define b where "b = a\<lparr>pa_tick := pa_tick a + 1, pa_machine := advance ?m 1,
      pa_session := map_option keepalive_sent (pa_session a)\<rparr>"
    have "actor_ok E (a\<lparr>pa_tick := pa_tick a + 1, pa_machine := advance ?m 1\<rparr>)"
      by (rule actor_ok_advance [OF E a, of 1 ?now]) (use True in simp_all)
    from actor_ok_keepalive_sent [OF this] have b: "actor_ok E b" by (simp add: b_def)
    define c where "c = (if env_socket_send E (pa_tick b)
      then count_sent E (b\<lparr>pa_tick := pa_tick b + 1, pa_wire := pa_wire b @
        [\<lparr>tx_destination = d, tx_contents = p, tx_segment_size = None\<rparr>], pa_last_send := ?now\<rparr>) 32
      else b\<lparr>pa_tick := pa_tick b + 1\<rparr>)"
    have "?now \<le> clock E b" using clock_mono [OF E] by (simp add: clock_def b_def)
    then have c: "actor_ok E c"
      by (intro actor_ok_frame [OF E b]) (simp_all add: c_def count_sent_def read_env_eq update_status_def)
    have "subslice p 0 32 = Some p" using p True by (simp add: subslice_Some sub_all)
    then have "send_keepalive C T E a = Some c \<or> send_keepalive C T E a = ensure_handshake C T E c"
      using enc True d
      by (simp add: send_keepalive_def read_env_eq clock_def socket_send_def c_def b_def Let_def)
    then show ?thesis using ensure_handshake_ok [OF C T E c] c by auto
  qed
qed

lemma session_established_ok:
  assumes C: "crypto_ok C" and T: "tai_ok T" and E: "env_ok E" and a: "actor_ok E a"
  shows "\<exists>b. session_established C T E a initiator = Some b \<and> actor_ok E b"
proof -
  obtain b where b: "flush_staged C T E a = Some b" "actor_ok E b" using flush_staged_ok [OF C T E a] by blast
  have "\<exists>c. (if initiator \<and> pa_staged a = [] then send_keepalive C T E b else Some b) = Some c \<and> actor_ok E c"
    using send_keepalive_ok [OF C T E b(2)] b(2) by simp
  then obtain c where c: "(if initiator \<and> pa_staged a = [] then send_keepalive C T E b else Some b) = Some c" "actor_ok E c"
    by blast
  have "actor_ok E (c\<lparr>pa_session_tx := True\<rparr>)" by (rule actor_ok_frame [OF E c(2)]) simp_all
  then show ?thesis using b(1) c(1) by (simp add: session_established_def)
qed

section \<open>Actions\<close>

text \<open>
  The handlers of network input read the clock first: \<open>now\<close> is the clock of the state \<open>a\<close>
  they start in, and they work on \<open>a\<close> with that reading counted.
\<close>

definition reading :: "'ts PeerActor \<Rightarrow> 'ts PeerActor" where
  "reading a = a\<lparr>pa_tick := pa_tick a + 1\<rparr>"

lemma reading_fields [simp]:
  "pa_machine (reading a) = pa_machine a" "pa_our_key (reading a) = pa_our_key a"
  by (simp_all add: reading_def)

text \<open>
  The state after a machine step that may drop an index, establish sessions and move the
  timers along.
\<close>

lemma actor_ok_step:
  assumes E: "env_ok E" and a: "actor_ok E a" and tick: "pa_tick a \<le> pa_tick b"
    and m: "Peer_ok (pa_machine b)" and key: "p_peer_key (pa_machine b) = p_peer_key (pa_machine a)"
    and idx: "indices (pa_machine b) + opt_mset old = indices (pa_machine a) + new"
    and cs: "pa_control b = pa_control a @ cs" "control_for (p_peer_key (pa_machine b)) cs" "bound cs = new"
      "retired cs = opt_mset old"
    and est: "\<And>sl t. est (pa_machine b) sl = Some t \<Longrightarrow> t \<le> clock E a"
    and pend: "p_pending (pa_machine b) \<noteq> None \<Longrightarrow> p_pending (pa_machine a) \<noteq> None \<and> pa_handshake b = pa_handshake a"
    and hs: "pa_handshake b = pa_handshake a \<or> pa_handshake b = None"
    and endp: "pa_handshake b \<noteq> None \<Longrightarrow> p_endpoint (pa_machine b) \<noteq> None"
    and sess: "\<And>s. pa_session b = Some s \<Longrightarrow> as_established s \<le> clock E a \<and> fits E (as_keepalive_at s) \<and>
      fits E (as_new_handshake_at s) \<and> (\<exists>t. est (pa_machine b) Current = Some t \<and> t \<le> as_established s)"
    and rest: "pa_staged b = pa_staged a" "pa_persistent_keepalive b = pa_persistent_keepalive a"
      "pa_last_send b \<le> clock E a \<or> pa_last_send b = pa_last_send a"
  shows "actor_ok E b"
proof -
  note mono = past_mono [OF E _ tick]
  have "balanced b"
    using balanced_swap [of a "pa_machine b" old new cs] a key idx cs by (simp add: actor_ok_def balanced_def)
  moreover have "staged_ok b" "keepalive_ok E b" using a rest mono by (auto simp: actor_inv)
  moreover have "handshake_ok E b" using a pend hs endp mono by (auto simp: actor_inv)
  moreover have "session_ok E b" using est sess mono by (auto simp: session_ok_def clock_def)
  ultimately show ?thesis using m by (simp add: actor_ok_def)
qed

lemma est_past: "actor_ok E a \<Longrightarrow> est (pa_machine a) sl = Some t \<Longrightarrow> t \<le> clock E a"
  by (simp add: actor_ok_def session_ok_def)

text \<open>
  A packet the peer accepts: the state \<open>b\<close> with the new session and timers, before the
  payload is handed on.
\<close>

lemma recv_data_eq:
  assumes dec: "decrypt C (pa_machine a) (clock E a) receiver data endpoint = Some (Inr rv, m, d)"
    and sess: "sess = map_option (packet_received (clock E a) (0 < rv_payload_len rv))
      (if rv_confirmed rv then Some (ActorSession_new False (clock E a)) else pa_session a)"
  obtains st where "recv_data_action C T E (reading a) (clock E a) data receiver endpoint =
    (let b = a\<lparr>pa_machine := m, pa_control := pa_control a @ retire_msgs (p_peer_key m) (rv_unmapped rv),
           pa_tick := pa_tick a + 2, pa_status := st, pa_session := sess\<rparr>;
         c = (if 0 < rv_payload_len rv
           then inbound_try_send E b \<lparr>pk_public_key = p_peer_key m, pk_payload = take (rv_payload_len rv) d\<rparr> else b)
     in do {
       x \<leftarrow> (if rv_confirmed rv then session_established C T E c False else Some c);
       if is_some_and sess (\<lambda>s. rekey_after_receive s (clock E a)) then ensure_handshake C T E x else Some x
     })"
proof -
  define st where "st = (pa_status a)\<lparr>st_endpoint := Some endpoint, st_rx_bytes := st_rx_bytes (pa_status a) + of_nat (length data),
      st_last_recv := Some (env_system_time E (pa_tick a + 1))\<rparr>"
  show thesis using dec
    by (intro that [of st])
      (simp add: recv_data_action_def reading_def retire_index_eq read_env_eq update_status_def sess st_def Let_def)
qed

lemma recv_data_state_ok:
  assumes C: "crypto_ok C" and E: "env_ok E" and a: "actor_ok E a"
    and dec: "decrypt C (pa_machine a) (clock E a) receiver data endpoint = Some (Inr rv, m, d)"
    and b: "pa_machine b = m" "pa_control b = pa_control a @ retire_msgs (p_peer_key m) (rv_unmapped rv)" "pa_tick a \<le> pa_tick b"
      "pa_session b = map_option (packet_received (clock E a) carried)
        (if rv_confirmed rv then Some (ActorSession_new False (clock E a)) else pa_session a)"
      "pa_staged b = pa_staged a" "pa_persistent_keepalive b = pa_persistent_keepalive a" "pa_last_send b = pa_last_send a"
      "pa_handshake b = pa_handshake a"
  shows "actor_ok E b"
proof (rule actor_ok_step [OF E a b(3), where old = "rv_unmapped rv" and new = "{#}" and
    cs = "retire_msgs (p_peer_key m) (rv_unmapped rv)"])
  let ?m = "pa_machine a" and ?now = "clock E a"
  have "Peer_ok ?m" using a by (simp add: actor_ok_def)
  from decrypt_total [OF C this, of ?now receiver data endpoint] dec
  have m: "Peer_ok m" "p_pending m = p_pending ?m" "indices m + opt_mset (rv_unmapped rv) = indices ?m" by auto
  note k = decrypt_keeps [OF dec]
  show "Peer_ok (pa_machine b)" "indices (pa_machine b) + opt_mset (rv_unmapped rv) = indices ?m + {#}"
    "p_pending (pa_machine b) \<noteq> None \<Longrightarrow> p_pending ?m \<noteq> None \<and> pa_handshake b = pa_handshake a"
    "pa_handshake b \<noteq> None \<Longrightarrow> p_endpoint (pa_machine b) \<noteq> None" "p_peer_key (pa_machine b) = p_peer_key ?m"
    using m k b by simp_all
  show "t \<le> ?now" if "est (pa_machine b) sl = Some t" for sl t
    using that k est_past [OF a] b(1) by (cases sl) (auto split: if_splits)
  have fit: "fits E (Some (instant_add ?now KEEPALIVE_TIMEOUT))"
    by (rule fits_add [OF E, of _ "pa_tick a"]) (simp_all add: clock_def KEEPALIVE_MAX_def time_consts)
  show "as_established s \<le> ?now \<and> fits E (as_keepalive_at s) \<and> fits E (as_new_handshake_at s) \<and>
      (\<exists>t. est (pa_machine b) Current = Some t \<and> t \<le> as_established s)" if s: "pa_session b = Some s" for s
  proof (cases "rv_confirmed rv")
    case True
    then obtain t where "est ?m Next = Some t" "t \<le> ?now" using k est_past [OF a] by auto
    then show ?thesis using s True k fit b(1,4) by (auto simp: packet_received_def ActorSession_new_def Let_def)
  next
    case False
    then obtain s0 where s0: "pa_session a = Some s0" "s = packet_received ?now carried s0" using s b(4) by auto
    then show ?thesis using a False k fit b(1)
      by (cases "as_keepalive_at s0") (auto simp: packet_received_def Let_def actor_ok_def session_ok_def)
  qed
qed (use b in simp_all)

lemma recv_data_action_ok:
  assumes C: "crypto_ok C" and T: "tai_ok T" and E: "env_ok E" and a: "actor_ok E a"
  shows "\<exists>b. recv_data_action C T E (reading a) (clock E a) data receiver endpoint = Some b \<and> actor_ok E b"
proof -
  let ?m = "pa_machine a" and ?now = "clock E a"
  have "Peer_ok ?m" using a by (simp add: actor_ok_def)
  from decrypt_total [OF C this, of ?now receiver data endpoint]
  obtain r m d where dec: "decrypt C ?m ?now receiver data endpoint = Some (r, m, d)" "Peer_ok m" "p_pending m = p_pending ?m"
      "case r of Inr rv \<Rightarrow> True | Inl _ \<Rightarrow> indices m = indices ?m"
    by (elim exE conjE, rename_tac r m d, case_tac r) auto
  show ?thesis
  proof (cases r)
    case (Inl e)
    have "actor_ok E ((reading a)\<lparr>pa_machine := m\<rparr>)"
      by (rule actor_ok_step [OF E a, where old = None and new = "{#}" and cs = "[]"])
        (use dec decrypt_keeps [OF dec(1)] Inl a in \<open>auto simp: reading_def control_for_def dest: est_past simp: actor_inv\<close>)
    then show ?thesis using dec(1) Inl by (simp add: recv_data_action_def reading_def)
  next
    case (Inr rv)
    define sess where "sess = map_option (packet_received ?now (0 < rv_payload_len rv))
      (if rv_confirmed rv then Some (ActorSession_new False ?now) else pa_session a)"
    obtain st where eq: "recv_data_action C T E (reading a) ?now data receiver endpoint =
      (let b = a\<lparr>pa_machine := m, pa_control := pa_control a @ retire_msgs (p_peer_key m) (rv_unmapped rv),
             pa_tick := pa_tick a + 2, pa_status := st, pa_session := sess\<rparr>;
           c = (if 0 < rv_payload_len rv
             then inbound_try_send E b \<lparr>pk_public_key = p_peer_key m, pk_payload = take (rv_payload_len rv) d\<rparr> else b)
       in do {
         x \<leftarrow> (if rv_confirmed rv then session_established C T E c False else Some c);
         if is_some_and sess (\<lambda>s. rekey_after_receive s ?now) then ensure_handshake C T E x else Some x
       })" by (rule recv_data_eq [OF dec(1) [unfolded Inr] sess_def])
    define b where "b = a\<lparr>pa_machine := m, pa_control := pa_control a @ retire_msgs (p_peer_key m) (rv_unmapped rv),
      pa_tick := pa_tick a + 2, pa_status := st, pa_session := sess\<rparr>"
    have b: "actor_ok E b"
      by (rule recv_data_state_ok [OF C E a dec(1) [unfolded Inr]]) (simp_all add: b_def sess_def)
    define c where "c = (if 0 < rv_payload_len rv
      then inbound_try_send E b \<lparr>pk_public_key = p_peer_key m, pk_payload = take (rv_payload_len rv) d\<rparr> else b)"
    have "actor_ok E (inbound_try_send E b p)" for p
      by (rule actor_ok_frame [OF E b]) (use inbound_try_send_eq [of E b p] in auto)
    then have "actor_ok E c" using b by (simp add: c_def)
    then obtain x where "(if rv_confirmed rv then session_established C T E c False else Some c) = Some x" "actor_ok E x"
      using session_established_ok [OF C T E, of c False] by (cases "rv_confirmed rv") auto
    then show ?thesis unfolding eq using ensure_handshake_ok [OF C T E, of x] by (auto simp: Let_def b_def c_def)
  qed
qed

lemma recv_init_action_ok:
  fixes T :: "('ts::linorder) tai"
  assumes C: "crypto_ok C" and E: "env_ok E" and a: "actor_ok E a"
  shows "\<exists>b. recv_init_action C T E (reading a) (clock E a) hs endpoint = Some b \<and> actor_ok E b"
proof -
  let ?m = "pa_machine a" and ?now = "clock E a"
  have "Peer_ok ?m" using a by (simp add: actor_ok_def)
  define vals where "vals = values_at E (pa_tick (reading a))"
  have v: "fresh_values E (reading a) = (vals, (reading a)\<lparr>pa_tick := pa_tick (reading a) + 3\<rparr>)"
    by (simp add: fresh_values_at vals_def)
  from Peer_respond_total [OF C \<open>Peer_ok ?m\<close>, of T ?now hs vals endpoint "replicate RESP_MSG_LENGTH 0"]
  obtain r m msg where res: "Peer_respond C T ?m ?now hs vals endpoint (replicate RESP_MSG_LENGTH 0) = Some (r, m, msg)" "Peer_ok m"
      "case r of Inr old \<Rightarrow> indices m + opt_mset old = indices ?m + {#hv_index vals#} | Inl _ \<Rightarrow> m = ?m"
    by (elim exE conjE, rename_tac r m msg, case_tac r) auto
  note k = Peer_respond_keeps [OF res(1)]
  define a1 where "a1 = (reading a)\<lparr>pa_tick := pa_tick (reading a) + 3, pa_machine := m\<rparr>"
  show ?thesis
  proof (cases r)
    case (Inl e)
    have "actor_ok E a1" by (rule actor_ok_frame [OF E a]) (use res(3) Inl in \<open>simp_all add: a1_def reading_def\<close>)
    then show ?thesis using v res(1) Inl by (simp add: recv_init_action_def reading_def a1_def)
  next
    case (Inr old)
    define a2 where "a2 = bind_index (retire_index a1 old) (hv_index vals)"
    have "actor_ok E a2"
    proof (rule actor_ok_step [OF E a, where old = old and new = "{#hv_index vals#}" and
        cs = "retire_msgs (p_peer_key m) old @ [Bind (p_peer_key m) (hv_index vals)]"])
      show "t \<le> ?now" if "est (pa_machine a2) sl = Some t" for sl t
        using that k Inr est_past [OF a] by (auto simp: a2_def a1_def bind_index_def retire_index_eq split: if_splits)
      show "control_for (p_peer_key (pa_machine a2)) (retire_msgs (p_peer_key m) old @ [Bind (p_peer_key m) (hv_index vals)])"
        using retire_msgs(1) by (simp add: a2_def a1_def bind_index_def retire_index_eq control_for_def)
    qed (use res k Inr a in \<open>simp_all add: a2_def a1_def reading_def bind_index_def retire_index_eq handshake_ok_def
        session_ok_def actor_ok_def\<close>)
    obtain ok H where s: "socket_send E a2 endpoint msg None = (ok, a2\<lparr>pa_wire := pa_wire a2 @ H, pa_tick := pa_tick a2 + 1\<rparr>)"
      using socket_send_eq by blast
    have "\<exists>b. recv_init_action C T E (reading a) ?now hs endpoint = Some b \<and> pa_tick a2 \<le> pa_tick b \<and>
        pa_machine b = pa_machine a2 \<and> pa_staged b = pa_staged a2 \<and> pa_control b = pa_control a2 \<and>
        pa_handshake b = pa_handshake a2 \<and> pa_session b = pa_session a2 \<and>
        pa_persistent_keepalive b = pa_persistent_keepalive a2 \<and> (pa_last_send b = ?now \<or> pa_last_send b = pa_last_send a2)"
      using v res(1) Inr s
      by (simp add: recv_init_action_def a1_def [symmetric] a2_def [symmetric] read_env_eq update_status_def Let_def)
    moreover have "?now \<le> clock E a2"
      using clock_mono [OF E] by (simp add: clock_def a2_def a1_def reading_def bind_index_def retire_index_eq)
    ultimately show ?thesis using actor_ok_frame [OF E \<open>actor_ok E a2\<close>] by metis
  qed
qed

text \<open>A response that completes the handshake: the state in which the new session is announced.\<close>

lemma recv_resp_established:
  assumes C: "crypto_ok C" and E: "env_ok E" and a: "actor_ok E a"
    and res: "handshake_response C (pa_machine a) (pa_our_key a) (clock E a) resp endpoint = Some (Inr old, m, p)"
  shows "\<exists>b. recv_resp_action C T E (reading a) (clock E a) resp endpoint = session_established C T E b True \<and>
    actor_ok E b \<and> pa_machine b = m \<and> pa_staged b = pa_staged a \<and> pa_wire b = pa_wire a \<and> pa_inbound b = pa_inbound a \<and>
    pa_tick b = pa_tick a + 3"
proof -
  let ?m = "pa_machine a" and ?now = "clock E a"
  have "Peer_ok ?m" using a by (simp add: actor_ok_def)
  from handshake_response_total [OF C this, of "pa_our_key a" ?now resp endpoint] res
  have m: "Peer_ok m" "indices m + opt_mset old = indices ?m" "p_pending m = None" by auto
  note k = handshake_response_keeps [OF res]
  have b: "actor_ok E b" if "pa_machine b = m" "pa_control b = pa_control a @ retire_msgs (p_peer_key m) old"
    "pa_handshake b = None" "pa_session b = Some (ActorSession_new True ?now)" "pa_tick a \<le> pa_tick b"
    "pa_staged b = pa_staged a" "pa_persistent_keepalive b = pa_persistent_keepalive a" "pa_last_send b = pa_last_send a" for b
  proof (rule actor_ok_step [OF E a, where old = old and new = "{#}" and cs = "retire_msgs (p_peer_key m) old"])
    show "t \<le> ?now" if "est (pa_machine b) sl = Some t" for sl t
      using that k est_past [OF a] \<open>pa_machine b = m\<close> by (auto split: if_splits)
  qed (use that m k in \<open>simp_all add: ActorSession_new_def\<close>)
  show ?thesis using res
    by (auto simp: recv_resp_action_def reading_def retire_index_eq read_env_eq update_status_def Let_def intro!: exI b)
qed

lemma recv_resp_action_ok:
  assumes C: "crypto_ok C" and T: "tai_ok T" and E: "env_ok E" and a: "actor_ok E a"
  shows "\<exists>b. recv_resp_action C T E (reading a) (clock E a) resp endpoint = Some b \<and> actor_ok E b"
proof -
  let ?m = "pa_machine a" and ?now = "clock E a"
  have "Peer_ok ?m" using a by (simp add: actor_ok_def)
  from handshake_response_total [OF C this, of "pa_our_key a" ?now resp endpoint]
  obtain r m p where res: "handshake_response C ?m (pa_our_key a) ?now resp endpoint = Some (r, m, p)"
      "case r of Inr _ \<Rightarrow> True | Inl _ \<Rightarrow> m = ?m"
    by (elim exE conjE, rename_tac r m p, case_tac r) auto
  show ?thesis
  proof (cases r)
    case (Inl e)
    have "actor_ok E ((reading a)\<lparr>pa_machine := m\<rparr>)"
      by (rule actor_ok_frame [OF E a]) (use res(2) Inl in \<open>simp_all add: reading_def\<close>)
    then show ?thesis using res(1) Inl by (simp add: recv_resp_action_def reading_def)
  next
    case (Inr old)
    obtain b where "recv_resp_action C T E (reading a) ?now resp endpoint = session_established C T E b True" "actor_ok E b"
      using recv_resp_established [OF C E a res(1) [unfolded Inr]] by blast
    then show ?thesis using session_established_ok [OF C T E] by simp
  qed
qed

end
