(* ===== verification/Actor_Runs.thy ===== *)
theory Actor_Runs
  imports Actor_Inv Example_Crypto
begin

text \<open>
  The loop of the actor as a step relation: which events can happen, the states they lead to, and
  what holds in all of them.
\<close>

section \<open>Steps\<close>

fun action_ok :: "'ts PeerAction \<Rightarrow> bool" where
  "action_ok (SendData payload) \<longleftrightarrow> length payload < AEAD_P_MAX"
| "action_ok (Update u) \<longleftrightarrow> update_ok u"
| "action_ok _ \<longleftrightarrow> True"

text \<open>A batch of actions is never empty; a timer fires when it is set and its time has come.\<close>

fun enabled :: "'ts env \<Rightarrow> 'ts PeerActor \<Rightarrow> 'ts event \<Rightarrow> bool" where
  "enabled E a (Actions actions) \<longleftrightarrow> actions \<noteq> [] \<and> list_all action_ok actions"
| "enabled E a event \<longleftrightarrow> is_some_and (timer_at a event) (\<lambda>t. t \<le> clock E a)"

abbreviation reaches ::
  "crypto \<Rightarrow> ('ts::linorder) tai \<Rightarrow> 'ts env \<Rightarrow> 'ts PeerActor \<Rightarrow> 'ts PeerActor \<Rightarrow> bool" where
  "reaches C T E \<equiv> reach (iteration C T E) (enabled E)"

section \<open>Every event is handled\<close>

lemma actor_ok_reading: "env_ok E \<Longrightarrow> actor_ok E a \<Longrightarrow> actor_ok E (reading a)"
  by (rule actor_ok_frame [of E a]) (simp_all add: reading_def)

lemma handle_cookie_ok:
  assumes C: "crypto_ok C" and E: "env_ok E" and a: "actor_ok E a"
  shows "\<exists>r m. cookie_reply C (pa_machine a) reply ts = Some (r, m) \<and>
    actor_ok E (a\<lparr>pa_tick := pa_tick a + 1, pa_machine := m\<rparr>)"
proof -
  have "Peer_ok (pa_machine a)" using a by (simp add: actor_ok_def)
  from cookie_reply_total [OF C this, of reply ts]
  obtain r m where m: "cookie_reply C (pa_machine a) reply ts = Some (r, m)" "Peer_ok m"
      "indices m = indices (pa_machine a)" "p_pending m = p_pending (pa_machine a)"
    by blast
  have "actor_ok E (a\<lparr>pa_tick := pa_tick a + 1, pa_machine := m\<rparr>)"
    by (rule actor_ok_step [OF E a, where old = None and new = "{#}" and cs = "[]"])
      (use m cookie_reply_keeps [OF m(1)] a est_past [OF a] in
        \<open>auto simp: control_for_def actor_ok_def handshake_ok_def session_ok_def\<close>)
  then show ?thesis using m by blast
qed

lemma handle_message_ok:
  assumes C: "crypto_ok C" and T: "tai_ok T" and E: "env_ok E" and a: "actor_ok E a" and action: "action_ok action"
  shows "\<exists>b. handle_message C T E a action = Some b \<and> actor_ok E b"
proof -
  have read: "read_env (env_now E) a = (clock E a, reading a)" by (simp add: read_env_eq clock_def reading_def)
  note r = actor_ok_reading [OF E a]
  show ?thesis
  proof (cases action)
    case (SendData payload)
    then show ?thesis using read flush_sends_ok [OF C T E r, of "[payload]"] action by (auto simp: handle_message_def)
  next
    case (RecvCookieReply reply)
    obtain x m where "cookie_reply C (pa_machine a) reply (env_tai E (pa_tick (reading a))) = Some (x, m)"
      "actor_ok E ((reading a)\<lparr>pa_tick := pa_tick (reading a) + 1, pa_machine := m\<rparr>)"
      using handle_cookie_ok [OF C E r] by fastforce
    then show ?thesis using RecvCookieReply read by (simp add: handle_message_def read_env_def)
  qed (use read action in \<open>auto simp: handle_message_def intro: apply_endpoint_ok [OF C T E r] apply_update_ok [OF C T E r]
      recv_data_action_ok [OF C T E a] recv_init_action_ok [OF C E a] recv_resp_action_ok [OF C T E a]\<close>)
qed

lemma process_actions_ok:
  assumes C: "crypto_ok C" and T: "tai_ok T" and E: "env_ok E"
  shows "actor_ok E a \<Longrightarrow> list_all action_ok actions \<Longrightarrow> \<forall>p \<in> set payloads. length p < AEAD_P_MAX \<Longrightarrow>
    \<exists>b. process_actions C T E a actions payloads = Some b \<and> actor_ok E b"
proof (induction actions arbitrary: a payloads)
  case Nil
  then show ?case using flush_sends_ok [OF C T E] by fastforce
next
  case (Cons action actions)
  show ?case
  proof (cases "\<exists>payload. action = SendData payload")
    case True
    then show ?thesis using Cons.IH [of a "payloads @ [_]"] Cons.prems by auto
  next
    case False
    obtain b where b: "flush_sends C T E a payloads = Some b" "actor_ok E b"
      using flush_sends_ok [OF C T E Cons.prems(1,3)] by blast
    obtain c where "handle_message C T E b action = Some c" "actor_ok E c"
      using handle_message_ok [OF C T E b(2)] Cons.prems(2) by auto
    then show ?thesis using b(1) Cons.IH [of c "[]"] Cons.prems(2) False by (cases action) auto
  qed
qed

lemma handshake_due_ok:
  assumes C: "crypto_ok C" and T: "tai_ok T" and E: "env_ok E" and a: "actor_ok E a"
  shows "\<exists>b. handshake_due C T E a = Some b \<and> actor_ok E b"
proof (cases "pa_handshake a")
  case None
  then show ?thesis using a by (simp add: handshake_due_def)
next
  case (Some h)
  have f: "ha_first_sent h \<le> clock E (reading a)"
    using a Some past_mono [OF E, of _ "pa_tick a" "pa_tick a + 1"] by (simp add: actor_inv reading_def)
  let ?m = "pa_machine a"
  have est: "est (?m\<lparr>p_pending := None\<rparr>) = est ?m" by (simp add: est_def fun_eq_iff all_slots)
  let ?b = "retire_index ((reading a)\<lparr>pa_handshake := None, pa_staged := [], pa_machine := ?m\<lparr>p_pending := None\<rparr>\<rparr>)
    (map_option ph_our_index (p_pending ?m))"
  have "actor_ok E (?b\<lparr>pa_staged := pa_staged a\<rparr>)"
  proof (rule actor_ok_step [OF E a, where old = "map_option ph_our_index (p_pending ?m)" and new = "{#}" and
      cs = "retire_msgs (p_peer_key ?m) (map_option ph_our_index (p_pending ?m))"])
    show "indices (pa_machine (?b\<lparr>pa_staged := pa_staged a\<rparr>)) + opt_mset (map_option ph_our_index (p_pending ?m)) =
        indices (pa_machine a) + {#}"
      by (cases "p_pending ?m") (simp_all add: retire_index_eq indices_def)
  qed (use a est est_past [OF a] in \<open>auto simp: retire_index_eq reading_def actor_ok_def session_ok_def peer_inv\<close>)
  then have "actor_ok E ?b" by (simp add: actor_inv retire_index_eq)
  then show ?thesis using Some send_handshake_ok [OF C T E actor_ok_reading [OF E a] f]
    by (auto simp: handshake_due_def read_env_eq reading_def abandon_handshake_def Let_def)
qed

lemma new_handshake_due_ok:
  assumes C: "crypto_ok C" and T: "tai_ok T" and E: "env_ok E" and a: "actor_ok E a"
  shows "\<exists>b. new_handshake_due C T E a = Some b \<and> actor_ok E b"
proof -
  have "actor_ok E (a\<lparr>pa_session := map_option (\<lambda>s. s\<lparr>as_new_handshake_at := None\<rparr>) (pa_session a)\<rparr>)"
    using a by (auto simp: actor_inv)
  then show ?thesis using ensure_handshake_ok [OF C T E] by (auto simp: new_handshake_due_def)
qed

lemma persistent_keepalive_due_ok:
  assumes C: "crypto_ok C" and T: "tai_ok T" and E: "env_ok E" and a: "actor_ok E a"
  shows "\<exists>b. persistent_keepalive_due C T E a = Some b \<and> actor_ok E b"
proof -
  let ?a = "(reading a)\<lparr>pa_last_send := clock E a\<rparr>"
  have "actor_ok E ?a" by (rule actor_ok_frame [OF E a]) (simp_all add: reading_def)
  then show ?thesis using send_keepalive_ok [OF C T E] ensure_handshake_ok [OF C T E]
    by (fastforce simp: persistent_keepalive_due_def read_env_eq clock_def reading_def Let_def)
qed

lemma timers_fit:
  assumes E: "env_ok E" and a: "actor_ok E a"
  shows "fits E (timer_at a event)"
proof (cases event)
  case ExpiryTimer
  have "fits E (Some (expires_at s))" if "pa_session a = Some s" for s
    using a that fits_add [OF E, of "as_established s" "pa_tick a" REJECT_AFTER_TIME]
    by (simp add: expires_at_def actor_inv KEEPALIVE_MAX_def time_consts)
  then show ?thesis using ExpiryTimer by (cases "pa_session a") auto
next
  case PersistentTimer
  have "fits E (Some (instant_add (pa_last_send a) i))" if "pa_persistent_keepalive a = Some i" for i
    using a that fits_add [OF E, of "pa_last_send a" "pa_tick a" i] by (simp add: actor_ok_def keepalive_ok_def clock_def)
  then show ?thesis using PersistentTimer by (auto simp: persistent_keepalive_at_def split: option.split)
qed (use a in \<open>cases "pa_handshake a"; cases "pa_session a"; simp add: actor_inv\<close>)+

lemma iteration_eq:
  assumes E: "env_ok E" and a: "actor_ok E a"
  shows "iteration C T E a event = (case event of
       Actions actions \<Rightarrow> process_actions C T E a actions []
     | HandshakeTimer \<Rightarrow> handshake_due C T E a
     | ExpiryTimer \<Rightarrow> Some (session_expired a)
     | KeepaliveTimer \<Rightarrow> send_keepalive C T E a
     | NewHandshakeTimer \<Rightarrow> new_handshake_due C T E a
     | PersistentTimer \<Rightarrow> persistent_keepalive_due C T E a)"
proof -
  have "Clock_sleep_until E (timer_at a ev) = Some ()" for ev
    using timers_fit [OF E a, of ev] by (simp add: Clock_sleep_until_def fits_def)
  then show ?thesis by (simp add: iteration_def del: timer_at.simps)
qed

lemma iteration_ok:
  assumes C: "crypto_ok C" and T: "tai_ok T" and E: "env_ok E" and a: "actor_ok E a" and ev: "enabled E a event"
  shows "\<exists>b. iteration C T E a event = Some b \<and> actor_ok E b"
proof -
  note eq = iteration_eq [OF E a, of C T event]
  show ?thesis
  proof (cases event)
    case (Actions actions)
    then show ?thesis using eq ev process_actions_ok [OF C T E a] by simp
  next
    case ExpiryTimer
    then show ?thesis using eq actor_ok_no_session [OF a] by (simp add: session_expired_def)
  qed (use eq handshake_due_ok [OF C T E a] send_keepalive_ok [OF C T E a] new_handshake_due_ok [OF C T E a]
      persistent_keepalive_due_ok [OF C T E a] in simp_all)
qed

lemma spawn_ok:
  assumes "crypto_ok C" and "\<forall>i. pc_persistent_keepalive config = Some i \<longrightarrow> i \<le> KEEPALIVE_MAX"
  shows "actor_ok E (spawn C our_key public_key config status)"
  using assms(2) Peer_ok_new [OF assms(1)]
  by (auto simp: actor_inv spawn_def set_preshared_key_def Peer_new_def peer_inv est_def control_for_def
      Instant_default_def less_eq_Instant_def)

interpretation actors: guarded "iteration C T E" "enabled E" "\<lambda>a. crypto_ok C \<and> tai_ok T \<and> env_ok E \<and> actor_ok E a"
  by unfold_locales (use iteration_ok in fastforce)

section \<open>Expiry and retries\<close>

text \<open>Once the actor's expiry timer is due, the session it watched is one the peer refuses.\<close>

lemma expired_capacity:
  assumes E: "env_ok E" and a: "actor_ok E a" and s: "pa_session a = Some s" and due: "expires_at s \<le> now"
  obtains c where "p_current (pa_machine a) = Some c" "Session_expired c now" "p_endpoint (pa_machine a) \<noteq> None"
proof -
  obtain t where t: "est (pa_machine a) Current = Some t" "t \<le> as_established s" and past: "as_established s \<le> clock E a"
    using a s by (auto simp: actor_ok_def session_ok_def)
  obtain c where c: "p_current (pa_machine a) = Some c" "s_established c = t" using t(1) by (auto simp: est_simps)
  have "since_epoch (as_established s) + REJECT_AFTER_TIME \<le> DURATION_MAX"
    using E past by (auto simp: env_ok_def clock_def less_eq_Instant_def KEEPALIVE_MAX_def time_consts
        dest!: spec [of _ "pa_tick a"] elim: order_trans [rotated])
  then have "REJECT_AFTER_TIME \<le> duration_since now (as_established s)"
    using due deadline_iff_elapsed [of "as_established s" REJECT_AFTER_TIME now] by (simp add: expires_at_def time_consts)
  then have "Session_expired c now" using t(2) c(2)
    by (simp add: Session_expired_def duration_since_def saturating_sub_def less_eq_Instant_def)
  moreover have "p_endpoint (pa_machine a) \<noteq> None" using a c(1) by (auto simp: actor_ok_def peer_inv)
  ultimately show thesis using that c(1) by blast
qed

lemma output_handshake [simp]:
  "pa_handshake (retire_index a i) = pa_handshake a" "pa_handshake (bind_index a j) = pa_handshake a"
  "pa_handshake (count_sent E a n) = pa_handshake a"
  by (simp_all add: retire_index_eq bind_index_def count_sent_def read_env_eq update_status_def)

lemma send_handshake_attempt:
  assumes E: "env_ok E" and e: "p_endpoint (pa_machine a) \<noteq> None" and "send_handshake C T E a first_sent = Some b"
  shows "\<exists>jitter < REKEY_TIMEOUT_JITTER_MAX. pa_handshake b =
    Some \<lparr>ha_first_sent = first_sent, ha_retry_at = instant_add (instant_add (clock E a) REKEY_TIMEOUT) jitter\<rparr>"
proof -
  have "pa_handshake b = Some \<lparr>ha_first_sent = first_sent, ha_retry_at =
      instant_add (instant_add (clock E a) REKEY_TIMEOUT)
        (from_millis (env_random_range E (pa_tick a + 1) (REKEY_TIMEOUT_JITTER_MAX div 1000000)))\<rparr>"
    using assms(2,3)
    by (auto simp: send_handshake_def read_env_eq HandshakeAttempt_new_def rekey_jitter_def fresh_values_def socket_send_def
        clock_def Let_def split: bind_splits sum.splits if_splits)
  then show ?thesis using jitter_bound [OF E] by blast
qed

text \<open>A session just established has its whole message budget.\<close>

lemma handshake_response_capacity:
  assumes C: "crypto_ok C" and r: "handshake_response C p our_key now packet source = Some (Inr old, p', b)"
    and fresh: "duration_since later now < REJECT_AFTER_TIME"
  shows "capacity p' later = unat REJECT_AFTER_MESSAGES"
proof -
  obtain ie t where t: "finish_initiator C ie = Some t" "p_current p' = Some (Session_new t now)" "p_endpoint p' = Some source"
    using r by (auto simp: handshake_response_def adopt_current_def Let_def split: option.splits bind_splits sum.splits)
  have "t_send_counter t = 0" using finish_total(2) [OF C, of ie] t(1) by auto
  then show ?thesis using t(2,3) fresh
    by (simp add: capacity_def Session_expired_def Session_new_def del: window_consts)
qed

section \<open>Reachable actors\<close>

text \<open>The states of an actor that was spawned with a keepalive interval the clock has room for.\<close>

definition reachable :: "crypto \<Rightarrow> ('ts::linorder) tai \<Rightarrow> 'ts env \<Rightarrow> 'ts PeerActor \<Rightarrow> bool" where
  "reachable C T E a \<longleftrightarrow> (\<exists>our_key public_key config status.
     (\<forall>i. pc_persistent_keepalive config = Some i \<longrightarrow> i \<le> KEEPALIVE_MAX) \<and>
     reaches C T E (spawn C our_key public_key config status) a)"

lemma reachable_ok:
  assumes "crypto_ok C" and "tai_ok T" and "env_ok E" and "reachable C T E a"
  shows "actor_ok E a"
  using assms spawn_ok actors.reach_ok [of C T E _ a] unfolding reachable_def by blast

text \<open>An environment and an actor for examples: time stands still and every send succeeds.\<close>

definition ex_env :: "u64 env" where
  "ex_env = \<lparr>env_now = (\<lambda>_. Instant 1), env_index = of_nat, env_secret = (\<lambda>_. ex_key 3), env_tai = of_nat,
     env_random_range = (\<lambda>_ _. 0), env_system_time = id, env_socket_send = (\<lambda>_. True),
     env_max_gso_segments = (\<lambda>_. 64), env_inbound_room = (\<lambda>_. True), env_clock_max = DURATION_MAX\<rparr>"

definition ex_config :: PeerConfig where
  "ex_config = \<lparr>pc_endpoint = None, pc_preshared_key = None, pc_persistent_keepalive = Some (from_secs 25)\<rparr>"

definition ex_actor :: "u64 PeerActor" where
  "ex_actor = spawn ex_crypto (ex_key 1) (x25519_public ex_crypto (ex_key 2)) ex_config (status_new [])"

lemma ex_env_ok [simp]: "env_ok ex_env"
  by (simp add: env_ok_def ex_env_def KEEPALIVE_MAX_def DURATION_MAX_def from_secs_def)

lemma ex_actor_reachable [simp]: "reachable ex_crypto ex_tai ex_env ex_actor"
  unfolding reachable_def ex_actor_def
  by (intro exI [of _ "ex_key 1"] exI [of _ "x25519_public ex_crypto (ex_key 2)"] exI [of _ ex_config] exI [of _ "status_new []"])
    (auto simp: ex_config_def KEEPALIVE_MAX_def from_secs_def intro: reach.start)

section \<open>Properties\<close>



text \<open>
  C20: the routing updates account for the receiver indices. Whatever an actor has done, the
  indices it has asked the read loop to bind are those it has asked to retire and those its
  peer still holds, each once: no index leaks and none is retired while in use. All updates are in the
  name of its own peer.
\<close>

theorem actor_accounts_for_indices:
  assumes "crypto_ok C" and "tai_ok T" and "env_ok E" and "reachable C T E a"
  shows "bound (pa_control a) = retired (pa_control a) + indices (pa_machine a) \<and>
    (\<forall>c \<in> set (pa_control a). \<exists>i. c = Bind (p_peer_key (pa_machine a)) i \<or> c = Retire (p_peer_key (pa_machine a)) i)"
  using reachable_ok [OF assms] by (simp add: actor_ok_def balanced_def control_for_def)

theorem actor_accounts_for_indices_witness:
  "bound (pa_control ex_actor) = retired (pa_control ex_actor) + indices (pa_machine ex_actor)"
  using actor_accounts_for_indices [of ex_crypto ex_tai ex_env ex_actor] by simp

text \<open>
  C22: payloads are sent or kept. Of the payloads an actor flushes, as many as the session can
  still encrypt go out, in order, as the session's next packets; a failing socket only loses packets. If the
  session cannot take all, the others join the queue, which keeps the most recent ones, and
  a handshake is under way as soon as there is an endpoint.
\<close>

theorem actor_sends_or_stages:
  assumes "crypto_ok C" and "tai_ok T" and "env_ok E" and "reachable C T E a"
    and "\<forall>p \<in> set payloads. length p < AEAD_P_MAX" and "k = min (length payloads) (capacity (pa_machine a) (clock E a))"
  shows "\<exists>b W H. flush_sends C T E a payloads = Some b \<and> pa_wire b = pa_wire a @ W @ H \<and> length H \<le> 1 \<and>
    subseq (concat (map datagrams W)) (outgoing C (pa_machine a) (take k payloads)) \<and>
    ((\<forall>i. env_socket_send E i) \<longrightarrow> concat (map datagrams W) = outgoing C (pa_machine a) (take k payloads)) \<and>
    (if k = length payloads then pa_staged b = pa_staged a
     else pa_staged b = last_n MAX_STAGED_PACKETS (pa_staged a @ drop k payloads) \<and>
       (p_endpoint (pa_machine a) \<noteq> None \<longrightarrow> pa_handshake b \<noteq> None))"
proof -
  obtain b where b: "flush_sends C T E a payloads = Some b" "flushed C E a payloads b"
    using flush_sends_ok [OF assms(1-3) reachable_ok [OF assms(1-4)] assms(5)] by blast
  note fl = b(2) [unfolded flushed_def Let_def assms(6) [symmetric]]
  from fl obtain W H where W: "pa_wire b = pa_wire a @ W @ H" "length H \<le> 1"
      "sent_ok C E (env_max_gso_segments E (pa_tick a + 1)) (pa_machine a) (take k payloads) W" by blast
  have "k < length payloads \<longleftrightarrow> k \<noteq> length payloads" using assms(6) by auto
  with fl have "if k = length payloads then pa_staged b = pa_staged a
     else pa_staged b = last_n MAX_STAGED_PACKETS (pa_staged a @ drop k payloads) \<and>
       (p_endpoint (pa_machine a) \<noteq> None \<longrightarrow> pa_handshake b \<noteq> None)" by presburger
  with W show ?thesis unfolding b(1) sent_ok_def by blast
qed

theorem actor_sends_or_stages_witness:
  "\<exists>b W H. flush_sends ex_crypto ex_tai ex_env ex_actor [[1], [2, 3]] = Some b \<and> pa_wire b = W @ H \<and>
    length H \<le> 1 \<and> pa_staged b = [[1], [2, 3]]"
proof -
  have "capacity (pa_machine ex_actor) (clock ex_env ex_actor) = 0" "pa_staged ex_actor = []" "pa_wire ex_actor = []"
    by (simp_all add: capacity_def ex_actor_def spawn_def set_preshared_key_def Peer_new_def)
  then show ?thesis
    using actor_sends_or_stages [of ex_crypto ex_tai ex_env ex_actor "[[1], [2, 3]]" 0]
    by (simp add: AEAD_P_MAX_def last_n_def MAX_STAGED_PACKETS_def) blast
qed



text \<open>
  C34: the expiry timer never drops a session that could still send. When it is due (in a
  state that satisfies the invariant, as all reachable ones do), the peer itself already refuses to encrypt with the
  session, whatever the payload.
\<close>

theorem expiry_timer_is_late:
  assumes "env_ok E" and "actor_ok E a" and "enabled E a ExpiryTimer" and "clock E a \<le> now"
  shows "iteration C T E a ExpiryTimer = Some (a\<lparr>pa_session := None\<rparr>) \<and>
    encrypt C (pa_machine a) now payload out = Some (Inl PeExpired, pa_machine a, out)"
proof -
  obtain s where s: "pa_session a = Some s" "expires_at s \<le> clock E a"
    using assms(3) by (cases "pa_session a") (auto simp: is_some_and_iff)
  have "expires_at s \<le> now" using s(2) assms(4) by (rule order_trans)
  then obtain c where "p_current (pa_machine a) = Some c" "Session_expired c now" "p_endpoint (pa_machine a) \<noteq> None"
    by (rule expired_capacity [OF assms(1,2) s(1)])
  moreover have "Clock_sleep_until E (timer_at a ev) = Some ()" for ev
    using timers_fit [OF assms(1,2), of ev] by (simp add: Clock_sleep_until_def fits_def)
  ultimately show ?thesis by (simp add: encrypt_def iteration_def session_expired_def del: timer_at.simps)
qed

definition ex_late :: "u64 env" where
  "ex_late = ex_env\<lparr>env_now := (\<lambda>_. Instant 180000000000)\<rparr>"

definition ex_session_actor :: "u64 PeerActor" where
  "ex_session_actor = ex_actor\<lparr>pa_machine := ex_old_peer, pa_session := Some (ActorSession_new False (Instant 0)),
     pa_control := [Bind (ex_key 2) 7]\<rparr>"

lemma ex_old_peer_ok:
  "Peer_ok ex_old_peer" "indices ex_old_peer = {#7#}" "p_pending ex_old_peer = None" "p_peer_key ex_old_peer = ex_key 2"
  "est ex_old_peer sl = Some t \<Longrightarrow> t = Instant 0" "est ex_old_peer Current = Some (Instant 0)"
  by (cases sl; auto simp: ex_old_peer_def Peer_new_def peer_inv est_def Generator_ok_new Session_ok_new Transport_new_def
      Transport_ok_def Session_new_def Session_our_index_def Session_ok_def)+

theorem expiry_timer_is_late_witness:
  "iteration ex_crypto ex_tai ex_late ex_session_actor ExpiryTimer = Some (ex_session_actor\<lparr>pa_session := None\<rparr>) \<and>
    encrypt ex_crypto (pa_machine ex_session_actor) (Instant 180000000000) [1] (replicate 40 0) =
      Some (Inl PeExpired, pa_machine ex_session_actor, replicate 40 0)"
proof (rule expiry_timer_is_late)
  show "env_ok ex_late"
    by (simp add: env_ok_def ex_late_def ex_env_def KEEPALIVE_MAX_def DURATION_MAX_def from_secs_def)
  show "actor_ok ex_late ex_session_actor"
  proof -
    have [simp]: "pa_machine ex_session_actor = ex_old_peer" "pa_session ex_session_actor = Some (ActorSession_new False (Instant 0))"
      "pa_control ex_session_actor = [Bind (ex_key 2) 7]" "pa_staged ex_session_actor = []" "pa_handshake ex_session_actor = None"
      "pa_persistent_keepalive ex_session_actor = Some (from_secs 25)" "pa_last_send ex_session_actor = Instant 0"
      by (simp_all add: ex_session_actor_def ex_actor_def spawn_def ex_config_def Instant_default_def)
    have [simp]: "clock ex_late ex_session_actor = Instant 180000000000" by (simp add: clock_def ex_late_def)
    have "t \<le> Instant 180000000000" if "est ex_old_peer sl = Some t" for sl t using ex_old_peer_ok(5) [OF that] by simp
    then have "session_ok ex_late ex_session_actor" by (simp add: session_ok_def ActorSession_new_def ex_old_peer_ok(6))
    moreover have "balanced ex_session_actor" "staged_ok ex_session_actor" "handshake_ok ex_late ex_session_actor"
      "keepalive_ok ex_late ex_session_actor"
      by (simp_all add: balanced_def control_for_def ex_old_peer_ok(2-4) staged_ok_def handshake_ok_def keepalive_ok_def
          KEEPALIVE_MAX_def from_secs_def)
    ultimately show ?thesis by (simp add: actor_ok_def ex_old_peer_ok(1))
  qed
qed (simp_all add: ex_session_actor_def ex_actor_def spawn_def ActorSession_new_def expires_at_def ex_late_def clock_def
    less_eq_Instant_def time_consts DURATION_MAX_def)


lemma ex_connected:
  "\<exists>a h. iteration ex_crypto ex_tai ex_env ex_actor (Actions [Connect ex_addr]) = Some a \<and>
     reachable ex_crypto ex_tai ex_env a \<and> pa_handshake a = Some h"
proof -
  note ok = reachable_ok [OF ex_crypto_ok ex_tai_ok ex_env_ok ex_actor_reachable]
  have it: "iteration ex_crypto ex_tai ex_env ex_actor (Actions [Connect ex_addr]) =
      apply_endpoint ex_crypto ex_tai ex_env (reading ex_actor) ex_addr"
    using timers_fit [OF ex_env_ok ok]
    by (simp add: iteration_def Clock_sleep_until_def fits_def flush_sends_def handle_message_def read_env_eq reading_def
        del: timer_at.simps)
  define b where "b = update_status ((reading ex_actor)\<lparr>pa_machine := set_endpoint (pa_machine ex_actor) ex_addr\<rparr>)
    (\<lambda>st. st\<lparr>st_endpoint := Some ex_addr\<rparr>)"
  have "actor_ok ex_env b"
    using actor_ok_reading [OF ex_env_ok ok]
    by (auto simp: b_def actor_inv update_status_def set_endpoint_def peer_inv est_def reading_def)
  then obtain a where a: "ensure_handshake ex_crypto ex_tai ex_env b = Some a" "handshaking b a"
    using ensure_handshake_ok [OF ex_crypto_ok ex_tai_ok ex_env_ok] by blast
  then have "pa_handshake a \<noteq> None" by (simp add: handshaking_def b_def update_status_def set_endpoint_def)
  moreover have run: "iteration ex_crypto ex_tai ex_env ex_actor (Actions [Connect ex_addr]) = Some a"
    using it a(1) by (simp add: apply_endpoint_def b_def Let_def)
  moreover have "reachable ex_crypto ex_tai ex_env a"
    using ex_actor_reachable run unfolding reachable_def
    by (metis (no_types, lifting) action_ok.simps(3) enabled.simps(1) list.pred_inject list.distinct(1) reach.step)
  ultimately show ?thesis by blast
qed


text \<open>
  C21: waiting payloads go out when the handshake completes. If a response completes the
  handshake of an actor with waiting payloads, and the socket takes what it is given, handling it
  puts every one of them on the wire, in order, as the first packets of the new session; nothing is left in the queue
  and the session is announced as ready.
\<close>

theorem staged_payloads_flushed:
  assumes "crypto_ok C" and "tai_ok T" and "env_ok E" and "actor_ok E a" and "pa_staged a \<noteq> []"
    and "handshake_response C (pa_machine a) (pa_our_key a) (clock E a) resp source = Some (Inr old, m, p)"
    and "duration_since (env_now E (pa_tick a + 3)) (clock E a) < REJECT_AFTER_TIME" and "\<forall>i. env_socket_send E i"
  shows "\<exists>b W H. handle_message C T E a (RecvHandshakeResp resp source) = Some b \<and> pa_staged b = [] \<and> pa_session_tx b \<and>
    pa_wire b = pa_wire a @ W @ H \<and> length H \<le> 1 \<and> concat (map datagrams W) = outgoing C m (pa_staged a)"
proof -
  obtain b where b: "recv_resp_action C T E (reading a) (clock E a) resp source = session_established C T E b True"
      "actor_ok E b" "pa_machine b = m" "pa_staged b = pa_staged a" "pa_wire b = pa_wire a" "pa_tick b = pa_tick a + 3"
    using recv_resp_established [OF assms(1,3,4,6)] by blast
  let ?b = "b\<lparr>pa_staged := []\<rparr>" and ?ps = "pa_staged a"
  have "actor_ok E ?b" using b(2) by (simp add: actor_inv)
  moreover have staged: "\<forall>p \<in> set ?ps. length p < AEAD_P_MAX" "length ?ps \<le> MAX_STAGED_PACKETS"
    using assms(4) by (simp_all add: actor_ok_def staged_ok_def)
  ultimately obtain c where c: "flush_sends C T E ?b ?ps = Some c" "flushed C E ?b ?ps c"
    using flush_sends_ok [OF assms(1-3)] by blast
  have "capacity m (clock E ?b) = unat REJECT_AFTER_MESSAGES"
    using handshake_response_capacity [OF assms(1,6,7)] b(6) by (simp add: clock_def)
  then have all: "min (length ?ps) (capacity (pa_machine ?b) (clock E ?b)) = length ?ps"
    using staged(2) b(3) by (simp add: MAX_STAGED_PACKETS_def)
  obtain W H where W: "pa_wire c = pa_wire a @ W @ H" "length H \<le> 1" "concat (map datagrams W) = outgoing C m ?ps"
      and "pa_staged c = []"
    using c(2) assms(8) b(3,5) unfolding flushed_def Let_def all sent_ok_def by auto
  moreover have "handle_message C T E a (RecvHandshakeResp resp source) = Some (c\<lparr>pa_session_tx := True\<rparr>)"
    using b(1,4) c(1) assms(5)
    by (simp add: handle_message_def read_env_eq clock_def reading_def session_established_def flush_staged_def)
  ultimately show ?thesis by (intro exI [of _ "c\<lparr>pa_session_tx := True\<rparr>"] exI [of _ W] exI [of _ H]) simp
qed

lemma ex_waiting:
  obtains a resp old m p where "actor_ok ex_env (a :: u64 PeerActor)" "pa_staged a = [[1]]"
    "handshake_response ex_crypto (pa_machine a) (pa_our_key a) (Instant 1) resp ex_addr = Some (Inr old, m, p)"
proof -
  let ?A = "set_endpoint (Peer_new ex_crypto (x25519_public ex_crypto (ex_key 2))) ex_addr :: u64 Peer"
  let ?B = "Peer_new ex_crypto (x25519_public ex_crypto (ex_key 1)) :: u64 Peer"
  have A: "Peer_ok ?A" "indices ?A = {#}" "p_pending ?A = None" "p_endpoint ?A = Some ex_addr" "\<And>sl. est ?A sl = None"
    using Peer_ok_new [OF ex_crypto_ok, of "x25519_public ex_crypto (ex_key 2)", where 'a = u64]
    by (auto simp: set_endpoint_def Peer_new_def peer_inv est_def intro: slot.induct)
  have "\<exists>old1 A1 msg m2 old3 A2 p2.
      Peer_initiate ex_crypto ex_tai ?A (ex_key 1) (ex_values 11 4 99) (replicate 148 0) = Some (Inr old1, A1, msg) \<and>
      handshake_response ex_crypto A1 (ex_key 1) (Instant 1) m2 ex_addr = Some (Inr old3, A2, p2)"
    by (rule peers_handshake [OF ex_crypto_ok ex_tai_ok A(1) Peer_ok_new [OF ex_crypto_ok], of "ex_key 2"
        "x25519_public ex_crypto (ex_key 1)" "replicate 148 0" "replicate 92 0" "ex_values 11 4 99" "ex_key 1"
        "ex_values 22 8 100" "Instant 0" ex_addr ex_addr])
      (simp_all add: set_endpoint_def Peer_new_def ex_values_def del: drop_replicate, blast)
  then obtain old1 A1 msg m2 old3 A2 p2 where
    i: "Peer_initiate ex_crypto ex_tai ?A (ex_key 1) (ex_values 11 4 99) (replicate 148 0) = Some (Inr old1, A1, msg)"
    and resp: "handshake_response ex_crypto A1 (ex_key 1) (Instant 1) m2 ex_addr = Some (Inr old3, A2, p2)" by blast
  have "old1 = None" using i A(3) by (auto simp: Peer_initiate_def Let_def split: if_splits bind_splits sum.splits)
  then have A1: "Peer_ok A1" "indices A1 = {#11#}"
    using Peer_initiate_total [OF ex_crypto_ok ex_tai_ok A(1), of "ex_key 1" "ex_values 11 4 99" "replicate 148 0"] i A(2)
    by (simp_all add: ex_values_def)
  note k = Peer_initiate_keeps [OF i]
  define a where "a = ex_actor\<lparr>pa_machine := A1, pa_handshake := Some \<lparr>ha_first_sent = Instant 1, ha_retry_at = Instant 2\<rparr>,
    pa_control := [Bind (p_peer_key A1) 11], pa_staged := [[1]]\<rparr>"
  have "pa_our_key a = ex_key 1" "pa_machine a = A1" "pa_staged a = [[1]]" by (simp_all add: a_def ex_actor_def spawn_def)
  moreover have "actor_ok ex_env a"
    using A1 k A by (simp add: actor_inv a_def ex_actor_def spawn_def control_for_def ex_env_def ex_config_def fits_def
        Instant_default_def KEEPALIVE_MAX_def from_secs_def MAX_STAGED_PACKETS_def AEAD_P_MAX_def DURATION_MAX_def)
  ultimately show thesis using that resp by simp
qed

theorem staged_payloads_flushed_witness:
  "\<exists>a resp old m p b W. pa_staged a = [[1]] \<and>
    handshake_response ex_crypto (pa_machine a) (pa_our_key a) (Instant 1) resp ex_addr = Some (Inr old, m, p) \<and>
    handle_message ex_crypto ex_tai ex_env a (RecvHandshakeResp resp ex_addr) = Some b \<and> pa_staged b = [] \<and>
    concat (map datagrams W) = outgoing ex_crypto m [[1]]"
proof -
  obtain a resp old m p where a: "actor_ok ex_env (a :: u64 PeerActor)" "pa_staged a = [[1]]"
    "handshake_response ex_crypto (pa_machine a) (pa_our_key a) (Instant 1) resp ex_addr = Some (Inr old, m, p)"
    by (rule ex_waiting)
  have now: "clock ex_env a = Instant 1" "env_now ex_env k = Instant 1" "env_socket_send ex_env k" for k
    by (simp_all add: clock_def ex_env_def)
  have "\<exists>b W H. handle_message ex_crypto ex_tai ex_env a (RecvHandshakeResp resp ex_addr) = Some b \<and> pa_staged b = [] \<and>
      pa_session_tx b \<and> pa_wire b = pa_wire a @ W @ H \<and> length H \<le> 1 \<and>
      concat (map datagrams W) = outgoing ex_crypto m (pa_staged a)"
    by (rule staged_payloads_flushed [OF ex_crypto_ok ex_tai_ok ex_env_ok a(1)]) (use a now in \<open>simp_all add: time_consts\<close>)
  then show ?thesis using a(3) unfolding a(2) by (metis a(2))
qed

text \<open>
  C40: a keepalive interval the clock has no room for stops the actor. The loop computes the
  deadline of the persistent keepalive before it waits, with an addition that panics on
  overflow: with an endpoint and such an interval, the next iteration does not return.
\<close>

theorem keepalive_interval_overflow:
  assumes "pa_persistent_keepalive a = Some interval" and "p_endpoint (pa_machine a) \<noteq> None"
    and "env_clock_max E < since_epoch (instant_add (pa_last_send a) interval)"
  shows "iteration C T E a event = None"
proof -
  have "Clock_sleep_until E (timer_at a PersistentTimer) = None"
    using assms by (simp add: persistent_keepalive_at_def Clock_sleep_until_def not_le)
  then show ?thesis by (simp add: iteration_def del: timer_at.simps split: bind_split)
qed

theorem keepalive_interval_overflow_witness:
  "iteration ex_crypto ex_tai (ex_env\<lparr>env_clock_max := 2 ^ 63 * 1000000000\<rparr>)
     (ex_session_actor\<lparr>pa_persistent_keepalive := Some DURATION_MAX\<rparr>) (Actions [SendData [1]]) = None"
  by (rule keepalive_interval_overflow [where interval = DURATION_MAX])
    (simp_all add: ex_session_actor_def ex_old_peer_def DURATION_MAX_def)

end
