(* ===== verification/Actor_Logs.thy ===== *)
theory Actor_Logs
  imports Actor "HOL-Library.Sublist"
begin

text \<open>
  What an actor has emitted stays emitted: every operation only appends to the logs of control
  messages, datagrams and packets. So the new part of a log is what one iteration of the loop hands
  to the rest of the tunnel.
\<close>

definition grows :: "'ts PeerActor \<Rightarrow> 'ts PeerActor \<Rightarrow> bool" where
  "grows a b \<longleftrightarrow> prefix (pa_control a) (pa_control b) \<and> prefix (pa_wire a) (pa_wire b) \<and>
     prefix (pa_inbound a) (pa_inbound b)"

lemma grows_refl [simp]: "grows a a"
  by (simp add: grows_def)

lemma grows_trans [trans]: "grows a b \<Longrightarrow> grows b c \<Longrightarrow> grows a c"
  unfolding grows_def by (meson prefix_order.trans)

lemma grows_same:
  "pa_control b = pa_control a \<Longrightarrow> pa_wire b = pa_wire a \<Longrightarrow> pa_inbound b = pa_inbound a \<Longrightarrow> grows a b"
  by (simp add: grows_def)

lemma grows_updates [simp]:
  "grows a (b\<lparr>pa_machine := m\<rparr>) = grows a b" "grows a (b\<lparr>pa_persistent_keepalive := k\<rparr>) = grows a b"
  "grows a (b\<lparr>pa_last_send := t\<rparr>) = grows a b" "grows a (b\<lparr>pa_handshake := h\<rparr>) = grows a b"
  "grows a (b\<lparr>pa_session := s\<rparr>) = grows a b" "grows a (b\<lparr>pa_session_tx := x\<rparr>) = grows a b"
  "grows a (b\<lparr>pa_staged := ps\<rparr>) = grows a b" "grows a (b\<lparr>pa_status := st\<rparr>) = grows a b"
  "grows a (b\<lparr>pa_tick := n\<rparr>) = grows a b"
  by (simp_all add: grows_def)

lemma grows_updates_left [simp]:
  "grows (b\<lparr>pa_machine := m\<rparr>) a = grows b a" "grows (b\<lparr>pa_persistent_keepalive := k\<rparr>) a = grows b a"
  "grows (b\<lparr>pa_last_send := t\<rparr>) a = grows b a" "grows (b\<lparr>pa_handshake := h\<rparr>) a = grows b a"
  "grows (b\<lparr>pa_session := s\<rparr>) a = grows b a" "grows (b\<lparr>pa_session_tx := x\<rparr>) a = grows b a"
  "grows (b\<lparr>pa_staged := ps\<rparr>) a = grows b a" "grows (b\<lparr>pa_status := st\<rparr>) a = grows b a"
  "grows (b\<lparr>pa_tick := n\<rparr>) a = grows b a"
  by (simp_all add: grows_def)

lemma grows_outputs [simp]:
  "grows a b \<Longrightarrow> grows a (snd (read_env f b))" "grows a b \<Longrightarrow> grows a (retire_index b i)"
  "grows a b \<Longrightarrow> grows a (bind_index b j)" "grows a b \<Longrightarrow> grows a (snd (socket_send E b ep p s))"
  "grows a b \<Longrightarrow> grows a (inbound_try_send E b pk)" "grows a b \<Longrightarrow> grows a (update_status b g)"
  by (auto simp: grows_def read_env_def retire_index_def bind_index_def socket_send_def inbound_try_send_def
      update_status_def prefix_append split: option.split)

lemma grows_jitter [simp]: "grows a b \<Longrightarrow> grows a (snd (rekey_jitter E b))"
  by (auto simp: rekey_jitter_def case_prod_unfold Let_def)

lemma grows_attempt [simp]: "grows a b \<Longrightarrow> grows a (snd (HandshakeAttempt_new E b t u))"
  by (auto simp: HandshakeAttempt_new_def case_prod_unfold Let_def)

lemma grows_values [simp]: "grows a b \<Longrightarrow> grows a (snd (fresh_values E b))"
  by (auto simp: fresh_values_def case_prod_unfold Let_def)

lemma grows_count [simp]: "grows a b \<Longrightarrow> grows a (count_sent E b n)"
  by (auto simp: count_sent_def case_prod_unfold Let_def)

lemma grows_stage [simp]: "grows a b \<Longrightarrow> grows a (stage b ps)"
proof -
  have "grows b (stage b ps)"
    unfolding stage_def
  proof (induction ps arbitrary: b)
    case (Cons p ps)
    show ?case using Cons.IH [of "stage_one b p"] by (simp add: stage_one_def Let_def split: if_splits)
  qed simp
  then show "grows a b \<Longrightarrow> grows a (stage b ps)" by (rule grows_trans [rotated])
qed

lemma grows_note [simp]: "grows a b \<Longrightarrow> grows a (snd (note_sent E b t))"
  by (auto simp: note_sent_def case_prod_unfold Let_def split: option.split)

lemma grows_from [dest!]:
  "grows (snd (read_env f b)) c \<Longrightarrow> grows b c" "grows (snd (socket_send E b ep p s)) c \<Longrightarrow> grows b c"
  "grows (count_sent E b n) c \<Longrightarrow> grows b c" "grows (retire_index b i) c \<Longrightarrow> grows b c"
  "grows (bind_index b j) c \<Longrightarrow> grows b c" "grows (snd (note_sent E b t)) c \<Longrightarrow> grows b c"
  "grows (inbound_try_send E b pk) c \<Longrightarrow> grows b c" "grows (update_status b g) c \<Longrightarrow> grows b c"
  "grows (stage b ps) c \<Longrightarrow> grows b c" "grows (snd (fresh_values E b)) c \<Longrightarrow> grows b c"
  by (erule grows_trans [rotated], simp)+

text \<open>An operation that can panic: what it returns has grown.\<close>

lemma grows_send_handshake: "send_handshake C T E a t = Some b \<Longrightarrow> grows a b"
  by (auto simp: send_handshake_def case_prod_unfold Let_def split: option.splits bind_splits sum.splits if_splits)

lemma grows_ensure_handshake: "ensure_handshake C T E a = Some b \<Longrightarrow> grows a b"
  by (auto simp: ensure_handshake_def read_env_def split: if_splits dest: grows_send_handshake intro: grows_trans [rotated])

lemma grows_apply_endpoint: "apply_endpoint C T E a ep = Some b \<Longrightarrow> grows a b"
  by (auto simp: apply_endpoint_def Let_def update_status_def dest: grows_ensure_handshake)

lemma grows_apply_update: "apply_update C T E a u = Some b \<Longrightarrow> grows a b"
  by (auto simp: apply_update_def Let_def split: Update.splits option.splits dest: grows_apply_endpoint)

lemma grows_flush_loop:
  "flush_loop C E now gso ps start sent any a = Some (start', sent', any', b) \<Longrightarrow> grows a b"
proof (induction C E now gso ps start sent any a rule: flush_loop.induct)
  case (1 C E now gso ps start sent any a)
  note step = flush_loop.simps [of C E now gso ps start sent any a]
  show ?case using 1(2) 
    by (auto simp: step Let_def case_prod_unfold split: if_splits bind_splits dest!: 1(1))
qed

lemma grows_flush_sends: "flush_sends C T E a ps = Some b \<Longrightarrow> grows a b"
  by (auto simp: flush_sends_def Let_def case_prod_unfold split: if_splits bind_splits
      dest!: grows_flush_loop grows_ensure_handshake grows_send_handshake dest: grows_trans)

lemma grows_flush_staged: "flush_staged C T E a = Some b \<Longrightarrow> grows a b"
  by (auto simp: flush_staged_def split: if_splits dest!: grows_flush_sends)

lemma grows_send_keepalive: "send_keepalive C T E a = Some b \<Longrightarrow> grows a b"
  by (auto simp: send_keepalive_def Let_def case_prod_unfold split: if_splits bind_splits sum.splits
      dest!: grows_ensure_handshake)

lemma grows_session_established: "session_established C T E a i = Some b \<Longrightarrow> grows a b"
  by (auto simp: session_established_def Let_def split: if_splits bind_splits
      dest!: grows_flush_staged grows_send_keepalive dest: grows_trans)

lemma grows_recv_data: "recv_data_action C T E a now data i ep = Some b \<Longrightarrow> grows a b"
  by (auto simp: recv_data_action_def Let_def case_prod_unfold split: if_splits bind_splits sum.splits option.splits
      dest!: grows_session_established grows_ensure_handshake) (metis grows_trans)+

lemma grows_recv_init: "recv_init_action C T E a now hs ep = Some b \<Longrightarrow> grows a b"
  by (auto simp: recv_init_action_def Let_def case_prod_unfold split: if_splits bind_splits sum.splits)

lemma grows_recv_resp: "recv_resp_action C T E a now resp ep = Some b \<Longrightarrow> grows a b"
  by (auto simp: recv_resp_action_def Let_def case_prod_unfold split: bind_splits sum.splits
      dest!: grows_session_established)

lemma grows_handle_message: "handle_message C T E a action = Some b \<Longrightarrow> grows a b"
  by (auto simp: handle_message_def Let_def case_prod_unfold split: PeerAction.splits bind_splits
      dest!: grows_apply_endpoint grows_apply_update grows_flush_sends grows_recv_data grows_recv_init grows_recv_resp)

lemma grows_process_actions: "process_actions C T E a actions ps = Some b \<Longrightarrow> grows a b"
proof (induction actions arbitrary: a ps)
  case Nil
  then show ?case by (simp add: grows_flush_sends)
next
  case (Cons action actions)
  show ?case
  proof (cases "\<exists>p. action = SendData p")
    case True
    then show ?thesis using Cons by auto
  next
    case False
    then obtain a1 a2 where "flush_sends C T E a ps = Some a1" "handle_message C T E a1 action = Some a2"
        "process_actions C T E a2 actions [] = Some b"
      using Cons.prems by (cases action) (auto split: bind_splits)
    then show ?thesis using Cons.IH grows_flush_sends grows_handle_message grows_trans by metis
  qed
qed

lemma grows_handshake_due: "handshake_due C T E a = Some b \<Longrightarrow> grows a b"
  by (auto simp: handshake_due_def Let_def case_prod_unfold split: option.splits if_splits dest!: grows_send_handshake)

lemma grows_timers:
  "new_handshake_due C T E a = Some b \<Longrightarrow> grows a b" "persistent_keepalive_due C T E a = Some b \<Longrightarrow> grows a b"
  by (auto simp: new_handshake_due_def persistent_keepalive_due_def Let_def case_prod_unfold split: if_splits
      dest!: grows_ensure_handshake grows_send_keepalive)

lemma grows_iteration: "iteration C T E a event = Some b \<Longrightarrow> grows a b"
  by (auto simp: iteration_def session_expired_def split: bind_splits event.splits
      dest!: grows_process_actions grows_handshake_due grows_timers grows_send_keepalive)

end
