(* ===== verification/Tunnel.thy ===== *)
theory Tunnel
  imports ReadLoop Actor_Runs Actor_Logs
begin

text \<open>
  The tunnel (\<open>tunnel/src/lib.rs\<close>) and the handles on its peers (\<open>tunnel/src/peer.rs\<close>): the registry,
  the read loop, one actor per peer and the queues between them, as one state.

  A weak pointer to the entry of a peer is the channel of the entry: it can be upgraded while the
  entry is registered, or held by a call that waits for queue space; \<open>tn_held\<close> are the channels of
  those calls. The tasks of the tunnel run in any interleaving: a step of the tunnel is a call
  through a handle, one round of the read loop or one iteration of an actor.
\<close>

section \<open>State\<close>

definition MAX_IPV4_UDP_PAYLOAD_SIZE :: nat where "MAX_IPV4_UDP_PAYLOAD_SIZE = 65507"
definition INBOUND_QUEUE_CAPACITY :: nat where "INBOUND_QUEUE_CAPACITY = 2048"
definition MAX_PLAINTEXT_SIZE :: nat where
  "MAX_PLAINTEXT_SIZE =
     (MAX_IPV4_UDP_PAYLOAD_SIZE - TRANSPORT_OVERHEAD) div TRANSPORT_PADDING_MULTIPLE * TRANSPORT_PADDING_MULTIPLE"

datatype RegisterError = AlreadyRegistered

record PeerSender =
  ps_public_key :: bytes
  ps_chan :: chan

record PeerHandle =
  hd_sender :: PeerSender
  hd_session_rx :: chan

record 'ts Tunnel =
  tn_our_key :: bytes
  tn_alive :: bool
  tn_router :: "'ts RoutingTable"
  tn_held :: "chan list"
  tn_actors :: "chan \<rightharpoonup> 'ts PeerActor"
  tn_session :: "chan \<Rightarrow> bool"
  tn_inbound :: "Packet list"
  tn_read :: ReadLoop

section \<open>Senders\<close>

definition PeerSender_entry :: "'ts Tunnel \<Rightarrow> PeerSender \<Rightarrow> SendError + chan" where
  "PeerSender_entry tn s =
     (if entry (tn_router tn) (ps_public_key s) = Some (ps_chan s) \<or> ps_chan s \<in> set (tn_held tn)
      then Inr (ps_chan s)
      else if tn_alive tn then Inl PeerRemoved else Inl TunnelClosed)"

text \<open>\<open>entry()?.actions.send(action).await\<close>: a call that has to wait holds the entry.\<close>

definition send_action ::
  "'ts Tunnel \<Rightarrow> chan \<Rightarrow> 'ts PeerAction \<Rightarrow> (SendError + unit) poll \<times> 'ts Tunnel" where
  "send_action tn ch action =
     (case send (tn_router tn) ch action of
        (Pending, rt) \<Rightarrow> (Pending, tn\<lparr>tn_router := rt, tn_held := ch # tn_held tn\<rparr>)
      | (r, rt) \<Rightarrow> (r, tn\<lparr>tn_router := rt\<rparr>))"

text \<open>The waiting call is polled again, or dropped.\<close>

definition resume_action ::
  "'ts Tunnel \<Rightarrow> chan \<Rightarrow> 'ts PeerAction \<Rightarrow> (SendError + unit) poll \<times> 'ts Tunnel" where
  "resume_action tn ch action =
     (case send (tn_router tn) ch action of
        (Pending, rt) \<Rightarrow> (Pending, tn\<lparr>tn_router := rt\<rparr>)
      | (r, rt) \<Rightarrow> (r, tn\<lparr>tn_router := rt, tn_held := remove1 ch (tn_held tn)\<rparr>))"

definition cancel_action :: "'ts Tunnel \<Rightarrow> chan \<Rightarrow> 'ts Tunnel" where
  "cancel_action tn ch = tn\<lparr>tn_held := remove1 ch (tn_held tn)\<rparr>"

definition PeerSender_send ::
  "'ts Tunnel \<Rightarrow> PeerSender \<Rightarrow> bytes \<Rightarrow> (SendError + unit) poll \<times> 'ts Tunnel" where
  "PeerSender_send tn s payload =
     (case PeerSender_entry tn s of
        Inl e \<Rightarrow> (Ready (Inl e), tn)
      | Inr ch \<Rightarrow> send_action tn ch (SendData payload))"

definition PeerSender_try_send :: "'ts Tunnel \<Rightarrow> PeerSender \<Rightarrow> bytes \<Rightarrow> (SendError + unit) \<times> 'ts Tunnel" where
  "PeerSender_try_send tn s payload =
     (case PeerSender_entry tn s of
        Inl e \<Rightarrow> (Inl e, tn)
      | Inr ch \<Rightarrow>
          let (r, rt) = try_send (tn_router tn) ch (SendData payload) in (r, tn\<lparr>tn_router := rt\<rparr>))"

definition PeerSender_connect ::
  "'ts Tunnel \<Rightarrow> PeerSender \<Rightarrow> SocketAddr \<Rightarrow> (SendError + unit) poll \<times> 'ts Tunnel" where
  "PeerSender_connect tn s endpoint =
     (case PeerSender_entry tn s of
        Inl e \<Rightarrow> (Ready (Inl e), tn)
      | Inr ch \<Rightarrow> send_action tn ch (Connect endpoint))"

definition PeerSender_status :: "'ts Tunnel \<Rightarrow> PeerSender \<Rightarrow> PeerStatus option" where
  "PeerSender_status tn s =
     (case PeerSender_entry tn s of Inl _ \<Rightarrow> None | Inr ch \<Rightarrow> Some (rt_statuses (tn_router tn) ch))"

section \<open>Peers\<close>

definition Peer_handle_new :: "bytes \<Rightarrow> chan \<Rightarrow> PeerHandle" where
  "Peer_handle_new public_key ch = \<lparr>hd_sender = \<lparr>ps_public_key = public_key, ps_chan = ch\<rparr>, hd_session_rx = ch\<rparr>"

definition Peer_drop :: "'ts Tunnel \<Rightarrow> PeerHandle \<Rightarrow> 'ts Tunnel" where
  "Peer_drop tn h =
     (if tn_alive tn then tn\<lparr>tn_router := remove_peer (tn_router tn) (ps_public_key (hd_sender h))\<rparr> else tn)"

definition Peer_sender :: "PeerHandle \<Rightarrow> PeerSender" where
  "Peer_sender h = hd_sender h"

definition Peer_status :: "'ts Tunnel \<Rightarrow> PeerHandle \<Rightarrow> PeerStatus option" where
  "Peer_status tn h = PeerSender_status tn (hd_sender h)"

definition Peer_send :: "'ts Tunnel \<Rightarrow> PeerHandle \<Rightarrow> bytes \<Rightarrow> (SendError + unit) poll \<times> 'ts Tunnel" where
  "Peer_send tn h payload = PeerSender_send tn (hd_sender h) payload"

definition Peer_try_send :: "'ts Tunnel \<Rightarrow> PeerHandle \<Rightarrow> bytes \<Rightarrow> (SendError + unit) \<times> 'ts Tunnel" where
  "Peer_try_send tn h payload = PeerSender_try_send tn (hd_sender h) payload"

definition Peer_connect :: "'ts Tunnel \<Rightarrow> PeerHandle \<Rightarrow> SocketAddr \<Rightarrow> (SendError + unit) poll \<times> 'ts Tunnel" where
  "Peer_connect tn h endpoint = PeerSender_connect tn (hd_sender h) endpoint"

text \<open>
  \<open>watch::Receiver::wait_for\<close>: the last value counts, even if its sender, the actor, is gone.
\<close>

definition Peer_ready :: "'ts Tunnel \<Rightarrow> PeerHandle \<Rightarrow> (SendError + unit) poll" where
  "Peer_ready tn h =
     (if tn_session tn (hd_session_rx h) then Ready (Inr ())
      else if tn_actors tn (hd_session_rx h) = None then Ready (Inl TunnelClosed)
      else Pending)"

section \<open>The tunnel\<close>

definition Tunnel_start_with_guard :: "net_env \<Rightarrow> bytes \<Rightarrow> LoadGuard \<Rightarrow> 'ts Tunnel" where
  "Tunnel_start_with_guard N our_key guard =
     \<lparr>tn_our_key = our_key, tn_alive = True, tn_router = RoutingTable_new, tn_held = [],
      tn_actors = Map.empty, tn_session = (\<lambda>_. False), tn_inbound = [], tn_read = read_loop_start N our_key guard\<rparr>"

definition Tunnel_start :: "crypto \<Rightarrow> net_env \<Rightarrow> bytes \<Rightarrow> bytes \<Rightarrow> 'ts Tunnel" where
  "Tunnel_start C N our_key secret =
     Tunnel_start_with_guard N our_key (LoadGuard_new C (x25519_public C our_key) secret)"

text \<open>Binding or adopting the socket is the only thing that can fail: its result is a parameter.\<close>

definition Tunnel_new :: "crypto \<Rightarrow> net_env \<Rightarrow> bytes \<Rightarrow> 'io + unit \<Rightarrow> bytes \<Rightarrow> 'io + 'ts Tunnel" where
  "Tunnel_new C N secret socket our_key =
     (case socket of Inl e \<Rightarrow> Inl e | Inr _ \<Rightarrow> Inr (Tunnel_start C N our_key secret))"

definition Tunnel_from_socket :: "crypto \<Rightarrow> net_env \<Rightarrow> bytes \<Rightarrow> 'io + unit \<Rightarrow> bytes \<Rightarrow> 'io + 'ts Tunnel" where
  "Tunnel_from_socket C N secret socket our_key =
     (case socket of Inl e \<Rightarrow> Inl e | Inr _ \<Rightarrow> Inr (Tunnel_start C N our_key secret))"

definition Tunnel_drop :: "'ts Tunnel \<Rightarrow> 'ts Tunnel" where
  "Tunnel_drop tn =
     tn\<lparr>tn_alive := False, tn_router := (tn_router tn)\<lparr>rt_peers := Map.empty, rt_control := []\<rparr>,
        tn_read := (tn_read tn)\<lparr>rl_indices := Map.empty\<rparr>\<rparr>"

text \<open>The queue of a new peer has room, so its first \<open>connect\<close> does not wait.\<close>

definition Tunnel_add_peer ::
  "crypto \<Rightarrow> 'ts Tunnel \<Rightarrow> bytes \<Rightarrow> PeerConfig \<Rightarrow> (RegisterError + PeerHandle) \<times> 'ts Tunnel" where
  "Tunnel_add_peer C tn public_key config =
     (case register_peer (tn_router tn) public_key of
        (None, rt) \<Rightarrow> (Inl AlreadyRegistered, tn\<lparr>tn_router := rt\<rparr>)
      | (Some ch, rt) \<Rightarrow>
          let actor = spawn C (tn_our_key tn) public_key config (rt_statuses rt ch);
              tn = tn\<lparr>tn_router := rt, tn_actors := (tn_actors tn)(ch \<mapsto> actor),
                tn_session := (tn_session tn)(ch := pa_session_tx actor)\<rparr>;
              peer = Peer_handle_new public_key ch
          in case pc_endpoint config of
               None \<Rightarrow> (Inr peer, tn)
             | Some endpoint \<Rightarrow> (Inr peer, snd (Peer_connect tn peer endpoint)))"

definition Tunnel_set_peer ::
  "'ts Tunnel \<Rightarrow> bytes \<Rightarrow> PeerUpdate \<Rightarrow> (SendError + unit) poll \<times> 'ts Tunnel" where
  "Tunnel_set_peer tn public_key update =
     (let (r, rt) = RoutingTable_set_peer (tn_router tn) public_key update
      in (r, tn\<lparr>tn_router := rt, tn_held :=
               (case (r, entry rt public_key) of (Pending, Some ch) \<Rightarrow> ch # tn_held tn | _ \<Rightarrow> tn_held tn)\<rparr>))"

definition Tunnel_recv :: "'ts Tunnel \<Rightarrow> Packet poll \<times> 'ts Tunnel" where
  "Tunnel_recv tn =
     (case tn_inbound tn of
        [] \<Rightarrow> (Pending, tn)
      | packet # rest \<Rightarrow> (Ready packet, tn\<lparr>tn_inbound := rest\<rparr>))"

definition Tunnel_public_key :: "crypto \<Rightarrow> 'ts Tunnel \<Rightarrow> bytes" where
  "Tunnel_public_key C tn = x25519_public C (tn_our_key tn)"

definition Tunnel_peer :: "'ts Tunnel \<Rightarrow> bytes \<Rightarrow> PeerStatus option" where
  "Tunnel_peer tn peer = peer_status (tn_router tn) peer"

definition Tunnel_peers :: "'ts Tunnel \<Rightarrow> PeerStatus set" where
  "Tunnel_peers tn = peer_statuses (tn_router tn)"

end
