(* ===== verification/Device.thy ===== *)
theory Device
  imports AllowedIps Tunnel
begin

text \<open>
  The packet device (\<open>tunstile/src/lib.rs\<close>, \<open>tunstile/src/config.rs\<close>): a tunnel whose peers own IP
  prefixes. Outbound packets go to the owner of their destination, inbound packets are returned
  only if their source belongs to the peer that sent them.
\<close>

section \<open>IP packets\<close>

record PacketInfo =
  pi_source :: IpAddr
  pi_destination :: IpAddr
  pi_len :: nat

definition v6 :: "bytes \<Rightarrow> IpAddr option" where
  "v6 bytes = do {
     octets \<leftarrow> copy_into (replicate 16 0) 0 16 bytes;
     Some (v6_from octets)
   }"

text \<open>The two arms of \<open>packet_info\<close>; the outer option is a panic, the inner one the result.\<close>

definition ipv4_info :: "bytes \<Rightarrow> PacketInfo option option" where
  "ipv4_info packet = do {
     b0 \<leftarrow> index_at packet 0;
     b2 \<leftarrow> index_at packet 2;
     b3 \<leftarrow> index_at packet 3;
     let header_len = unat (b0 AND 0x0F) * 4;
     let len = unat (of_be_bytes [b2, b3] :: u16);
     if header_len < 20 \<or> len < header_len \<or> length packet < len then Some None else do {
       s12 \<leftarrow> index_at packet 12; s13 \<leftarrow> index_at packet 13; s14 \<leftarrow> index_at packet 14; s15 \<leftarrow> index_at packet 15;
       d16 \<leftarrow> index_at packet 16; d17 \<leftarrow> index_at packet 17; d18 \<leftarrow> index_at packet 18; d19 \<leftarrow> index_at packet 19;
       Some (Some \<lparr>pi_source = v4_from [s12, s13, s14, s15], pi_destination = v4_from [d16, d17, d18, d19],
                   pi_len = len\<rparr>)
     }
   }"

definition ipv6_info :: "bytes \<Rightarrow> PacketInfo option option" where
  "ipv6_info packet = do {
     b4 \<leftarrow> index_at packet 4;
     b5 \<leftarrow> index_at packet 5;
     let len = 40 + unat (of_be_bytes [b4, b5] :: u16);
     if length packet < len then Some None else do {
       source \<leftarrow> subslice packet 8 24;
       source \<leftarrow> v6 source;
       destination \<leftarrow> subslice packet 24 40;
       destination \<leftarrow> v6 destination;
       Some (Some \<lparr>pi_source = source, pi_destination = destination, pi_len = len\<rparr>)
     }
   }"

definition packet_info :: "bytes \<Rightarrow> PacketInfo option option" where
  "packet_info packet =
     (case packet of
        [] \<Rightarrow> Some None
      | b # _ \<Rightarrow>
          let version = drop_bit 4 b
          in if version = 4 \<and> 20 \<le> length packet then ipv4_info packet
             else if version = 6 \<and> 40 \<le> length packet then ipv6_info packet
             else Some None)"

text \<open>\<open>usize::next_multiple_of\<close> and \<open>Vec::resize\<close>.\<close>

definition next_multiple_of :: "nat \<Rightarrow> nat \<Rightarrow> nat" where
  "next_multiple_of n m = (if n mod m = 0 then n else n + (m - n mod m))"

definition resize :: "'a list \<Rightarrow> nat \<Rightarrow> 'a \<Rightarrow> 'a list" where
  "resize xs n x = take n xs @ replicate (n - length xs) x"

definition pad_packet :: "bytes \<Rightarrow> nat \<Rightarrow> bool \<times> bytes" where
  "pad_packet packet max_packet_size =
     (if max_packet_size < length packet then (False, packet)
      else
        let padded_len = next_multiple_of (length packet) TRANSPORT_PADDING_MULTIPLE;
            padded_len = min padded_len max_packet_size
        in (True, resize packet padded_len 0))"

section \<open>Configuration\<close>

record DeviceConfig =
  dc_private_key :: bytes
  dc_mtu :: "nat option"

record 'net DevicePeerConfig =
  dpc_endpoint :: "SocketAddr option"
  dpc_preshared_key :: "bytes option"
  dpc_persistent_keepalive :: "Duration option"
  dpc_allowed_ips :: "'net list"

definition PeerConfig_take_tunnel :: "'net DevicePeerConfig \<Rightarrow> PeerConfig \<times> 'net list" where
  "PeerConfig_take_tunnel config =
     (\<lparr>pc_endpoint = dpc_endpoint config, pc_preshared_key = dpc_preshared_key config,
       pc_persistent_keepalive = dpc_persistent_keepalive config\<rparr>, dpc_allowed_ips config)"

record 'net DevicePeerUpdate =
  dpu_endpoint :: "SocketAddr option"
  dpu_preshared_key :: "bytes Update"
  dpu_persistent_keepalive :: "Duration Update"
  dpu_allowed_ips :: "'net list Update"

definition PeerUpdate_take_tunnel :: "'net DevicePeerUpdate \<Rightarrow> PeerUpdate \<times> 'net list Update" where
  "PeerUpdate_take_tunnel update =
     (\<lparr>pu_endpoint = dpu_endpoint update, pu_preshared_key = dpu_preshared_key update,
       pu_persistent_keepalive = dpu_persistent_keepalive update\<rparr>, dpu_allowed_ips update)"

section \<open>The device\<close>

datatype 'io DeviceError = Io 'io | DeviceAlreadyRegistered | UnknownPeer bytes | Send SendError

record ('net, 'ts) Device =
  dv_tunnel :: "'ts Tunnel"
  dv_max_packet_size :: nat
  dv_peers :: "bytes \<rightharpoonup> PeerHandle"
  dv_allowed_ips :: "('net, PeerSender) AllowedIps"

definition Device_start :: "'ts Tunnel \<Rightarrow> nat \<Rightarrow> ('net, 'ts) Device" where
  "Device_start tunnel max_packet_size =
     \<lparr>dv_tunnel = tunnel, dv_max_packet_size = min max_packet_size MAX_PLAINTEXT_SIZE, dv_peers = Map.empty,
      dv_allowed_ips = AllowedIps_new\<rparr>"

definition Device_new ::
  "crypto \<Rightarrow> net_env \<Rightarrow> bytes \<Rightarrow> 'io + unit \<Rightarrow> DeviceConfig \<Rightarrow> 'io DeviceError + ('net, 'ts) Device" where
  "Device_new C E secret socket config =
     (let max_packet_size = unwrap_or (dc_mtu config) MAX_PLAINTEXT_SIZE
      in case Tunnel_new C E secret socket (dc_private_key config) of
           Inl e \<Rightarrow> Inl (Io e)
         | Inr tunnel \<Rightarrow> Inr (Device_start tunnel max_packet_size))"

definition Device_from_socket ::
  "crypto \<Rightarrow> net_env \<Rightarrow> bytes \<Rightarrow> 'io + unit \<Rightarrow> DeviceConfig \<Rightarrow> 'io DeviceError + ('net, 'ts) Device" where
  "Device_from_socket C E secret socket config =
     (let max_packet_size = unwrap_or (dc_mtu config) MAX_PLAINTEXT_SIZE
      in case Tunnel_from_socket C E secret socket (dc_private_key config) of
           Inl e \<Rightarrow> Inl (Io e)
         | Inr tunnel \<Rightarrow> Inr (Device_start tunnel max_packet_size))"

definition Device_public_key :: "crypto \<Rightarrow> ('net, 'ts) Device \<Rightarrow> bytes" where
  "Device_public_key C d = Tunnel_public_key C (dv_tunnel d)"

definition Device_peers :: "('net, 'ts) Device \<Rightarrow> PeerStatus set" where
  "Device_peers d = Tunnel_peers (dv_tunnel d)"

definition Device_peer :: "('net, 'ts) Device \<Rightarrow> bytes \<Rightarrow> PeerStatus option" where
  "Device_peer d public_key = Tunnel_peer (dv_tunnel d) public_key"

definition prepare_outbound_packet :: "('net, 'ts) Device \<Rightarrow> bytes \<Rightarrow> (IpAddr option \<times> bytes) option" where
  "prepare_outbound_packet d packet = do {
     r \<leftarrow> packet_info packet;
     case r of
       None \<Rightarrow> Some (None, packet)
     | Some info \<Rightarrow>
         let (ok, packet) = pad_packet (take (pi_len info) packet) (dv_max_packet_size d)
         in Some (if ok then Some (pi_destination info) else None, packet)
   }"

definition peer_for_destination :: "'net ipnet \<Rightarrow> ('net, 'ts) Device \<Rightarrow> IpAddr \<Rightarrow> PeerSender option" where
  "peer_for_destination N d destination = longest_match N (dv_allowed_ips d) destination"

definition send_packet ::
  "'net ipnet \<Rightarrow> ('net, 'ts) Device \<Rightarrow> bytes \<Rightarrow> ((SendError + unit) poll \<times> ('net, 'ts) Device) option" where
  "send_packet N d packet = do {
     (r, packet) \<leftarrow> prepare_outbound_packet d packet;
     case r of
       None \<Rightarrow> Some (Ready (Inr ()), d)
     | Some destination \<Rightarrow>
         (case peer_for_destination N d destination of
            None \<Rightarrow> Some (Ready (Inr ()), d)
          | Some sender \<Rightarrow>
              let (r, tn) = PeerSender_send (dv_tunnel d) sender packet in Some (r, d\<lparr>dv_tunnel := tn\<rparr>))
   }"

definition try_send_packet ::
  "'net ipnet \<Rightarrow> ('net, 'ts) Device \<Rightarrow> bytes \<Rightarrow> ((SendError + unit) \<times> ('net, 'ts) Device) option" where
  "try_send_packet N d packet = do {
     (r, packet) \<leftarrow> prepare_outbound_packet d packet;
     case r of
       None \<Rightarrow> Some (Inr (), d)
     | Some destination \<Rightarrow>
         (case peer_for_destination N d destination of
            None \<Rightarrow> Some (Inr (), d)
          | Some sender \<Rightarrow>
              let (r, tn) = PeerSender_try_send (dv_tunnel d) sender packet;
                  d = d\<lparr>dv_tunnel := tn\<rparr>
              in Some (if r = Inl Full then Inr () else r, d))
   }"

function recv_packet ::
  "'net ipnet \<Rightarrow> ('net, 'ts) Device \<Rightarrow> (bytes poll \<times> ('net, 'ts) Device) option" where
  "recv_packet N d =
     (case Tunnel_recv (dv_tunnel d) of
        (Pending, tn) \<Rightarrow> Some (Pending, d\<lparr>dv_tunnel := tn\<rparr>)
      | (Ready packet, tn) \<Rightarrow> do {
          let d = d\<lparr>dv_tunnel := tn\<rparr>;
          let payload = pk_payload packet;
          r \<leftarrow> packet_info payload;
          case r of
            None \<Rightarrow> recv_packet N d
          | Some info \<Rightarrow>
              let payload = take (pi_len info) payload;
                  valid_source = is_some_and (longest_match N (dv_allowed_ips d) (pi_source info))
                    (\<lambda>sender. ps_public_key sender = pk_public_key packet)
              in if \<not> valid_source then recv_packet N d else Some (Ready payload, d)
        })"
  by pat_completeness auto
termination
  by (relation "measure (\<lambda>(_, d). length (tn_inbound (dv_tunnel d)))")
    (auto simp: Tunnel_recv_def split: list.splits)

declare recv_packet.simps [simp del]

definition insert_allowed_ips ::
  "'net ipnet \<Rightarrow> ('net, 'ts) Device \<Rightarrow> PeerSender \<Rightarrow> 'net list \<Rightarrow> ('net, 'ts) Device" where
  "insert_allowed_ips N d sender nets =
     d\<lparr>dv_allowed_ips := foldl (\<lambda>t net. AllowedIps_insert N t net sender) (dv_allowed_ips d) nets\<rparr>"

definition retain_others :: "('net, 'ts) Device \<Rightarrow> bytes \<Rightarrow> ('net, 'ts) Device" where
  "retain_others d public_key =
     d\<lparr>dv_allowed_ips := AllowedIps_retain (dv_allowed_ips d) (\<lambda>owner. ps_public_key owner \<noteq> public_key)\<rparr>"

definition Device_add_peer ::
  "'net ipnet \<Rightarrow> crypto \<Rightarrow> ('net, 'ts) Device \<Rightarrow> bytes \<Rightarrow> 'net DevicePeerConfig \<Rightarrow>
     ('io DeviceError + unit) \<times> ('net, 'ts) Device" where
  "Device_add_peer N C d public_key config =
     (if public_key \<in> dom (dv_peers d) then (Inl DeviceAlreadyRegistered, d)
      else
        let (tunnel_config, peer_allowed_ips) = PeerConfig_take_tunnel config
        in case Tunnel_add_peer C (dv_tunnel d) public_key tunnel_config of
             (Inl AlreadyRegistered, tn) \<Rightarrow> (Inl DeviceAlreadyRegistered, d\<lparr>dv_tunnel := tn\<rparr>)
           | (Inr peer, tn) \<Rightarrow>
               let d = insert_allowed_ips N (d\<lparr>dv_tunnel := tn\<rparr>) (hd_sender peer) peer_allowed_ips
               in (Inr (), d\<lparr>dv_peers := (dv_peers d)(public_key \<mapsto> peer)\<rparr>))"

text \<open>What \<open>set_peer\<close> does to the prefixes once the tunnel has taken the update.\<close>

definition update_allowed_ips ::
  "'net ipnet \<Rightarrow> ('net, 'ts) Device \<Rightarrow> bytes \<Rightarrow> PeerSender \<Rightarrow> 'net list Update \<Rightarrow> ('net, 'ts) Device" where
  "update_allowed_ips N d public_key sender allowed_ips =
     (case allowed_ips of
        Keep \<Rightarrow> d
      | Clear \<Rightarrow> retain_others d public_key
      | Set nets \<Rightarrow> insert_allowed_ips N (retain_others d public_key) sender nets)"

definition Device_set_peer ::
  "'net ipnet \<Rightarrow> ('net, 'ts) Device \<Rightarrow> bytes \<Rightarrow> 'net DevicePeerUpdate \<Rightarrow>
     ('io DeviceError + unit) poll \<times> ('net, 'ts) Device" where
  "Device_set_peer N d public_key update =
     (case dv_peers d public_key of
        None \<Rightarrow> (Ready (Inl (UnknownPeer public_key)), d)
      | Some peer \<Rightarrow>
          let sender = hd_sender peer;
              (tunnel_update, allowed_ips) = PeerUpdate_take_tunnel update
          in case Tunnel_set_peer (dv_tunnel d) public_key tunnel_update of
               (Pending, tn) \<Rightarrow> (Pending, d\<lparr>dv_tunnel := tn\<rparr>)
             | (Ready (Inl e), tn) \<Rightarrow> (Ready (Inl (Send e)), d\<lparr>dv_tunnel := tn\<rparr>)
             | (Ready (Inr _), tn) \<Rightarrow>
                 (Ready (Inr ()), update_allowed_ips N (d\<lparr>dv_tunnel := tn\<rparr>) public_key sender allowed_ips))"

text \<open>
  The same call polled again after it had to wait; it has the device to itself in between, so its peer is
  still there.
\<close>

definition Device_set_peer_resume ::
  "'net ipnet \<Rightarrow> ('net, 'ts) Device \<Rightarrow> PeerHandle \<Rightarrow> 'net DevicePeerUpdate \<Rightarrow>
     ('io DeviceError + unit) poll \<times> ('net, 'ts) Device" where
  "Device_set_peer_resume N d peer update =
     (let sender = hd_sender peer;
          (tunnel_update, allowed_ips) = PeerUpdate_take_tunnel update
      in case resume_action (dv_tunnel d) (ps_chan sender) (Update tunnel_update) of
           (Pending, tn) \<Rightarrow> (Pending, d\<lparr>dv_tunnel := tn\<rparr>)
         | (Ready (Inl e), tn) \<Rightarrow> (Ready (Inl (Send e)), d\<lparr>dv_tunnel := tn\<rparr>)
         | (Ready (Inr _), tn) \<Rightarrow>
             (Ready (Inr ()), update_allowed_ips N (d\<lparr>dv_tunnel := tn\<rparr>) (ps_public_key sender) sender allowed_ips))"

definition connect_peer ::
  "('net, 'ts) Device \<Rightarrow> bytes \<Rightarrow> SocketAddr \<Rightarrow> ('io DeviceError + unit) poll \<times> ('net, 'ts) Device" where
  "connect_peer d public_key endpoint =
     (case dv_peers d public_key of
        None \<Rightarrow> (Ready (Inl (UnknownPeer public_key)), d)
      | Some peer \<Rightarrow>
          (case Peer_connect (dv_tunnel d) peer endpoint of
             (Pending, tn) \<Rightarrow> (Pending, d\<lparr>dv_tunnel := tn\<rparr>)
           | (Ready r, tn) \<Rightarrow> (Ready (map_err Send r), d\<lparr>dv_tunnel := tn\<rparr>)))"

definition Device_remove_peer :: "('net, 'ts) Device \<Rightarrow> bytes \<Rightarrow> bool \<times> ('net, 'ts) Device" where
  "Device_remove_peer d public_key =
     (case dv_peers d public_key of
        None \<Rightarrow> (False, d)
      | Some peer \<Rightarrow>
          (True, retain_others
             (d\<lparr>dv_peers := (dv_peers d)(public_key := None), dv_tunnel := Peer_drop (dv_tunnel d) peer\<rparr>)
             public_key))"

end
