(* ===== verification/Config.thy ===== *)
theory Config
  imports Keys Device
begin

text \<open>
  The configuration file of the command line program (\<open>tunstile/src/bin/tunstile.rs\<close>): sections of
  \<open>key = value\<close> lines, as \<open>wg-quick\<close> reads them.
\<close>

section \<open>Values parsed elsewhere\<close>

text \<open>
  Prefixes are parsed by the crate \<open>ipnet\<close>, endpoints by the resolver of the operating system, whose error is
  the text it displays as.
\<close>

record 'net value_env =
  parse_net :: "str \<Rightarrow> 'net option"
  to_socket_addrs :: "str \<Rightarrow> str + SocketAddr list"

section \<open>The parser\<close>

record 'net PeerSection =
  sec_public_key :: "bytes option"
  sec_endpoint :: "SocketAddr option"
  sec_preshared_key :: "bytes option"
  sec_keepalive :: "Duration option"
  sec_allowed_ips :: "'net list"

definition PeerSection_default :: "'net PeerSection" where
  "PeerSection_default =
     \<lparr>sec_public_key = None, sec_endpoint = None, sec_preshared_key = None, sec_keepalive = None, sec_allowed_ips = []\<rparr>"

record 'net TunConfig =
  tc_address :: 'net
  tc_mtu :: u16

type_synonym 'net ParsedConfig = "SocketAddr \<times> bytes \<times> 'net TunConfig \<times> (bytes \<times> 'net DevicePeerConfig) list"

text \<open>The local variables of \<open>parse_config\<close>.\<close>

record 'net parsing =
  cf_section :: str
  cf_private_key :: "bytes option"
  cf_address :: "'net option"
  cf_listen_port :: u16
  cf_mtu :: "u16 option"
  cf_peers :: "'net PeerSection list"

definition parsing_start :: "'net parsing" where
  "parsing_start = \<lparr>cf_section = [], cf_private_key = None, cf_address = None, cf_listen_port = 51820, cf_mtu = None,
     cf_peers = []\<rparr>"

definition at_line :: "nat \<Rightarrow> str \<Rightarrow> str" where
  "at_line i what = lit ''line '' @ decimal (i + 1) @ lit '': '' @ what"

definition parse_u16 :: "str \<Rightarrow> u16 option" where
  "parse_u16 s = map_option of_nat (parse_uint (2 ^ 16 - 1) s)"

definition parse_u64 :: "str \<Rightarrow> nat option" where
  "parse_u64 s = parse_uint (2 ^ 64 - 1) s"

definition resolve :: "'net value_env \<Rightarrow> str \<Rightarrow> str + SocketAddr" where
  "resolve V endpoint =
     (case to_socket_addrs V endpoint of
        Inl e \<Rightarrow> Inl (lit ''resolving Endpoint '' @ endpoint @ lit '': '' @ e)
      | Inr [] \<Rightarrow> Inl (lit ''Endpoint '' @ endpoint @ lit '' resolved to no addresses'')
      | Inr (addr # _) \<Rightarrow> Inr addr)"

fun parse_allowed_ips :: "'net value_env \<Rightarrow> nat \<Rightarrow> 'net list \<Rightarrow> str list \<Rightarrow> str + 'net list" where
  "parse_allowed_ips V i nets [] = Inr nets"
| "parse_allowed_ips V i nets (cidr # cidrs) =
     (let cidr = trim cidr
      in if cidr = [] then parse_allowed_ips V i nets cidrs
         else case parse_net V cidr of
                None \<Rightarrow> Inl (at_line i (lit ''invalid AllowedIPs''))
              | Some net \<Rightarrow> parse_allowed_ips V i (nets @ [net]) cidrs)"

text \<open>The keys of a peer section; unknown ones are ignored.\<close>

definition peer_value :: "'net value_env \<Rightarrow> base64 \<Rightarrow> nat \<Rightarrow> 'net PeerSection \<Rightarrow> str \<Rightarrow> str \<Rightarrow> (str + 'net PeerSection) option" where
  "peer_value V B i peer key value =
     (if key = lit ''publickey'' then do {
        r \<leftarrow> PublicKey_from_str B value;
        Some (case r of
          Inl _ \<Rightarrow> Inl (at_line i (lit ''invalid PublicKey''))
        | Inr k \<Rightarrow> Inr (peer\<lparr>sec_public_key := Some k\<rparr>))
      }
      else if key = lit ''presharedkey'' then do {
        r \<leftarrow> PresharedKey_from_str B value;
        Some (case r of
          Inl _ \<Rightarrow> Inl (at_line i (lit ''invalid PresharedKey''))
        | Inr k \<Rightarrow> Inr (peer\<lparr>sec_preshared_key := Some k\<rparr>))
      }
      else if key = lit ''endpoint'' then
        Some (case resolve V value of
          Inl e \<Rightarrow> Inl (at_line i e)
        | Inr addr \<Rightarrow> Inr (peer\<lparr>sec_endpoint := Some addr\<rparr>))
      else if key = lit ''allowedips'' then
        Some (case parse_allowed_ips V i (sec_allowed_ips peer) (split_on 44 value) of
          Inl e \<Rightarrow> Inl e
        | Inr nets \<Rightarrow> Inr (peer\<lparr>sec_allowed_ips := nets\<rparr>))
      else if key = lit ''persistentkeepalive'' then
        Some (case parse_u64 value of
          None \<Rightarrow> Inl (at_line i (lit ''invalid PersistentKeepalive''))
        | Some value \<Rightarrow>
            if value = 0 \<or> 65535 \<le> value then Inl (lit ''persistentkeepalive must be between 0 and 65535'')
            else Inr (peer\<lparr>sec_keepalive := Some (from_secs value)\<rparr>))
      else Some (Inr peer))"

definition config_value :: "'net value_env \<Rightarrow> base64 \<Rightarrow> nat \<Rightarrow> 'net parsing \<Rightarrow> str \<Rightarrow> str \<Rightarrow> (str + 'net parsing) option" where
  "config_value V B i st key value =
     (if cf_section st = lit ''interface'' \<and> key = lit ''privatekey'' then do {
        r \<leftarrow> PrivateKey_from_str B value;
        Some (case r of
          Inl _ \<Rightarrow> Inl (at_line i (lit ''invalid PrivateKey''))
        | Inr k \<Rightarrow> Inr (st\<lparr>cf_private_key := Some k\<rparr>))
      }
      else if cf_section st = lit ''interface'' \<and> key = lit ''address'' then
        (case split_on 44 value of
           [] \<Rightarrow> None
         | first # _ \<Rightarrow> Some (case parse_net V (trim first) of
             None \<Rightarrow> Inl (at_line i (lit ''invalid Address''))
           | Some net \<Rightarrow> Inr (st\<lparr>cf_address := Some net\<rparr>)))
      else if cf_section st = lit ''interface'' \<and> key = lit ''listenport'' then
        Some (case parse_u16 value of
          None \<Rightarrow> Inl (at_line i (lit ''invalid ListenPort''))
        | Some port \<Rightarrow> Inr (st\<lparr>cf_listen_port := port\<rparr>))
      else if cf_section st = lit ''interface'' \<and> key = lit ''mtu'' then
        Some (case parse_u16 value of
          None \<Rightarrow> Inl (at_line i (lit ''invalid MTU''))
        | Some mtu \<Rightarrow> Inr (st\<lparr>cf_mtu := Some mtu\<rparr>))
      else if cf_section st = lit ''peer'' then
        (if cf_peers st = [] then Some (Inl (at_line i (lit ''key outside a [Peer]'')))
         else do {
           r \<leftarrow> peer_value V B i (last (cf_peers st)) key value;
           Some (case r of
             Inl e \<Rightarrow> Inl e
           | Inr peer \<Rightarrow> Inr (st\<lparr>cf_peers := butlast (cf_peers st) @ [peer]\<rparr>))
         })
      else Some (Inr st))"

text \<open>One line; the outer option is a panic.\<close>

definition config_line :: "'net value_env \<Rightarrow> base64 \<Rightarrow> nat \<Rightarrow> 'net parsing \<Rightarrow> str \<Rightarrow> (str + 'net parsing) option" where
  "config_line V B i st raw =
     (case split_on 35 raw of
        [] \<Rightarrow> None
      | first # _ \<Rightarrow>
          let line = trim first
          in if line = [] then Some (Inr st)
             else case Option.bind (strip_prefix 91 line) (strip_suffix 93) of
               Some name \<Rightarrow>
                 let section = to_ascii_lowercase (trim name);
                     st = st\<lparr>cf_section := section\<rparr>
                 in Some (Inr (if section = lit ''peer'' then st\<lparr>cf_peers := cf_peers st @ [PeerSection_default]\<rparr> else st))
             | None \<Rightarrow>
                 (case split_once 61 line of
                    None \<Rightarrow> Some (Inl (at_line i (lit ''expected key = value'')))
                  | Some (key, value) \<Rightarrow> config_value V B i st (to_ascii_lowercase (trim key)) (trim value)))"

fun config_lines :: "'net value_env \<Rightarrow> base64 \<Rightarrow> nat \<Rightarrow> 'net parsing \<Rightarrow> str list \<Rightarrow> (str + 'net parsing) option" where
  "config_lines V B i st [] = Some (Inr st)"
| "config_lines V B i st (raw # lines) = do {
     r \<leftarrow> config_line V B i st raw;
     case r of Inl e \<Rightarrow> Some (Inl e) | Inr st \<Rightarrow> config_lines V B (i + 1) st lines
   }"

fun peer_configs :: "(bytes \<times> 'net DevicePeerConfig) list \<Rightarrow> 'net PeerSection list \<Rightarrow> str + (bytes \<times> 'net DevicePeerConfig) list" where
  "peer_configs configs [] = Inr configs"
| "peer_configs configs (peer # peers) =
     (case sec_public_key peer of
        None \<Rightarrow> Inl (lit ''[Peer] missing PublicKey'')
      | Some public_key \<Rightarrow>
          peer_configs
            (configs @ [(public_key,
               \<lparr>dpc_endpoint = sec_endpoint peer, dpc_preshared_key = sec_preshared_key peer,
                dpc_persistent_keepalive = sec_keepalive peer, dpc_allowed_ips = sec_allowed_ips peer\<rparr>)])
            peers)"

definition finish_config :: "'net parsing \<Rightarrow> str + 'net ParsedConfig" where
  "finish_config st =
     (case cf_private_key st of
        None \<Rightarrow> Inl (lit ''[Interface] missing PrivateKey'')
      | Some private_key \<Rightarrow>
     (case cf_address st of
        None \<Rightarrow> Inl (lit ''[Interface] missing Address'')
      | Some address \<Rightarrow>
          let listen_addr = \<lparr>sa_ip = V4 0, sa_port = cf_listen_port st\<rparr>;
              tun_config = \<lparr>tc_address = address, tc_mtu = unwrap_or (cf_mtu st) 1420\<rparr>
          in case peer_configs [] (cf_peers st) of
               Inl e \<Rightarrow> Inl e
             | Inr configs \<Rightarrow> Inr (listen_addr, private_key, tun_config, configs)))"

definition parse_config :: "'net value_env \<Rightarrow> base64 \<Rightarrow> str \<Rightarrow> (str + 'net ParsedConfig) option" where
  "parse_config V B text = do {
     r \<leftarrow> config_lines V B 0 parsing_start (str_lines text);
     Some (case r of Inl e \<Rightarrow> Inl e | Inr st \<Rightarrow> finish_config st)
   }"

section \<open>What a parsed configuration satisfies\<close>

definition interval_ok :: "Duration option \<Rightarrow> bool" where
  "interval_ok keepalive \<longleftrightarrow> (\<forall>d. keepalive = Some d \<longrightarrow> (\<exists>n. 0 < n \<and> n < 65535 \<and> d = from_secs n))"

definition key_ok :: "bytes option \<Rightarrow> bool" where
  "key_ok key \<longleftrightarrow> (\<forall>k. key = Some k \<longrightarrow> length k = 32)"

definition section_ok :: "'net PeerSection \<Rightarrow> bool" where
  "section_ok peer \<longleftrightarrow> key_ok (sec_public_key peer) \<and> key_ok (sec_preshared_key peer) \<and> interval_ok (sec_keepalive peer)"

definition parsing_ok :: "'net parsing \<Rightarrow> bool" where
  "parsing_ok st \<longleftrightarrow> key_ok (cf_private_key st) \<and> list_all section_ok (cf_peers st) \<and>
     (cf_section st = lit ''peer'' \<longrightarrow> cf_peers st \<noteq> [])"

definition peer_config_ok :: "bytes \<times> 'net DevicePeerConfig \<Rightarrow> bool" where
  "peer_config_ok c \<longleftrightarrow> length (fst c) = 32 \<and> key_ok (dpc_preshared_key (snd c)) \<and>
     interval_ok (dpc_persistent_keepalive (snd c))"

lemma from_str_ok:
  assumes "base64_ok B"
  obtains (error) e where "PublicKey_from_str B s = Some (Inl e)" "PrivateKey_from_str B s = Some (Inl e)"
      "PresharedKey_from_str B s = Some (Inl e)"
  | (key) k where "PublicKey_from_str B s = Some (Inr k)" "PrivateKey_from_str B s = Some (Inr k)"
      "PresharedKey_from_str B s = Some (Inr k)" "length k = 32"
proof -
  obtain r where r: "key_from_base64 B s = Some r" using key_from_base64_total [OF assms] by blast
  show ?thesis
  proof (cases r)
    case (Inl e)
    then show ?thesis using r error by (simp add: PublicKey_from_str_def PrivateKey_from_str_def PresharedKey_from_str_def)
  next
    case (Inr k)
    then show ?thesis using r key key_from_base64_32 [OF assms]
      by (simp add: PublicKey_from_str_def PrivateKey_from_str_def PresharedKey_from_str_def)
  qed
qed

lemma peer_value_ok:
  assumes "base64_ok B" and "section_ok peer"
  shows "\<exists>r. peer_value V B i peer key value = Some r \<and> (\<forall>peer'. r = Inr peer' \<longrightarrow> section_ok peer')"
proof (cases rule: from_str_ok [OF assms(1), of "value", case_names error key])
  case (error e)
  then show ?thesis using assms(2)
    by (auto simp: peer_value_def section_ok_def interval_ok_def split: sum.split option.split)
next
  case (key k)
  then show ?thesis using assms(2)
    by (auto simp: peer_value_def section_ok_def interval_ok_def key_ok_def split: sum.split option.split)
qed

lemma config_value_ok:
  assumes "base64_ok B" and "parsing_ok st"
  shows "\<exists>r. config_value V B i st key value = Some r \<and> (\<forall>st'. r = Inr st' \<longrightarrow> parsing_ok st')"
proof (cases "cf_section st = lit ''peer''")
  case True
  then have n: "cf_peers st \<noteq> []" and a: "list_all section_ok (cf_peers st)" using assms(2) by (simp_all add: parsing_ok_def)
  then have "section_ok (last (cf_peers st))" "list_all section_ok (butlast (cf_peers st))"
    by (auto simp: list_all_iff dest: in_set_butlastD)
  then obtain r where "peer_value V B i (last (cf_peers st)) key value = Some r" "\<forall>peer'. r = Inr peer' \<longrightarrow> section_ok peer'"
    using peer_value_ok [OF assms(1)] by blast
  then show ?thesis using True n assms(2) \<open>list_all section_ok (butlast (cf_peers st))\<close>
    by (auto simp: config_value_def parsing_ok_def split: sum.split)
next
  case False
  show ?thesis
  proof (cases rule: from_str_ok [OF assms(1), of "value", case_names error key])
    case (error e)
    then show ?thesis using assms(2) False
      by (auto simp: config_value_def parsing_ok_def split: sum.split option.split list.split)
  next
    case (key k)
    then show ?thesis using assms(2) False
      by (auto simp: config_value_def parsing_ok_def key_ok_def split: sum.split option.split list.split)
  qed
qed

lemma config_line_ok:
  assumes "base64_ok B" and "parsing_ok st"
  shows "\<exists>r. config_line V B i st raw = Some r \<and> (\<forall>st'. r = Inr st' \<longrightarrow> parsing_ok st')"
proof -
  obtain first rest where split: "split_on 35 raw = first # rest" using split_on_nonempty [of 35 raw] by (cases "split_on 35 raw") auto
  have default: "section_ok PeerSection_default" by (simp add: section_ok_def PeerSection_default_def key_ok_def interval_ok_def)
  show ?thesis
  proof (cases "Option.bind (strip_prefix 91 (trim first)) (strip_suffix 93)")
    case None
    then show ?thesis using split assms config_value_ok [OF assms]
      by (auto simp: config_line_def Let_def split: option.split)
  next
    case (Some name)
    then show ?thesis using split assms(2) default by (auto simp: config_line_def Let_def parsing_ok_def)
  qed
qed

lemma config_lines_ok:
  assumes "base64_ok B"
  shows "parsing_ok st \<Longrightarrow> \<exists>r. config_lines V B i st ls = Some r \<and> (\<forall>st'. r = Inr st' \<longrightarrow> parsing_ok st')"
proof (induction ls arbitrary: i st)
  case (Cons raw ls)
  obtain r where r: "config_line V B i st raw = Some r" "\<forall>st'. r = Inr st' \<longrightarrow> parsing_ok st'"
    using config_line_ok [OF assms Cons.prems] by blast
  then show ?case using Cons.IH by (cases r) auto
qed simp

lemma peer_configs_ok:
  "list_all section_ok peers \<Longrightarrow> list_all peer_config_ok configs \<Longrightarrow> peer_configs configs peers = Inr out \<Longrightarrow>
     list_all peer_config_ok out"
  by (induction configs peers rule: peer_configs.induct)
    (auto simp: section_ok_def peer_config_ok_def key_ok_def split: option.splits)

lemma parse_config_ok:
  assumes "base64_ok B"
  shows "\<exists>r. parse_config V B text = Some r \<and> (\<forall>addr private_key tun peers. r = Inr (addr, private_key, tun, peers) \<longrightarrow>
    length private_key = 32 \<and> list_all peer_config_ok peers)"
proof -
  have "parsing_ok parsing_start" by (simp add: parsing_ok_def parsing_start_def key_ok_def lit_def)
  then obtain r where r: "config_lines V B 0 parsing_start (str_lines text) = Some r" "\<forall>st'. r = Inr st' \<longrightarrow> parsing_ok st'"
    using config_lines_ok [OF assms] by blast
  show ?thesis
  proof (cases r)
    case (Inr st)
    then have "key_ok (cf_private_key st)" "list_all section_ok (cf_peers st)" using r(2) by (simp_all add: parsing_ok_def)
    then show ?thesis using r(1) Inr peer_configs_ok [of "cf_peers st" "[]"]
      by (auto simp: parse_config_def finish_config_def key_ok_def Let_def split: option.split sum.split)
  qed (simp add: parse_config_def r(1))
qed

section \<open>Writing a configuration\<close>

text \<open>
  A file for a configuration, as the program's users write it. Prefixes and endpoints are written by \<open>Display\<close> of
  \<open>IpNet\<close> and \<open>SocketAddr\<close>; the parsers read that back, and a written socket address resolves to itself.
\<close>

record 'net printer =
  show_net :: "'net \<Rightarrow> str"
  show_addr :: "SocketAddr \<Rightarrow> str"

definition printer_ok :: "'net value_env \<Rightarrow> 'net printer \<Rightarrow> bool" where
  "printer_ok V W \<longleftrightarrow>
     (\<forall>net. parse_net V (show_net W net) = Some net \<and> is_word (show_net W net) \<and> 44 \<notin> set (show_net W net)) \<and>
     (\<forall>addr. to_socket_addrs V (show_addr W addr) = Inr [addr] \<and> is_word (show_addr W addr))"

definition entry_line :: "string \<Rightarrow> str \<Rightarrow> str" where
  "entry_line name value = lit name @ [32, 61, 32] @ value"

fun joined :: "str list \<Rightarrow> str" where
  "joined [] = []"
| "joined [s] = s"
| "joined (s # ss) = s @ 44 # joined ss"

definition optional :: "('a \<Rightarrow> str) \<Rightarrow> 'a option \<Rightarrow> str list" where
  "optional f x = (case x of None \<Rightarrow> [] | Some a \<Rightarrow> [f a])"

definition peer_lines :: "base64 \<Rightarrow> 'net printer \<Rightarrow> bytes \<times> 'net DevicePeerConfig \<Rightarrow> str list" where
  "peer_lines B W c =
     [lit ''[Peer]'', entry_line ''PublicKey'' (key_text B (fst c))] @
     optional (\<lambda>k. entry_line ''PresharedKey'' (key_text B k)) (dpc_preshared_key (snd c)) @
     optional (\<lambda>a. entry_line ''Endpoint'' (show_addr W a)) (dpc_endpoint (snd c)) @
     (if dpc_allowed_ips (snd c) = [] then []
      else [entry_line ''AllowedIPs'' (joined (map (show_net W) (dpc_allowed_ips (snd c))))]) @
     optional (\<lambda>d. entry_line ''PersistentKeepalive'' (decimal (d div 1000000000))) (dpc_persistent_keepalive (snd c))"

definition interface_lines :: "base64 \<Rightarrow> 'net printer \<Rightarrow> u16 \<Rightarrow> bytes \<Rightarrow> 'net TunConfig \<Rightarrow> str list" where
  "interface_lines B W port private_key tun =
     [lit ''[Interface]'', entry_line ''PrivateKey'' (key_text B private_key),
      entry_line ''Address'' (show_net W (tc_address tun)), entry_line ''ListenPort'' (decimal (unat port)),
      entry_line ''MTU'' (decimal (unat (tc_mtu tun)))]"

definition config_text ::
  "base64 \<Rightarrow> 'net printer \<Rightarrow> u16 \<Rightarrow> bytes \<Rightarrow> 'net TunConfig \<Rightarrow> (bytes \<times> 'net DevicePeerConfig) list \<Rightarrow> str" where
  "config_text B W port private_key tun peers =
     text_of (interface_lines B W port private_key tun @ concat (map (peer_lines B W) peers))"

text \<open>The lines are lines, and are read as what they say.\<close>

lemma word_key_text: "base64_ok B \<Longrightarrow> length key = 32 \<Longrightarrow> is_word (key_text B key)"
proof -
  assume ok: "base64_ok B" and l: "length key = 32"
  have "length (b64_encode B key) = 44" using base64_okD(2) [OF ok, of key] l by simp
  moreover have "\<not> is_whitespace (unat b) \<and> unat b \<noteq> 35" if "is_base64 b" for b
    using that by (auto simp: is_base64_def is_whitespace_def word_le_nat_alt)
  ultimately show "is_word (key_text B key)"
    using base64_okD(3) [OF ok, of key] unfolding is_word_def key_text_def by (auto simp: list_all_iff)
qed

definition is_name :: "string \<Rightarrow> bool" where
  "is_name name \<longleftrightarrow> is_word (lit name) \<and> 61 \<notin> set (lit name) \<and> hd (lit name) \<noteq> 91"

lemma names:
  "is_name ''PrivateKey''" "is_name ''Address''" "is_name ''ListenPort''" "is_name ''MTU''" "is_name ''PublicKey''"
  "is_name ''PresharedKey''" "is_name ''Endpoint''" "is_name ''AllowedIPs''" "is_name ''PersistentKeepalive''"
  by (simp_all add: is_name_def is_word_def lit_def is_whitespace_def)

lemma lower_names:
  "to_ascii_lowercase (lit ''PrivateKey'') = lit ''privatekey''" "to_ascii_lowercase (lit ''Address'') = lit ''address''"
  "to_ascii_lowercase (lit ''ListenPort'') = lit ''listenport''" "to_ascii_lowercase (lit ''MTU'') = lit ''mtu''"
  "to_ascii_lowercase (lit ''PublicKey'') = lit ''publickey''"
  "to_ascii_lowercase (lit ''PresharedKey'') = lit ''presharedkey''" "to_ascii_lowercase (lit ''Endpoint'') = lit ''endpoint''"
  "to_ascii_lowercase (lit ''AllowedIPs'') = lit ''allowedips''"
  "to_ascii_lowercase (lit ''PersistentKeepalive'') = lit ''persistentkeepalive''"
  by (simp_all add: to_ascii_lowercase_def lit_def)

lemma entry_line_is_line: "is_name name \<Longrightarrow> is_word value \<Longrightarrow> is_line (entry_line name value)"
  using wordD(2) [of "lit name" 10] wordD(2) [of "value" 10] word_ends(2) [of "value"] wordD(1) [of "value"]
  by (auto simp: is_name_def is_line_def entry_line_def is_whitespace_def)

lemma config_line_entry:
  assumes "is_name name" and "is_word value"
  shows "config_line V B i st (entry_line name value) = config_value V B i st (to_ascii_lowercase (lit name)) value"
proof -
  note n = assms(1) [unfolded is_name_def]
  let ?l = "entry_line name value"
  have "35 \<notin> set ?l" using n assms(2) wordD(2) [of "lit name" 35] wordD(2) [of "value" 35] by (auto simp: entry_line_def)
  moreover have "hd ?l = hd (lit name)" "last ?l = last value" "?l \<noteq> []"
    using wordD(1) [of "lit name"] wordD(1) [OF assms(2)] n by (simp_all add: entry_line_def)
  moreover from this have "trim ?l = ?l"
    using n word_ends(1) [of "lit name"] word_ends(2) [OF assms(2)] by (intro trim_id) simp_all
  moreover have "strip_prefix 91 ?l = None" using n \<open>hd ?l = hd (lit name)\<close> by (cases ?l) (simp_all add: strip_prefix_def)
  moreover have "split_once 61 ?l = Some (lit name @ [32], 32 # value)"
    using split_once_append [of 61 "lit name @ [32]" "32 # value"] n by (simp add: entry_line_def)
  ultimately show ?thesis using n assms(2)
    by (simp add: config_line_def split_on_none trim_word)
qed

lemma config_line_headers:
  "config_line V B i st (lit ''[Interface]'') = Some (Inr (st\<lparr>cf_section := lit ''interface''\<rparr>))"
  "config_line V B i st (lit ''[Peer]'') =
     Some (Inr (st\<lparr>cf_section := lit ''peer'', cf_peers := cf_peers st @ [PeerSection_default]\<rparr>))"
  by (simp_all add: config_line_def lit_def trim_def trim_start_def is_whitespace_def strip_prefix_def strip_suffix_def
      to_ascii_lowercase_def)

lemma config_lines_append:
  "config_lines V B i st xs = Some (Inr st') \<Longrightarrow> config_lines V B i st (xs @ ys) = config_lines V B (i + length xs) st' ys"
proof (induction xs arbitrary: i st)
  case (Cons x xs)
  then obtain st1 where "config_line V B i st x = Some (Inr st1)" "config_lines V B (i + 1) st1 xs = Some (Inr st')"
    by (auto split: bind_splits sum.splits)
  then show ?case using Cons.IH by simp
qed simp

text \<open>Lines that turn the last peer section from \<open>peer\<close> into \<open>peer'\<close>, wherever they stand.\<close>

definition reads :: "'net value_env \<Rightarrow> base64 \<Rightarrow> 'net PeerSection \<Rightarrow> str list \<Rightarrow> 'net PeerSection \<Rightarrow> bool" where
  "reads V B peer ls peer' \<longleftrightarrow> (\<forall>i st peers. cf_section st = lit ''peer'' \<longrightarrow> cf_peers st = peers @ [peer] \<longrightarrow>
     config_lines V B i st ls = Some (Inr (st\<lparr>cf_peers := peers @ [peer']\<rparr>)))"

lemma reads_Nil: "reads V B peer [] peer"
  by (simp add: reads_def)

lemma reads_append: "reads V B p xs q \<Longrightarrow> reads V B q ys r \<Longrightarrow> reads V B p (xs @ ys) r"
  by (simp add: reads_def config_lines_append)

lemma reads_entry:
  assumes "is_name name" and "is_word value"
    and "\<And>i. peer_value V B i peer (to_ascii_lowercase (lit name)) value = Some (Inr peer')"
  shows "reads V B peer [entry_line name value] peer'"
  by (simp add: reads_def config_line_entry [OF assms(1,2)] config_value_def assms(3))

lemma reads_optional:
  assumes "\<And>a. x = Some a \<Longrightarrow> reads V B peer [f a] (g a)" and "x = None \<Longrightarrow> peer' = peer" and "\<And>a. x = Some a \<Longrightarrow> peer' = g a"
  shows "reads V B peer (optional f x) peer'"
  using assms reads_Nil [of V B peer] by (auto simp: optional_def split: option.split)

lemma split_joined: "ss \<noteq> [] \<Longrightarrow> list_all (\<lambda>s. 44 \<notin> set s) ss \<Longrightarrow> split_on 44 (joined ss) = ss"
  by (induction ss rule: joined.induct) (simp_all add: split_on_none split_on_append)

lemma word_joined: "ss \<noteq> [] \<Longrightarrow> list_all is_word ss \<Longrightarrow> is_word (joined ss)"
  by (induction ss rule: joined.induct) (simp_all add: is_word_def is_whitespace_def [of 44])

lemma printer_okD:
  assumes "printer_ok V W"
  shows "parse_net V (show_net W net) = Some net" "is_word (show_net W net)" "44 \<notin> set (show_net W net)"
    "to_socket_addrs V (show_addr W addr) = Inr [addr]" "is_word (show_addr W addr)"
  using assms by (simp_all add: printer_ok_def)

lemma parse_allowed_ips_shown:
  assumes "printer_ok V W"
  shows "parse_allowed_ips V i acc (map (show_net W) nets) = Inr (acc @ nets)"
  using printer_okD [OF assms] wordD(1)
  by (induction nets arbitrary: acc) (simp_all add: trim_word)

lemma key_text_parses:
  assumes "base64_ok B" and "length key = 32"
  shows "key_from_base64 B (key_text B key) = Some (Inr key)"
  using assms by (simp add: key_from_base64_iff str_bytes_key_text)

definition section_of :: "bytes \<times> 'net DevicePeerConfig \<Rightarrow> 'net PeerSection" where
  "section_of c = \<lparr>sec_public_key = Some (fst c), sec_endpoint = dpc_endpoint (snd c),
     sec_preshared_key = dpc_preshared_key (snd c), sec_keepalive = dpc_persistent_keepalive (snd c),
     sec_allowed_ips = dpc_allowed_ips (snd c)\<rparr>"

lemma reads_keepalive:
  assumes "interval_ok (Some d)"
  shows "reads V B peer [entry_line ''PersistentKeepalive'' (decimal (d div 1000000000))] (peer\<lparr>sec_keepalive := Some d\<rparr>)"
proof -
  obtain n where n: "0 < n" "n < 65535" "d = from_secs n" using assms by (auto simp: interval_ok_def)
  have "parse_u64 (decimal n) = Some n" using n(2) by (simp add: parse_u64_def parse_uint_decimal)
  then show ?thesis using n
    by (intro reads_entry) (simp_all add: names word_decimal lower_names peer_value_def from_secs_def)
qed

lemma reads_allowed_ips:
  assumes W: "printer_ok V W" and "nets \<noteq> []" and "sec_allowed_ips peer = []" and "peer' = peer\<lparr>sec_allowed_ips := nets\<rparr>"
  shows "reads V B peer [entry_line ''AllowedIPs'' (joined (map (show_net W) nets))] peer'"
proof -
  have "list_all (\<lambda>s. 44 \<notin> set s) (map (show_net W) nets)" "list_all is_word (map (show_net W) nets)"
    using printer_okD(2,3) [OF W] by (simp_all add: list_all_iff)
  then have "split_on 44 (joined (map (show_net W) nets)) = map (show_net W) nets" "is_word (joined (map (show_net W) nets))"
    using assms(2) by (simp_all add: split_joined word_joined)
  then show ?thesis using assms(3,4)
    by (intro reads_entry) (simp_all add: names lower_names peer_value_def parse_allowed_ips_shown [OF W])
qed

lemma reads_peer:
  assumes B: "base64_ok B" and W: "printer_ok V W" and c: "peer_config_ok c"
  shows "reads V B PeerSection_default (tl (peer_lines B W c)) (section_of c)"
proof -
  let ?p1 = "PeerSection_default\<lparr>sec_public_key := Some (fst c)\<rparr>"
  let ?p2 = "?p1\<lparr>sec_preshared_key := dpc_preshared_key (snd c)\<rparr>"
  let ?p3 = "?p2\<lparr>sec_endpoint := dpc_endpoint (snd c)\<rparr>"
  let ?p4 = "?p3\<lparr>sec_allowed_ips := dpc_allowed_ips (snd c)\<rparr>"
  note keys = PublicKey_from_str_def PresharedKey_from_str_def key_text_parses [OF B] word_key_text [OF B] names lower_names
  have len: "length (fst c) = 32" "\<And>k. dpc_preshared_key (snd c) = Some k \<Longrightarrow> length k = 32"
    using c by (auto simp: peer_config_ok_def key_ok_def)
  have r1: "reads V B PeerSection_default [entry_line ''PublicKey'' (key_text B (fst c))] ?p1"
    using len by (intro reads_entry) (simp_all add: keys peer_value_def)
  have r2: "reads V B ?p1 (optional (\<lambda>k. entry_line ''PresharedKey'' (key_text B k)) (dpc_preshared_key (snd c))) ?p2"
    using len by (intro reads_optional reads_entry)
      (simp_all add: keys peer_value_def PeerSection_default_def)
  have r3: "reads V B ?p2 (optional (\<lambda>a. entry_line ''Endpoint'' (show_addr W a)) (dpc_endpoint (snd c))) ?p3"
    by (intro reads_optional reads_entry)
      (simp_all add: names lower_names peer_value_def resolve_def printer_okD [OF W] PeerSection_default_def)
  have r4: "reads V B ?p3 (if dpc_allowed_ips (snd c) = [] then []
      else [entry_line ''AllowedIPs'' (joined (map (show_net W) (dpc_allowed_ips (snd c))))]) ?p4"
    by (auto simp: reads_Nil PeerSection_default_def intro: reads_allowed_ips [OF W])
  have r5: "reads V B ?p4 (optional (\<lambda>d. entry_line ''PersistentKeepalive'' (decimal (d div 1000000000)))
      (dpc_persistent_keepalive (snd c))) (section_of c)"
    using c by (intro reads_optional [where g = "\<lambda>d. ?p4\<lparr>sec_keepalive := Some d\<rparr>"] reads_keepalive)
      (simp_all add: peer_config_ok_def section_of_def PeerSection_default_def)
  show ?thesis
    using reads_append [OF r1 reads_append [OF r2 reads_append [OF r3 reads_append [OF r4 r5]]]] by (simp add: peer_lines_def)
qed

lemma config_lines_peers:
  assumes B: "base64_ok B" and W: "printer_ok V W"
  shows "list_all peer_config_ok peers \<Longrightarrow> \<exists>section. config_lines V B i st (concat (map (peer_lines B W) peers)) =
    Some (Inr (st\<lparr>cf_section := section, cf_peers := cf_peers st @ map section_of peers\<rparr>))"
proof (induction peers arbitrary: i st)
  case Nil
  show ?case by (rule exI [of _ "cf_section st"]) simp
next
  case (Cons c peers)
  let ?st = "st\<lparr>cf_section := lit ''peer'', cf_peers := cf_peers st @ [section_of c]\<rparr>"
  have "config_lines V B (i + 1) (st\<lparr>cf_section := lit ''peer'', cf_peers := cf_peers st @ [PeerSection_default]\<rparr>)
      (tl (peer_lines B W c)) = Some (Inr ?st)"
    using reads_peer [OF B W, of c] Cons.prems by (simp add: reads_def)
  moreover have "peer_lines B W c = lit ''[Peer]'' # tl (peer_lines B W c)" by (simp add: peer_lines_def)
  ultimately have "config_lines V B i st (peer_lines B W c) = Some (Inr ?st)"
    by (metis config_lines.simps(2) config_line_headers(2) bind.bind_lunit sum.case(2))
  then have "config_lines V B i st (concat (map (peer_lines B W) (c # peers))) =
      config_lines V B (i + length (peer_lines B W c)) ?st (concat (map (peer_lines B W) peers))"
    by (simp add: config_lines_append)
  then show ?case using Cons.IH [of "i + length (peer_lines B W c)" ?st] Cons.prems by auto
qed

lemma config_lines_interface:
  assumes B: "base64_ok B" and W: "printer_ok V W" and "length private_key = 32"
  shows "config_lines V B 0 parsing_start (interface_lines B W port private_key tun) =
    Some (Inr \<lparr>cf_section = lit ''interface'', cf_private_key = Some private_key, cf_address = Some (tc_address tun),
      cf_listen_port = port, cf_mtu = Some (tc_mtu tun), cf_peers = []\<rparr>)"
proof -
  have "unat w \<le> 2 ^ 16 - 1" for w :: u16
  proof -
    have "unat w < 2 ^ 16" using unsigned_less [of w] by simp
    then show ?thesis by linarith
  qed
  then have "parse_u16 (decimal (unat w)) = Some w" for w :: u16
    by (simp add: parse_u16_def parse_uint_decimal)
  then show ?thesis using printer_okD [OF W] assms(3)
    by (simp add: interface_lines_def config_line_headers config_line_entry names lower_names word_key_text [OF B] word_decimal
        config_value_def PrivateKey_from_str_def key_text_parses [OF B] split_on_none trim_word parsing_start_def)
qed

lemma peer_configs_section_of: "peer_configs configs (map section_of peers) = Inr (configs @ peers)"
  by (induction peers arbitrary: configs) (auto simp: section_of_def intro!: prod_eqI DevicePeerConfig.equality)

lemma config_text_lines:
  assumes B: "base64_ok B" and W: "printer_ok V W" and "length private_key = 32" and "list_all peer_config_ok peers"
  shows "str_lines (config_text B W port private_key tun peers) =
    interface_lines B W port private_key tun @ concat (map (peer_lines B W) peers)"
proof -
  have headers: "is_line (lit ''[Interface]'')" "is_line (lit ''[Peer]'')" by (simp_all add: is_line_def lit_def)
  note ls = headers entry_line_is_line names word_key_text [OF B] word_decimal printer_okD(2,5) [OF W]
  have "list_all is_line (peer_lines B W c)" if "peer_config_ok c" for c
    using that printer_okD(2) [OF W]
    by (auto simp: peer_lines_def peer_config_ok_def key_ok_def optional_def ls list_all_iff
        intro!: entry_line_is_line word_joined split: option.split)
  then have "list_all is_line (interface_lines B W port private_key tun @ concat (map (peer_lines B W) peers))"
    using assms(3,4) by (auto simp: interface_lines_def ls list_all_iff)
  then show ?thesis by (simp add: config_text_def str_lines_text_of)
qed

lemma parse_config_text:
  assumes B: "base64_ok B" and W: "printer_ok V W" and "length private_key = 32" and "list_all peer_config_ok peers"
  shows "parse_config V B (config_text B W port private_key tun peers) =
    Some (Inr (\<lparr>sa_ip = V4 0, sa_port = port\<rparr>, private_key, tun, peers))"
proof -
  let ?i = "interface_lines B W port private_key tun"
  obtain st where st: "config_lines V B 0 parsing_start (?i @ concat (map (peer_lines B W) peers)) = Some (Inr st)"
    "cf_private_key st = Some private_key" "cf_address st = Some (tc_address tun)" "cf_listen_port st = port"
    "cf_mtu st = Some (tc_mtu tun)" "cf_peers st = map section_of peers"
    using config_lines_append [OF config_lines_interface [OF B W assms(3), of port tun], of "concat (map (peer_lines B W) peers)"]
      config_lines_peers [OF B W assms(4), of "length ?i"] by fastforce
  then show ?thesis
    by (simp add: parse_config_def config_text_lines [OF assms] finish_config_def peer_configs_section_of)
qed

section \<open>A printer for examples\<close>

definition ex_nat :: "str \<Rightarrow> nat" where
  "ex_nat s = foldl (\<lambda>n d. n * 10 + (d - 48)) 0 s"

fun ex_show_ip :: "IpAddr \<Rightarrow> str" where
  "ex_show_ip (V4 a) = 52 # decimal (unat a)"
| "ex_show_ip (V6 a) = 54 # decimal (unat a)"

definition ex_parse_ip :: "str \<Rightarrow> IpAddr" where
  "ex_parse_ip s = (if hd s = 52 then V4 (of_nat (ex_nat (tl s))) else V6 (of_nat (ex_nat (tl s))))"

fun ex_show_net :: "ex_net \<Rightarrow> str" where
  "ex_show_net (Net a n) = ex_show_ip a @ 47 # decimal n"

definition ex_show_addr :: "SocketAddr \<Rightarrow> str" where
  "ex_show_addr a = ex_show_ip (sa_ip a) @ 58 # decimal (unat (sa_port a))"

definition ex_value_env :: "ex_net value_env" where
  "ex_value_env =
     \<lparr>parse_net = (\<lambda>s. map_option (\<lambda>(a, n). Net (ex_parse_ip a) (ex_nat n)) (split_once 47 s)),
      to_socket_addrs = (\<lambda>s. case split_once 58 s of
        None \<Rightarrow> Inl (lit ''no port'')
      | Some (a, p) \<Rightarrow> Inr [\<lparr>sa_ip = ex_parse_ip a, sa_port = of_nat (ex_nat p)\<rparr>])\<rparr>"

definition ex_printer :: "ex_net printer" where
  "ex_printer = \<lparr>show_net = ex_show_net, show_addr = ex_show_addr\<rparr>"

lemma digits_set: "c \<in> set (decimal n) \<Longrightarrow> 48 \<le> c \<and> c \<le> 57"
  using decimal_digits [of n] by (auto simp: list_all_iff is_digit_def)

lemma ip_digits: "c \<in> set (ex_show_ip a) \<Longrightarrow> 48 \<le> c \<and> c \<le> 57"
  by (cases a) (auto dest: digits_set)

lemma ex_parse_show_ip: "ex_parse_ip (ex_show_ip a) = a"
  by (cases a) (simp_all add: ex_parse_ip_def ex_nat_def foldl_decimal)

lemma ex_printer_ok: "printer_ok ex_value_env ex_printer"
proof -
  have lit: "c \<notin> set (ex_show_ip a)" "c \<notin> set (decimal n)" if "c < 48 \<or> 57 < c" for a n c
    using that ip_digits [of c a] digits_set [of c n] by auto
  have ws: "\<not> (48 \<le> c \<and> c \<le> 57)" if "is_whitespace c" for c using that by (auto simp: is_whitespace_def)
  have "parse_net ex_value_env (ex_show_net net) = Some net \<and> is_word (ex_show_net net) \<and> 44 \<notin> set (ex_show_net net)" for net
    using ip_digits digits_set ws
    by (cases net) (fastforce simp: ex_value_env_def split_once_append lit ex_parse_show_ip ex_nat_def foldl_decimal is_word_def
        list_all_iff is_whitespace_def [of 47])
  moreover have "to_socket_addrs ex_value_env (ex_show_addr a) = Inr [a] \<and> is_word (ex_show_addr a)" for a
    using ip_digits digits_set ws
    by (fastforce simp: ex_value_env_def ex_show_addr_def split_once_append lit ex_parse_show_ip ex_nat_def foldl_decimal is_word_def
        list_all_iff is_whitespace_def [of 58])
  ultimately show ?thesis by (simp add: printer_ok_def ex_printer_def)
qed

end
