(* ===== verification/Tunnel_Runs.thy ===== *)
theory Tunnel_Runs
  imports Tunnel
begin

text \<open>
  Runs of the whole tunnel: calls through its handles, rounds of the read loop and iterations of
  the actors, in any order. Every actor has an environment of its own, given by its channel.
\<close>

section \<open>Steps\<close>

text \<open>
  An iteration of the actor behind a channel: it takes its actions from its queue, and what it
  emits goes to the control queue, the inbound queue, the shared status and the session watch.
\<close>

fun left_in_queue :: "'ts event \<Rightarrow> 'ts PeerAction list \<Rightarrow> 'ts PeerAction list" where
  "left_in_queue (Actions actions) queue = drop (length actions) queue"
| "left_in_queue _ queue = queue"

definition publish :: "'ts Tunnel \<Rightarrow> chan \<Rightarrow> 'ts PeerAction list \<Rightarrow> 'ts PeerActor \<Rightarrow> 'ts PeerActor \<Rightarrow> 'ts Tunnel" where
  "publish tn ch queue a b =
     (let rt = tn_router tn
      in tn\<lparr>tn_actors := (tn_actors tn)(ch \<mapsto> b), tn_session := (tn_session tn)(ch := pa_session_tx b),
            tn_inbound := tn_inbound tn @ drop (length (pa_inbound a)) (pa_inbound b),
            tn_router := rt\<lparr>rt_queues := (rt_queues rt)(ch := queue),
              rt_statuses := (rt_statuses rt)(ch := pa_status b),
              rt_control := rt_control rt @ drop (length (pa_control a)) (pa_control b)\<rparr>\<rparr>)"

definition actor_step ::
  "crypto \<Rightarrow> ('ts::linorder) tai \<Rightarrow> 'ts env \<Rightarrow> 'ts Tunnel \<Rightarrow> chan \<Rightarrow> 'ts event \<Rightarrow> 'ts Tunnel option" where
  "actor_step C T E tn ch event = do {
     a \<leftarrow> tn_actors tn ch;
     b \<leftarrow> iteration C T E a event;
     Some (publish tn ch (left_in_queue event (rt_queues (tn_router tn) ch)) a b)
   }"

datatype 'ts tunnel_event =
    AddPeer bytes PeerConfig
  | DropPeer PeerHandle
  | SetPeer bytes PeerUpdate
  | SenderSend PeerSender bytes
  | SenderTrySend PeerSender bytes
  | SenderConnect PeerSender SocketAddr
  | ResumeSend chan "'ts PeerAction"
  | CancelSend chan
  | RecvPacket
  | DropTunnel
  | ReadRound read_event
  | ActorRound chan "'ts event"
  | ActorExit chan

fun tunnel_step ::
  "crypto \<Rightarrow> ('ts::linorder) tai \<Rightarrow> net_env \<Rightarrow> (chan \<Rightarrow> 'ts env) \<Rightarrow> 'ts Tunnel \<Rightarrow> 'ts tunnel_event \<Rightarrow>
     'ts Tunnel option" where
  "tunnel_step C T N E tn (AddPeer key config) = Some (snd (Tunnel_add_peer C tn key config))"
| "tunnel_step C T N E tn (DropPeer h) = Some (Peer_drop tn h)"
| "tunnel_step C T N E tn (SetPeer key update) = Some (snd (Tunnel_set_peer tn key update))"
| "tunnel_step C T N E tn (SenderSend s payload) = Some (snd (PeerSender_send tn s payload))"
| "tunnel_step C T N E tn (SenderTrySend s payload) = Some (snd (PeerSender_try_send tn s payload))"
| "tunnel_step C T N E tn (SenderConnect s endpoint) = Some (snd (PeerSender_connect tn s endpoint))"
| "tunnel_step C T N E tn (ResumeSend ch action) = Some (snd (resume_action tn ch action))"
| "tunnel_step C T N E tn (CancelSend ch) = Some (cancel_action tn ch)"
| "tunnel_step C T N E tn RecvPacket = Some (snd (Tunnel_recv tn))"
| "tunnel_step C T N E tn DropTunnel = Some (Tunnel_drop tn)"
| "tunnel_step C T N E tn (ReadRound event) = do {
     (l, rt) \<leftarrow> read_loop C T N (tn_read tn, tn_router tn) event;
     Some (tn\<lparr>tn_read := l, tn_router := rt\<rparr>)
   }"
| "tunnel_step C T N E tn (ActorRound ch event) = actor_step C T (E ch) tn ch event"
| "tunnel_step C T N E tn (ActorExit ch) = Some (tn\<lparr>tn_actors := (tn_actors tn)(ch := None)\<rparr>)"

text \<open>
  When an event can happen. Calls on the tunnel need it alive, and so does its read loop, which takes a
  batch from the socket only when no routing update is queued; a window of the load guard counts
  fewer than \<open>2 ^ 32\<close> messages. An actor takes its actions from the front of its queue; it emits no more
  packets than the inbound queue has room for, and returns when nothing can send to it any more.
  Payloads are shorter than the cipher's limit and keepalive intervals fit the clock.
\<close>

fun round_enabled :: "'ts Tunnel \<Rightarrow> read_event \<Rightarrow> bool" where
  "round_enabled tn (Received bufs metas n) \<longleftrightarrow> rt_control (tn_router tn) = [] \<and>
     list_all meta_ok (take n (zip bufs metas)) \<and>
     unat (lg_handshakes (rl_guard (tn_read tn))) + length (messages (take n (zip bufs metas))) < 2 ^ 32"
| "round_enabled tn _ \<longleftrightarrow> True"

fun taken_from :: "'ts PeerAction list \<Rightarrow> 'ts event \<Rightarrow> bool" where
  "taken_from queue (Actions actions) \<longleftrightarrow> actions = take (length actions) queue \<and> actions \<noteq> []"
| "taken_from queue _ \<longleftrightarrow> True"

fun due :: "'ts env \<Rightarrow> 'ts PeerActor \<Rightarrow> 'ts event \<Rightarrow> bool" where
  "due E a (Actions _) \<longleftrightarrow> True"
| "due E a event \<longleftrightarrow> enabled E a event"

definition inbound_fits ::
  "crypto \<Rightarrow> ('ts::linorder) tai \<Rightarrow> 'ts env \<Rightarrow> 'ts Tunnel \<Rightarrow> 'ts PeerActor \<Rightarrow> 'ts event \<Rightarrow> bool" where
  "inbound_fits C T E tn a event \<longleftrightarrow>
     (case iteration C T E a event of
        None \<Rightarrow> True
      | Some b \<Rightarrow> length (tn_inbound tn) + (length (pa_inbound b) - length (pa_inbound a)) \<le> INBOUND_QUEUE_CAPACITY)"

definition orphan :: "'ts Tunnel \<Rightarrow> chan \<Rightarrow> bool" where
  "orphan tn ch \<longleftrightarrow> ch \<notin> ran (rt_peers (tn_router tn)) \<and> ch \<notin> set (tn_held tn) \<and>
     ch \<notin> ran (rl_indices (tn_read tn)) \<and> Purge ch \<notin> set (rt_control (tn_router tn)) \<and>
     rt_queues (tn_router tn) ch = []"

fun tunnel_enabled ::
  "crypto \<Rightarrow> ('ts::linorder) tai \<Rightarrow> (chan \<Rightarrow> 'ts env) \<Rightarrow> 'ts Tunnel \<Rightarrow> 'ts tunnel_event \<Rightarrow> bool" where
  "tunnel_enabled C T E tn (AddPeer key config) \<longleftrightarrow> tn_alive tn \<and>
     (\<forall>i. pc_persistent_keepalive config = Some i \<longrightarrow> i \<le> KEEPALIVE_MAX)"
| "tunnel_enabled C T E tn (SetPeer key update) \<longleftrightarrow> tn_alive tn \<and> update_ok update"
| "tunnel_enabled C T E tn (SenderSend s payload) \<longleftrightarrow> length payload < AEAD_P_MAX"
| "tunnel_enabled C T E tn (SenderTrySend s payload) \<longleftrightarrow> length payload < AEAD_P_MAX"
| "tunnel_enabled C T E tn (ResumeSend ch action) \<longleftrightarrow> ch \<in> set (tn_held tn) \<and> action_ok action"
| "tunnel_enabled C T E tn (CancelSend ch) \<longleftrightarrow> ch \<in> set (tn_held tn)"
| "tunnel_enabled C T E tn RecvPacket \<longleftrightarrow> tn_alive tn"
| "tunnel_enabled C T E tn DropTunnel \<longleftrightarrow> tn_alive tn"
| "tunnel_enabled C T E tn (ReadRound event) \<longleftrightarrow> tn_alive tn \<and> round_enabled tn event"
| "tunnel_enabled C T E tn (ActorRound ch event) \<longleftrightarrow>
     (\<exists>a. tn_actors tn ch = Some a \<and> taken_from (rt_queues (tn_router tn) ch) event \<and> due (E ch) a event \<and>
        inbound_fits C T (E ch) tn a event)"
| "tunnel_enabled C T E tn (ActorExit ch) \<longleftrightarrow> orphan tn ch"
| "tunnel_enabled C T E tn _ \<longleftrightarrow> True"

abbreviation tunnel_reaches ::
  "crypto \<Rightarrow> ('ts::linorder) tai \<Rightarrow> net_env \<Rightarrow> (chan \<Rightarrow> 'ts env) \<Rightarrow> 'ts Tunnel \<Rightarrow> 'ts Tunnel \<Rightarrow> bool" where
  "tunnel_reaches C T N E \<equiv> reach (tunnel_step C T N E) (tunnel_enabled C T E)"

section \<open>The invariant\<close>

definition tunnel_ok :: "(chan \<Rightarrow> 'ts env) \<Rightarrow> 'ts Tunnel \<Rightarrow> bool" where
  "tunnel_ok E tn \<longleftrightarrow>
     routes_ok (tn_router tn, rl_indices (tn_read tn)) \<and> LoadGuard_ok (rl_guard (tn_read tn)) \<and>
     (\<forall>ch a. tn_actors tn ch = Some a \<longrightarrow> actor_ok (E ch) a) \<and>
     (\<forall>key ch. rt_peers (tn_router tn) key = Some ch \<longrightarrow> tn_actors tn ch \<noteq> None) \<and>
     (\<forall>ch. list_all action_ok (rt_queues (tn_router tn) ch) \<and>
        length (rt_queues (tn_router tn) ch) \<le> PEER_ACTION_QUEUE_CAPACITY) \<and>
     length (tn_inbound tn) \<le> INBOUND_QUEUE_CAPACITY"

lemma routes_ok_cong:
  "rt_peers rt' = rt_peers rt \<Longrightarrow> rt_control rt' = rt_control rt \<Longrightarrow> rt_next_chan rt' = rt_next_chan rt \<Longrightarrow>
     routes_ok (rt', ir) = routes_ok (rt, ir)"
  by (simp add: routes_ok_def)

lemma tunnel_ok_enqueued:
  assumes ok: "tunnel_ok E tn" and q: "enqueued (tn_router tn) (tn_router tn') (\<lambda>_. action_ok)"
    and l: "rl_indices (tn_read tn') = rl_indices (tn_read tn)" "LoadGuard_ok (rl_guard (tn_read tn'))"
    and same: "tn_actors tn' = tn_actors tn" "tn_inbound tn' = tn_inbound tn"
  shows "tunnel_ok E tn'"
proof -
  let ?rt = "tn_router tn'"
  have "list_all action_ok (rt_queues ?rt ch) \<and> length (rt_queues ?rt ch) \<le> PEER_ACTION_QUEUE_CAPACITY" for ch
  proof -
    obtain new where "rt_queues ?rt ch = rt_queues (tn_router tn) ch @ new" "\<forall>action \<in> set new. action_ok action"
        "new \<noteq> [] \<longrightarrow> length (rt_queues ?rt ch) \<le> PEER_ACTION_QUEUE_CAPACITY"
      using q unfolding enqueued_def by blast
    then show ?thesis using ok by (cases new) (auto simp: tunnel_ok_def list_all_iff)
  qed
  then show ?thesis using ok q l same routes_ok_cong [of ?rt "tn_router tn"] by (simp add: tunnel_ok_def enqueued_def)
qed

lemma snd_send: "snd (send rt ch action) = snd (try_send rt ch action)"
  by (simp add: send_def try_send_def)

lemma enqueued_send: "action_ok action \<Longrightarrow> enqueued rt (snd (send rt ch action)) (\<lambda>_. action_ok)"
  by (simp add: snd_send enqueued_try_send)

section \<open>Calls through handles\<close>

lemma send_action_state:
  "tn_router (snd (send_action tn ch action)) = snd (send (tn_router tn) ch action)"
  "tn_read (snd (send_action tn ch action)) = tn_read tn" "tn_actors (snd (send_action tn ch action)) = tn_actors tn"
  "tn_inbound (snd (send_action tn ch action)) = tn_inbound tn"
  by (simp_all add: send_action_def split: prod.split poll.split)

lemma send_action_ok: "tunnel_ok E tn \<Longrightarrow> action_ok action \<Longrightarrow> tunnel_ok E (snd (send_action tn ch action))"
  by (rule tunnel_ok_enqueued [of E tn]) (simp_all add: send_action_state enqueued_send tunnel_ok_def)

lemma resume_action_ok: "tunnel_ok E tn \<Longrightarrow> action_ok action \<Longrightarrow> tunnel_ok E (snd (resume_action tn ch action))"
proof (rule tunnel_ok_enqueued [of E tn])
  show "action_ok action \<Longrightarrow> enqueued (tn_router tn) (tn_router (snd (resume_action tn ch action))) (\<lambda>_. action_ok)"
    using enqueued_send [of action "tn_router tn" ch] by (auto simp: resume_action_def split: prod.splits poll.splits)
qed (simp_all add: resume_action_def tunnel_ok_def split: prod.split poll.split)

lemma sender_calls_ok:
  assumes "tunnel_ok E tn"
  shows "length payload < AEAD_P_MAX \<Longrightarrow> tunnel_ok E (snd (PeerSender_send tn s payload))"
    and "length payload < AEAD_P_MAX \<Longrightarrow> tunnel_ok E (snd (PeerSender_try_send tn s payload))"
    and "tunnel_ok E (snd (PeerSender_connect tn s endpoint))"
proof -
  show "length payload < AEAD_P_MAX \<Longrightarrow> tunnel_ok E (snd (PeerSender_send tn s payload))"
    "tunnel_ok E (snd (PeerSender_connect tn s endpoint))"
    using assms by (auto simp: PeerSender_send_def PeerSender_connect_def intro: send_action_ok split: sum.split)
  have "tunnel_ok E (tn\<lparr>tn_router := snd (try_send (tn_router tn) ch (SendData payload))\<rparr>)"
    if "length payload < AEAD_P_MAX" for ch
    by (rule tunnel_ok_enqueued [OF assms]) (use assms that in \<open>simp_all add: enqueued_try_send tunnel_ok_def\<close>)
  then show "length payload < AEAD_P_MAX \<Longrightarrow> tunnel_ok E (snd (PeerSender_try_send tn s payload))"
    using assms by (simp add: PeerSender_try_send_def case_prod_unfold Let_def split: sum.split)
qed

lemma set_peer_ok:
  assumes "tunnel_ok E tn" and "update_ok update"
  shows "tunnel_ok E (snd (Tunnel_set_peer tn key update))"
proof (rule tunnel_ok_enqueued [OF assms(1)])
  show "enqueued (tn_router tn) (tn_router (snd (Tunnel_set_peer tn key update))) (\<lambda>_. action_ok)"
    using assms(2) enqueued_send [of "Update update" "tn_router tn"]
    by (simp add: Tunnel_set_peer_def RoutingTable_set_peer_def case_prod_unfold Let_def split: option.split)
qed (use assms(1) in \<open>simp_all add: Tunnel_set_peer_def case_prod_unfold Let_def tunnel_ok_def\<close>)

lemma drop_peer_ok:
  assumes "tunnel_ok E tn"
  shows "tunnel_ok E (Peer_drop tn h)"
proof -
  have "routes_ok (remove_peer (tn_router tn) key, rl_indices (tn_read tn))" for key
    using assms by (intro routes_ok_remove) (simp add: tunnel_ok_def)
  then show ?thesis using assms
    by (auto simp: Peer_drop_def tunnel_ok_def remove_peer_def split: option.splits if_splits)
qed

lemma add_peer_ok:
  assumes C: "crypto_ok C" and ok: "tunnel_ok E tn"
    and k: "\<forall>i. pc_persistent_keepalive config = Some i \<longrightarrow> i \<le> KEEPALIVE_MAX"
  shows "tunnel_ok E (snd (Tunnel_add_peer C tn key config))"
proof (cases "register_peer (tn_router tn) key")
  case (Pair r rt)
  show ?thesis
  proof (cases r)
    case None
    then have "rt = tn_router tn" using Pair by (auto simp: register_peer_def Let_def split: if_splits)
    then show ?thesis using None Pair ok by (simp add: Tunnel_add_peer_def)
  next
    case (Some ch)
    let ?actor = "spawn C (tn_our_key tn) key config (rt_statuses rt ch) :: 'a PeerActor"
    let ?tn = "tn\<lparr>tn_router := rt, tn_actors := (tn_actors tn)(ch \<mapsto> ?actor),
      tn_session := (tn_session tn)(ch := pa_session_tx ?actor)\<rparr>"
    have "routes_ok (rt, rl_indices (tn_read tn))"
      using routes_ok_register [of "tn_router tn" "rl_indices (tn_read tn)" key] ok Pair by (simp add: tunnel_ok_def)
    then have "tunnel_ok E ?tn"
      using ok spawn_ok [OF C k, of "E ch" "tn_our_key tn" key "rt_statuses rt ch"] Pair Some
      by (auto simp: tunnel_ok_def register_peer_def Let_def split: if_splits)
    then show ?thesis using Pair Some
      by (simp add: Tunnel_add_peer_def Let_def Peer_connect_def sender_calls_ok(3) split: option.split)
  qed
qed

section \<open>Tasks\<close>

lemma addressed_ok: "addressed C T l rt ch addr segment action \<Longrightarrow> action_ok action"
  by (cases action) (simp_all add: addressed_def)

lemma read_round_ok:
  assumes C: "crypto_ok C" and N: "net_env_ok N" and ok: "tunnel_ok E tn" and ev: "round_enabled tn event"
  shows "\<exists>l rt. read_loop C T N (tn_read tn, tn_router tn) event = Some (l, rt) \<and>
    tunnel_ok E (tn\<lparr>tn_read := l, tn_router := rt\<rparr>)"
proof (cases event)
  case RoutingUpdate
  show ?thesis
  proof (cases "rt_control (tn_router tn)")
    case Nil
    then show ?thesis using RoutingUpdate ok by simp
  next
    case (Cons c cs)
    have "routes_ok ((tn_router tn)\<lparr>rt_control := cs\<rparr>, IndexRouter_apply (rl_indices (tn_read tn)) c (tn_router tn))"
      by (rule routes_ok_apply) (use ok Cons in \<open>simp_all add: tunnel_ok_def\<close>)
    then show ?thesis using RoutingUpdate Cons ok by (simp add: tunnel_ok_def)
  qed
next
  case RecvError
  then show ?thesis using ok by simp
next
  case (Received bufs metas n)
  let ?msgs = "messages (take n (zip bufs metas))"
  have g: "LoadGuard_ok (rl_guard (tn_read tn))" using ok by (simp add: tunnel_ok_def)
  obtain l rt where 1: "process_all C T N (tn_read tn, tn_router tn) ?msgs = Some (l, rt)"
      "rl_kept (tn_read tn) (length ?msgs) l"
      "enqueued (tn_router tn) rt
        (\<lambda>ch action. \<exists>(addr, segment) \<in> set ?msgs. addressed C T (tn_read tn) (tn_router tn) ch addr segment action)"
    using process_all_ok [OF C N g] ev Received by fastforce
  have "enqueued (tn_router tn) rt (\<lambda>_. action_ok)"
    by (rule enqueued_mono [OF 1(3)]) (auto dest: addressed_ok)
  then have "tunnel_ok E (tn\<lparr>tn_read := l, tn_router := rt\<rparr>)"
    by (intro tunnel_ok_enqueued [OF ok]) (use 1(2) in \<open>simp_all add: rl_kept_def\<close>)
  moreover have "list_all meta_ok (take n (zip bufs metas))" using ev Received by simp
  ultimately show ?thesis using 1(1) Received by (simp add: batch_loop_eq)
qed

lemma routes_ok_emits:
  "routes_ok (rt, ir) \<Longrightarrow> \<forall>c \<in> set cs. \<forall>ch. c \<noteq> Purge ch \<Longrightarrow> rt_peers rt' = rt_peers rt \<Longrightarrow>
     rt_control rt' = rt_control rt @ cs \<Longrightarrow> rt_next_chan rt' = rt_next_chan rt \<Longrightarrow> routes_ok (rt', ir)"
  by (auto simp: routes_ok_def)

lemma actor_round_ok:
  assumes C: "crypto_ok C" and T: "tai_ok T" and E: "env_ok (E ch)" and ok: "tunnel_ok E tn"
    and a: "tn_actors tn ch = Some a" and q: "taken_from (rt_queues (tn_router tn) ch) event" and d: "due (E ch) a event"
    and room: "inbound_fits C T (E ch) tn a event"
  shows "\<exists>tn'. actor_step C T (E ch) tn ch event = Some tn' \<and> tunnel_ok E tn'"
proof -
  let ?queue = "rt_queues (tn_router tn) ch"
  have queue: "list_all action_ok ?queue" "length ?queue \<le> PEER_ACTION_QUEUE_CAPACITY"
    using ok by (simp_all add: tunnel_ok_def)
  have "enabled (E ch) a event"
  proof (cases event)
    case (Actions actions)
    then show ?thesis using q queue(1) by (auto simp: list_all_iff) (metis in_set_takeD)
  qed (use d in simp_all)
  moreover have "actor_ok (E ch) a" using ok a by (simp add: tunnel_ok_def)
  ultimately obtain b where b: "iteration C T (E ch) a event = Some b" "actor_ok (E ch) b"
    using iteration_ok [OF C T E] by blast
  have "length (pa_inbound a) \<le> length (pa_inbound b)"
    using grows_iteration [OF b(1)] by (simp add: grows_def prefix_length_le)
  then have inbound: "length (tn_inbound tn) + length (drop (length (pa_inbound a)) (pa_inbound b)) \<le> INBOUND_QUEUE_CAPACITY"
    using room b(1) by (simp add: inbound_fits_def)
  have emitted: "\<forall>c \<in> set (drop (length (pa_control a)) (pa_control b)). \<forall>ch. c \<noteq> Purge ch"
    using b(2) by (fastforce simp: actor_ok_def balanced_def control_for_def dest: in_set_dropD)
  have "routes_ok (tn_router tn, rl_indices (tn_read tn))" using ok by (simp add: tunnel_ok_def)
  then have routes: "routes_ok (tn_router (publish tn ch q a b), rl_indices (tn_read tn))" for q
    by (rule routes_ok_emits [OF _ emitted]) (simp_all add: publish_def Let_def)
  have left: "list_all action_ok (left_in_queue event ?queue)"
      "length (left_in_queue event ?queue) \<le> PEER_ACTION_QUEUE_CAPACITY"
    using queue by (cases event; auto simp: list_all_iff dest: in_set_dropD)+
  have "tunnel_ok E (publish tn ch (left_in_queue event ?queue) a b)"
    using ok b(2) routes [of "left_in_queue event ?queue"] left inbound by (auto simp: tunnel_ok_def publish_def Let_def)
  then show ?thesis using a b(1) by (simp add: actor_step_def)
qed

lemma tunnel_step_ok:
  assumes C: "crypto_ok C" and T: "tai_ok T" and N: "net_env_ok N" and E: "\<forall>ch. env_ok (E ch)"
    and ok: "tunnel_ok E tn" and ev: "tunnel_enabled C T E tn event"
  shows "\<exists>tn'. tunnel_step C T N E tn event = Some tn' \<and> tunnel_ok E tn'"
proof (cases event)
  case (ReadRound e)
  then show ?thesis using read_round_ok [OF C N ok, of e T] ev by auto
next
  case (ActorRound ch e)
  then show ?thesis using actor_round_ok [OF C T E [rule_format] ok] ev by auto
next
  case (ActorExit ch)
  then show ?thesis using ok ev by (auto simp: tunnel_ok_def orphan_def ran_def)
next
  case RecvPacket
  then show ?thesis using ok by (auto simp: Tunnel_recv_def tunnel_ok_def split: list.split)
next
  case (CancelSend ch)
  then show ?thesis using ok by (simp add: cancel_action_def tunnel_ok_def)
next
  case DropTunnel
  then show ?thesis using ok by (simp add: Tunnel_drop_def tunnel_ok_def routes_ok_def)
qed (use ev in \<open>simp_all add: add_peer_ok [OF C ok] drop_peer_ok [OF ok] set_peer_ok [OF ok] sender_calls_ok [OF ok]
    resume_action_ok [OF ok]\<close>)

section \<open>Reachable tunnels\<close>

definition tunnel_reachable ::
  "crypto \<Rightarrow> ('ts::linorder) tai \<Rightarrow> net_env \<Rightarrow> (chan \<Rightarrow> 'ts env) \<Rightarrow> 'ts Tunnel \<Rightarrow> bool" where
  "tunnel_reachable C T N E tn \<longleftrightarrow> (\<exists>our_key secret. length secret = 32 \<and>
     tunnel_reaches C T N E (Tunnel_start C N our_key secret) tn)"

lemma tunnel_start_ok:
  assumes "crypto_ok C" and "length secret = 32"
  shows "tunnel_ok E (Tunnel_start C N our_key secret)"
  using assms Verifier_ok_new [OF assms(1)]
  by (simp add: tunnel_ok_def Tunnel_start_def Tunnel_start_with_guard_def routes_ok_def RoutingTable_new_def
      read_loop_start_def IndexRouter_new_def LoadGuard_ok_def LoadGuard_new_def)

interpretation tunnels: guarded "tunnel_step C T N E" "tunnel_enabled C T E"
    "\<lambda>tn. crypto_ok C \<and> tai_ok T \<and> net_env_ok N \<and> (\<forall>ch. env_ok (E ch)) \<and> tunnel_ok E tn"
  by unfold_locales (use tunnel_step_ok in fastforce)

lemma tunnel_reachable_ok:
  assumes "crypto_ok C" and "tai_ok T" and "net_env_ok N" and "\<forall>ch. env_ok (E ch)" and "tunnel_reachable C T N E tn"
  shows "tunnel_ok E tn"
  using assms tunnels.reach_ok [of C T N E _ tn] tunnel_start_ok [OF assms(1)] unfolding tunnel_reachable_def by blast

lemma tunnel_reachable_step:
  "tunnel_reachable C T N E tn \<Longrightarrow> tunnel_enabled C T E tn event \<Longrightarrow> tunnel_step C T N E tn event = Some tn' \<Longrightarrow>
     tunnel_reachable C T N E tn'"
  unfolding tunnel_reachable_def by (meson reach.step)

section \<open>Removed peers\<close>

text \<open>A channel that was used and that neither the registry nor a waiting call refers to any more.\<close>

definition gone :: "chan \<Rightarrow> 'ts Tunnel \<Rightarrow> bool" where
  "gone ch tn \<longleftrightarrow> ch < rt_next_chan (tn_router tn) \<and> (\<forall>key. rt_peers (tn_router tn) key \<noteq> Some ch) \<and>
     ch \<notin> set (tn_held tn)"

lemma gone_entry: "gone ch tn \<Longrightarrow> PeerSender_entry tn s = Inr ch' \<Longrightarrow> ch' \<noteq> ch"
  by (auto simp: gone_def PeerSender_entry_def entry_def split: if_splits)

lemma send_keeps:
  "rt_peers (snd (send rt ch action)) = rt_peers rt" "rt_next_chan (snd (send rt ch action)) = rt_next_chan rt"
  by (simp_all add: snd_send try_send_def)

lemma gone_send_action: "gone ch tn \<Longrightarrow> ch' \<noteq> ch \<Longrightarrow> gone ch (snd (send_action tn ch' action))"
  using send_keeps [of "tn_router tn" ch' action]
  by (auto simp: gone_def send_action_def split: prod.splits poll.splits)

lemma gone_resume: "gone ch tn \<Longrightarrow> gone ch (snd (resume_action tn ch' action))"
  using send_keeps [of "tn_router tn" ch' action]
  by (auto simp: gone_def resume_action_def split: prod.splits poll.splits dest: notin_set_remove1)

lemma gone_calls:
  assumes "gone ch tn"
  shows "gone ch (snd (PeerSender_send tn s payload))" "gone ch (snd (PeerSender_connect tn s endpoint))"
    "gone ch (snd (PeerSender_try_send tn s payload))" "gone ch (snd (Tunnel_set_peer tn key update))"
proof -
  show "gone ch (snd (PeerSender_send tn s payload))" "gone ch (snd (PeerSender_connect tn s endpoint))"
    using assms gone_entry [OF assms, of s] gone_send_action [OF assms]
    by (auto simp: PeerSender_send_def PeerSender_connect_def split: sum.split)
  show "gone ch (snd (PeerSender_try_send tn s payload))"
    using assms by (auto simp: PeerSender_try_send_def gone_def try_send_def Let_def split: sum.split)
  show "gone ch (snd (Tunnel_set_peer tn key update))"
    using assms send_keeps [of "tn_router tn"]
    by (auto simp: Tunnel_set_peer_def RoutingTable_set_peer_def gone_def Let_def entry_def case_prod_unfold
        split: option.split poll.split)
qed

lemma gone_add_peer:
  assumes "gone ch tn"
  shows "gone ch (snd (Tunnel_add_peer C tn key config))"
proof (cases "rt_peers (tn_router tn) key")
  case None
  let ?ch = "rt_next_chan (tn_router tn)"
  have "gone ch tn'" if "rt_peers (tn_router tn') = (rt_peers (tn_router tn))(key \<mapsto> ?ch)"
      "rt_next_chan (tn_router tn') = ?ch + 1" "tn_held tn' = tn_held tn" for tn' :: "'a Tunnel"
    using that assms by (auto simp: gone_def)
  then show ?thesis using None
    by (auto simp: Tunnel_add_peer_def register_peer_def Let_def Peer_connect_def split: option.split intro!: gone_calls(2))
next
  case (Some c)
  then show ?thesis using assms by (simp add: Tunnel_add_peer_def register_peer_def domI)
qed

lemma read_loop_keeps:
  assumes "crypto_ok C" and "net_env_ok N" and "tunnel_ok E tn" and "round_enabled tn event"
    and "read_loop C T N (tn_read tn, tn_router tn) event = Some (l, rt)"
  shows "rt_peers rt = rt_peers (tn_router tn) \<and> rt_next_chan rt = rt_next_chan (tn_router tn)"
proof (cases event)
  case (Received bufs metas n)
  then have r: "process_all C T N (tn_read tn, tn_router tn) (messages (take n (zip bufs metas))) = Some (l, rt)"
    using assms(4,5) by (simp add: batch_loop_eq)
  have "LoadGuard_ok (rl_guard (tn_read tn))" using assms(3) by (simp add: tunnel_ok_def)
  from process_all_ok [OF assms(1,2) this, of "messages (take n (zip bufs metas))" T "tn_router tn"]
  show ?thesis using r assms(4) Received by (auto simp: enqueued_def)
qed (use assms(5) in \<open>auto split: list.splits\<close>)

lemma tunnel_step_gone:
  assumes C: "crypto_ok C" and N: "net_env_ok N" and ok: "tunnel_ok E tn" and g: "gone ch tn"
    and ev: "tunnel_enabled C T E tn event" and st: "tunnel_step C T N E tn event = Some tn'"
  shows "gone ch tn'"
proof (cases event)
  case (ReadRound e)
  then show ?thesis using st g read_loop_keeps [OF C N ok, of e T] ev by (auto simp: gone_def split: bind_splits)
next
  case (ActorRound c e)
  then show ?thesis using st g by (auto simp: actor_step_def publish_def Let_def gone_def split: bind_splits)
next
  case (DropPeer h)
  then show ?thesis using st g by (auto simp: Peer_drop_def remove_peer_def gone_def split: option.splits if_splits)
next
  case (CancelSend c)
  then show ?thesis using st g by (auto simp: cancel_action_def gone_def dest: notin_set_remove1)
next
  case RecvPacket
  then show ?thesis using st g by (auto simp: Tunnel_recv_def gone_def split: list.splits)
next
  case DropTunnel
  then show ?thesis using st g by (auto simp: Tunnel_drop_def gone_def)
next
  case (ActorExit c)
  then show ?thesis using st g by (auto simp: gone_def)
qed (use st gone_calls [OF g] gone_add_peer [OF g] gone_resume [OF g] in auto)

lemma tunnel_reaches_gone:
  assumes "crypto_ok C" and "tai_ok T" and "net_env_ok N" and "\<forall>ch. env_ok (E ch)"
  shows "tunnel_reaches C T N E tn tn' \<Longrightarrow> tunnel_ok E tn \<Longrightarrow> gone ch tn \<Longrightarrow> gone ch tn'"
  by (rule tunnels.reach_keeps [of C T N E "gone ch"]) (use assms tunnel_step_gone [OF assms(1,3)] in blast)+

section \<open>Properties\<close>

definition ex_tunnel :: "u64 Tunnel" where
  "ex_tunnel = Tunnel_start ex_crypto ex_net_env (ex_key 5) (ex_key 6)"

definition ex_added :: "u64 Tunnel" where
  "ex_added = snd (Tunnel_add_peer ex_crypto ex_tunnel [1] ex_config)"

lemma ex_config_keepalive: "\<forall>i. pc_persistent_keepalive ex_config = Some i \<longrightarrow> i \<le> KEEPALIVE_MAX"
  by (simp add: ex_config_def KEEPALIVE_MAX_def from_secs_def)

lemma ex_tunnel_reachable: "tunnel_reachable ex_crypto ex_tai ex_net_env (\<lambda>_. ex_env) ex_tunnel"
  unfolding tunnel_reachable_def ex_tunnel_def by (rule exI [of _ "ex_key 5"], rule exI [of _ "ex_key 6"]) (simp add: reach.start)

lemma ex_added_reachable: "tunnel_reachable ex_crypto ex_tai ex_net_env (\<lambda>_. ex_env) ex_added"
  by (rule tunnel_reachable_step [OF ex_tunnel_reachable, of "AddPeer [1] ex_config"])
    (use ex_config_keepalive in \<open>simp_all add: ex_added_def ex_tunnel_def Tunnel_start_def Tunnel_start_with_guard_def\<close>)



text \<open>
  C31: a handle never reaches a later registration. After a peer's handle is dropped (and no
  call on it is waiting), every send, connect and status call through its senders fails with
  \<open>PeerRemoved\<close>, or \<open>TunnelClosed\<close> if the tunnel is gone too, and changes nothing, whatever happens in
  the meantime, the registration of the same key again included.
\<close>

theorem removed_peer_handles_fail:
  assumes "crypto_ok C" and "tai_ok T" and "net_env_ok N" and "\<forall>ch. env_ok (E ch)"
    and "tunnel_reachable C T N E tn" and "tn_alive tn"
    and "entry (tn_router tn) (ps_public_key (hd_sender h)) = Some (ps_chan (hd_sender h))"
    and "ps_chan (hd_sender h) \<notin> set (tn_held tn)"
    and "tunnel_reaches C T N E (Peer_drop tn h) tn'"
    and "e = (if tn_alive tn' then PeerRemoved else TunnelClosed)"
  shows "PeerSender_send tn' (hd_sender h) payload = (Ready (Inl e), tn') \<and>
    PeerSender_try_send tn' (hd_sender h) payload = (Inl e, tn') \<and>
    PeerSender_connect tn' (hd_sender h) endpoint = (Ready (Inl e), tn') \<and>
    PeerSender_status tn' (hd_sender h) = None"
proof -
  let ?s = "hd_sender h"
  have ok: "tunnel_ok E tn" using tunnel_reachable_ok [OF assms(1-5)] .
  then have "routes_ok (tn_router tn, rl_indices (tn_read tn))" by (simp add: tunnel_ok_def)
  note r = routes_okD(1,2) [OF this]
  have "gone (ps_chan ?s) (Peer_drop tn h)"
    using assms(6-8) r by (auto simp: gone_def Peer_drop_def remove_peer_def entry_def)
  then have "gone (ps_chan ?s) tn'" using tunnel_reaches_gone [OF assms(1-4,9) drop_peer_ok [OF ok]] by blast
  then have "PeerSender_entry tn' ?s = Inl e"
    by (auto simp: PeerSender_entry_def gone_def entry_def assms(10))
  then show ?thesis
    by (simp add: PeerSender_send_def PeerSender_try_send_def PeerSender_connect_def PeerSender_status_def)
qed

theorem removed_peer_handles_fail_witness:
  "PeerSender_try_send (snd (Tunnel_add_peer ex_crypto (Peer_drop ex_added (Peer_handle_new [1] 0)) [1] ex_config))
     \<lparr>ps_public_key = [1], ps_chan = 0\<rparr> [1, 2, 3] =
   (Inl PeerRemoved, snd (Tunnel_add_peer ex_crypto (Peer_drop ex_added (Peer_handle_new [1] 0)) [1] ex_config))"
proof -
  let ?h = "Peer_handle_new [1] 0"
  let ?tn' = "snd (Tunnel_add_peer ex_crypto (Peer_drop ex_added ?h) [1] ex_config)"
  have added: "tn_alive ex_added" "tn_held ex_added = []" "rt_peers (tn_router ex_added) = [[1] \<mapsto> 0]"
      "rt_next_chan (tn_router ex_added) = 1"
    by (simp_all add: ex_added_def ex_tunnel_def Tunnel_start_def Tunnel_start_with_guard_def Tunnel_add_peer_def
        RoutingTable_new_def register_peer_def Let_def ex_config_def)
  then have alive: "tn_alive (Peer_drop ex_added ?h)" "tn_alive ?tn'"
    by (simp_all add: Peer_drop_def Tunnel_add_peer_def register_peer_def remove_peer_def Let_def ex_config_def Peer_handle_new_def)
  have "tunnel_reaches ex_crypto ex_tai ex_net_env (\<lambda>_. ex_env) (Peer_drop ex_added ?h) ?tn'"
    by (rule reach_one [of _ _ "AddPeer [1] ex_config"])
      (use alive ex_config_keepalive in simp_all)
  then show ?thesis
    using removed_peer_handles_fail [OF ex_crypto_ok ex_tai_ok ex_loop_ok(1) _ ex_added_reachable added(1), of ?h ?tn' PeerRemoved]
      added alive by (simp add: Peer_handle_new_def entry_def)
qed

end
