(* ===== verification/Device_Runs.thy ===== *)
theory Device_Runs
  imports Device Tunnel_Runs
begin

text \<open>
  What the device guarantees: the packets it sends and returns, and the agreement of its peers,
  its prefixes and the registry of the tunnel in every state it can reach.
\<close>

section \<open>IP packets\<close>

definition packet_info_v4 :: "bytes \<Rightarrow> PacketInfo" where
  "packet_info_v4 p =
     \<lparr>pi_source = v4_from [p ! 12, p ! 13, p ! 14, p ! 15], pi_destination = v4_from [p ! 16, p ! 17, p ! 18, p ! 19],
      pi_len = unat (of_be_bytes [p ! 2, p ! 3] :: u16)\<rparr>"

definition packet_info_v6 :: "bytes \<Rightarrow> PacketInfo" where
  "packet_info_v6 p =
     \<lparr>pi_source = v6_from (sub p 8 24), pi_destination = v6_from (sub p 24 40),
      pi_len = 40 + unat (of_be_bytes [p ! 4, p ! 5] :: u16)\<rparr>"

text \<open>A packet is well formed if its header is complete and its length field lies within it.\<close>

definition well_formed :: "bytes \<Rightarrow> PacketInfo \<Rightarrow> bool" where
  "well_formed p info \<longleftrightarrow>
     20 \<le> length p \<and> drop_bit 4 (p ! 0) = 4 \<and> info = packet_info_v4 p \<and> 20 \<le> unat (p ! 0 AND 0x0F) * 4 \<and>
       unat (p ! 0 AND 0x0F) * 4 \<le> pi_len info \<and> pi_len info \<le> length p \<or>
     40 \<le> length p \<and> drop_bit 4 (p ! 0) = 6 \<and> info = packet_info_v6 p \<and> pi_len info \<le> length p"

lemma v6_eq: "length bytes = 16 \<Longrightarrow> v6 bytes = Some (v6_from bytes)"
  by (simp add: v6_def copy_into_def patch_def)

lemma packet_info_iff: "packet_info p = Some (Some info) \<longleftrightarrow> well_formed p info"
proof (cases p)
  case Nil
  then show ?thesis by (simp add: packet_info_def well_formed_def)
next
  case (Cons b bs)
  then show ?thesis
    by (auto simp: packet_info_def Let_def ipv4_info_def ipv6_info_def v6_eq buf_simps well_formed_def
        packet_info_v4_def packet_info_v6_def)
qed

lemma packet_info_total: "\<exists>r. packet_info p = Some r"
  by (cases p) (auto simp: packet_info_def Let_def ipv4_info_def ipv6_info_def v6_eq buf_simps)

lemma well_formed_len: "well_formed p info \<Longrightarrow> 20 \<le> pi_len info \<and> pi_len info \<le> length p"
  by (auto simp: well_formed_def packet_info_v6_def)

lemma well_formed_same:
  assumes w: "well_formed p info" and t: "take (pi_len info) q = take (pi_len info) p" and l: "pi_len info \<le> length q"
  shows "well_formed q info"
proof -
  have n: "q ! i = p ! i" if "i < pi_len info" for i using t that by (metis nth_take)
  have s: "sub q a b = sub p a b" if "a \<le> b" "b \<le> pi_len info" for a b
    using arg_cong [OF t, of "\<lambda>xs. sub xs a b"] that by (simp add: sub_def take_drop min_def)
  from w show ?thesis
  proof (unfold well_formed_def, elim disjE conjE, goal_cases)
    case 1
    then have "20 \<le> pi_len info" by linarith
    then show ?case using 1 l by (simp add: n packet_info_v4_def)
  next
    case 2
    then have "40 \<le> pi_len info" by (simp add: packet_info_v6_def)
    then show ?case using 2 l by (simp add: n s packet_info_v6_def)
  qed
qed

section \<open>Padding\<close>

lemma next_multiple_of_bounds: "n \<le> next_multiple_of n 16 \<and> next_multiple_of n 16 < n + 16 \<and> next_multiple_of n 16 mod 16 = 0"
  unfolding next_multiple_of_def by presburger

lemma pad_packet_eq:
  "length p \<le> max_size \<Longrightarrow>
     pad_packet p max_size = (True, p @ replicate (min (next_multiple_of (length p) 16) max_size - length p) 0)"
  using next_multiple_of_bounds [of "length p"] by (simp add: pad_packet_def Let_def resize_def min_def)

text \<open>The packet that goes to the tunnel: cut to its length and padded.\<close>

definition padded :: "bytes \<Rightarrow> nat \<Rightarrow> nat \<Rightarrow> bytes" where
  "padded packet len max_size = take len packet @ replicate (min (next_multiple_of len 16) max_size - len) 0"

lemma prepare_outbound_ok:
  assumes w: "well_formed packet info" and l: "pi_len info \<le> dv_max_packet_size d"
  shows "prepare_outbound_packet d packet =
    Some (Some (pi_destination info), padded packet (pi_len info) (dv_max_packet_size d))"
proof -
  have "packet_info packet = Some (Some info)" "length (take (pi_len info) packet) = pi_len info"
    using w well_formed_len [OF w] by (simp_all add: packet_info_iff)
  then show ?thesis using l pad_packet_eq [of "take (pi_len info) packet" "dv_max_packet_size d"]
    by (simp add: prepare_outbound_packet_def padded_def)
qed

lemma prepare_outbound_drop:
  assumes "\<forall>info. well_formed packet info \<longrightarrow> dv_max_packet_size d < pi_len info"
  shows "\<exists>p. prepare_outbound_packet d packet = Some (None, p)"
proof -
  obtain r where r: "packet_info packet = Some r" using packet_info_total by blast
  show ?thesis
  proof (cases r)
    case (Some info)
    then have "well_formed packet info" using r by (simp add: packet_info_iff)
    then show ?thesis using Some r assms well_formed_len [of packet info]
      by (simp add: prepare_outbound_packet_def pad_packet_def)
  qed (simp add: r prepare_outbound_packet_def)
qed

lemma padded_props:
  assumes "len \<le> length packet" and "len \<le> max_size"
  shows "take len (padded packet len max_size) = take len packet" "len \<le> length (padded packet len max_size)"
    "length (padded packet len max_size) = min (next_multiple_of len 16) max_size"
  using assms next_multiple_of_bounds [of len] by (simp_all add: padded_def)

section \<open>Inbound packets\<close>

text \<open>A packet the device returns: well formed, and its source is routed to the peer it came from.\<close>

definition accepts :: "'net ipnet \<Rightarrow> ('net, 'ts) Device \<Rightarrow> Packet \<Rightarrow> bytes \<Rightarrow> bool" where
  "accepts N d packet payload \<longleftrightarrow> (\<exists>info sender. well_formed (pk_payload packet) info \<and>
     longest_match N (dv_allowed_ips d) (pi_source info) = Some sender \<and>
     ps_public_key sender = pk_public_key packet \<and> payload = take (pi_len info) (pk_payload packet))"

definition with_inbound :: "('net, 'ts) Device \<Rightarrow> Packet list \<Rightarrow> ('net, 'ts) Device" where
  "with_inbound d ps = d\<lparr>dv_tunnel := (dv_tunnel d)\<lparr>tn_inbound := ps\<rparr>\<rparr>"

lemma accepts_with_inbound [simp]: "accepts N (with_inbound d ps) = accepts N d"
  by (simp add: fun_eq_iff accepts_def with_inbound_def)

lemma recv_packet_Nil: "tn_inbound (dv_tunnel d) = [] \<Longrightarrow> recv_packet N d = Some (Pending, d)"
  by (simp add: recv_packet.simps Tunnel_recv_def)

lemma recv_packet_Cons:
  assumes "tn_inbound (dv_tunnel d) = packet # rest"
  shows "accepts N d packet payload \<Longrightarrow> recv_packet N d = Some (Ready payload, with_inbound d rest)"
    and "(\<And>payload. \<not> accepts N d packet payload) \<Longrightarrow> recv_packet N d = recv_packet N (with_inbound d rest)"
proof -
  have recv: "Tunnel_recv (dv_tunnel d) = (Ready packet, (dv_tunnel d)\<lparr>tn_inbound := rest\<rparr>)"
    using assms by (simp add: Tunnel_recv_def)
  note step = recv_packet.simps [of N d] recv with_inbound_def
  obtain r where r: "packet_info (pk_payload packet) = Some r" using packet_info_total by blast
  show "recv_packet N d = Some (Ready payload, with_inbound d rest)" if a: "accepts N d packet payload"
  proof -
    obtain info sender where "packet_info (pk_payload packet) = Some (Some info)"
      "longest_match N (dv_allowed_ips d) (pi_source info) = Some sender" "ps_public_key sender = pk_public_key packet"
      "payload = take (pi_len info) (pk_payload packet)"
      using a by (auto simp: accepts_def packet_info_iff)
    then show ?thesis by (simp add: step)
  qed
  show "recv_packet N d = recv_packet N (with_inbound d rest)" if n: "\<And>payload. \<not> accepts N d packet payload"
  proof (cases r)
    case None
    then show ?thesis using r by (simp add: step)
  next
    case (Some info)
    then have "well_formed (pk_payload packet) info" using r by (simp add: packet_info_iff)
    then have "\<not> is_some_and (longest_match N (dv_allowed_ips d) (pi_source info))
        (\<lambda>sender. ps_public_key sender = pk_public_key packet)"
      using n unfolding accepts_def is_some_and_iff by blast
    then show ?thesis using r Some by (simp add: step)
  qed
qed

lemma recv_packet_spec:
  "\<exists>r ps. recv_packet N d = Some (r, with_inbound d ps) \<and>
     (case r of
        Pending \<Rightarrow> ps = [] \<and> (\<forall>packet \<in> set (tn_inbound (dv_tunnel d)). \<forall>payload. \<not> accepts N d packet payload)
      | Ready payload \<Rightarrow> \<exists>skipped packet. tn_inbound (dv_tunnel d) = skipped @ packet # ps \<and>
          accepts N d packet payload \<and> (\<forall>q \<in> set skipped. \<forall>payload. \<not> accepts N d q payload))"
proof (induction "tn_inbound (dv_tunnel d)" arbitrary: d)
  case Nil
  have "with_inbound d [] = d" using Nil by (simp add: with_inbound_def)
  then show ?case using Nil recv_packet_Nil [of d N] by (intro exI [of _ Pending] exI [of _ "[]"]) simp
next
  case (Cons packet rest)
  show ?case
  proof (cases "\<exists>payload. accepts N d packet payload")
    case True
    then obtain payload where a: "accepts N d packet payload" by blast
    then have "recv_packet N d = Some (Ready payload, with_inbound d rest)"
      using recv_packet_Cons(1) [OF Cons(2) [symmetric]] by blast
    moreover have "tn_inbound (dv_tunnel d) = [] @ packet # rest" using Cons(2) by simp
    ultimately show ?thesis using a by (intro exI [of _ "Ready payload"] exI [of _ rest]) fastforce
  next
    case False
    let ?d = "with_inbound d rest"
    have eq: "recv_packet N d = recv_packet N ?d" using False recv_packet_Cons(2) [OF Cons(2) [symmetric]] by blast
    have inb: "tn_inbound (dv_tunnel ?d) = rest" "with_inbound ?d ps = with_inbound d ps" for ps
      by (simp_all add: with_inbound_def)
    obtain r ps where rp: "recv_packet N ?d = Some (r, with_inbound d ps)"
      "case r of
        Pending \<Rightarrow> ps = [] \<and> (\<forall>packet \<in> set rest. \<forall>payload. \<not> accepts N d packet payload)
      | Ready payload \<Rightarrow> \<exists>skipped packet. rest = skipped @ packet # ps \<and>
          accepts N d packet payload \<and> (\<forall>q \<in> set skipped. \<forall>payload. \<not> accepts N d q payload)"
      using Cons(1) [of ?d] unfolding inb accepts_with_inbound by blast
    show ?thesis
    proof (cases r)
      case Pending
      then show ?thesis using rp eq False Cons(2) [symmetric] by (intro exI [of _ Pending] exI [of _ ps]) auto
    next
      case (Ready payload)
      then obtain skipped q where "rest = skipped @ q # ps" "accepts N d q payload"
          "\<forall>q \<in> set skipped. \<forall>payload. \<not> accepts N d q payload" using rp(2) by auto
      then have "tn_inbound (dv_tunnel d) = (packet # skipped) @ q # ps" "accepts N d q payload"
          "\<forall>q \<in> set (packet # skipped). \<forall>payload. \<not> accepts N d q payload" using False Cons(2) by auto
      then show ?thesis using rp(1) eq Ready by (intro exI [of _ "Ready payload"] exI [of _ ps]) fastforce
    qed
  qed
qed

section \<open>Peers, prefixes and the registry agree\<close>

definition consistent :: "'net ipnet \<Rightarrow> ('net, 'ts) Device \<Rightarrow> bool" where
  "consistent N d \<longleftrightarrow> ipnet_ok N \<and> AllowedIps_ok N (dv_allowed_ips d) \<and> tn_alive (dv_tunnel d) \<and>
     dv_max_packet_size d \<le> MAX_PLAINTEXT_SIZE \<and>
     (\<forall>key. rt_peers (tn_router (dv_tunnel d)) key = map_option (\<lambda>h. ps_chan (hd_sender h)) (dv_peers d key)) \<and>
     (\<forall>key h. dv_peers d key = Some h \<longrightarrow> ps_public_key (hd_sender h) = key) \<and>
     (\<forall>s \<in> ran (AllowedIps_abs (dv_allowed_ips d)). \<exists>h. dv_peers d (ps_public_key s) = Some h \<and> hd_sender h = s)"

lemma consistentD:
  assumes "consistent N d"
  shows "ipnet_ok N" "AllowedIps_ok N (dv_allowed_ips d)" "tn_alive (dv_tunnel d)" "dv_max_packet_size d \<le> MAX_PLAINTEXT_SIZE"
    and "rt_peers (tn_router (dv_tunnel d)) key = map_option (\<lambda>h. ps_chan (hd_sender h)) (dv_peers d key)"
    and "dv_peers d key = Some h \<Longrightarrow> ps_public_key (hd_sender h) = key"
    and "s \<in> ran (AllowedIps_abs (dv_allowed_ips d)) \<Longrightarrow> \<exists>h. dv_peers d (ps_public_key s) = Some h \<and> hd_sender h = s"
  using assms by (simp_all add: consistent_def)

definition same_registry :: "'ts Tunnel \<Rightarrow> 'ts Tunnel \<Rightarrow> bool" where
  "same_registry tn tn' \<longleftrightarrow> rt_peers (tn_router tn') = rt_peers (tn_router tn) \<and> tn_alive tn' = tn_alive tn"

lemma consistent_tunnel: "consistent N d \<Longrightarrow> same_registry (dv_tunnel d) tn \<Longrightarrow> consistent N (d\<lparr>dv_tunnel := tn\<rparr>)"
  by (simp add: consistent_def same_registry_def)

lemma consistent_insert:
  assumes d: "consistent N d" and h: "dv_peers d (ps_public_key s) = Some h" "hd_sender h = s"
  shows "consistent N (insert_allowed_ips N d s nets)"
proof -
  let ?t = "foldl (\<lambda>t net. AllowedIps_insert N t net s) (dv_allowed_ips d) nets"
  have t: "ipnet_ok N \<and> AllowedIps_ok N (dv_allowed_ips d)" using d by (simp add: consistent_def)
  have owner: "\<exists>h. dv_peers d (ps_public_key v) = Some h \<and> hd_sender h = v"
    if "v \<in> ran (AllowedIps_abs (dv_allowed_ips d))" for v using d that by (simp add: consistent_def)
  have "\<exists>h. dv_peers d (ps_public_key v) = Some h \<and> hd_sender h = v" if "v \<in> ran (AllowedIps_abs ?t)" for v
  proof (cases "v = s")
    case False
    then have "v \<in> ran (AllowedIps_abs (dv_allowed_ips d))"
      using that unfolding allowed.abs_inserts [OF t] by (auto simp: ran_def split: if_splits)
    then show ?thesis by (rule owner)
  qed (use h in blast)
  then show ?thesis using d allowed.inv_inserts [OF t, of s nets] by (simp add: consistent_def insert_allowed_ips_def)
qed

lemma ran_restrict_values: "ran (restrict_values m keep) = {v \<in> ran m. keep v}"
  by (auto simp: ran_def restrict_values_Some)

lemma consistent_retain: "consistent N d \<Longrightarrow> consistent N (retain_others d key)"
  by (auto simp: consistent_def retain_others_def AllowedIps_retain_ok ran_restrict_values)

lemma consistent_update:
  assumes "consistent N d" and "dv_peers d key = Some h"
  shows "consistent N (update_allowed_ips N d key (hd_sender h) ips)"
proof -
  have "ps_public_key (hd_sender h) = key" "dv_peers (retain_others d key) = dv_peers d"
    using assms by (auto simp: consistent_def retain_others_def)
  then show ?thesis using assms consistent_retain [OF assms(1), of key] consistent_insert [of N "retain_others d key"]
    by (auto simp: update_allowed_ips_def split: Update.split)
qed

text \<open>Calls that leave the registry alone.\<close>

lemma same_registry_calls:
  "same_registry tn (snd (send_action tn ch action))" "same_registry tn (snd (resume_action tn ch action))"
  "same_registry tn (cancel_action tn ch)" "same_registry tn (snd (PeerSender_send tn s payload))"
  "same_registry tn (snd (PeerSender_try_send tn s payload))" "same_registry tn (snd (PeerSender_connect tn s endpoint))"
  "same_registry tn (snd (Tunnel_set_peer tn key update))" "same_registry tn (snd (Tunnel_recv tn))"
proof -
  show a: "same_registry tn (snd (send_action tn ch action))" for ch action
    using send_keeps(1) [of "tn_router tn" ch action]
    by (auto simp: same_registry_def send_action_def split: prod.splits poll.splits)
  show "same_registry tn (snd (resume_action tn ch action))"
    using send_keeps(1) [of "tn_router tn" ch action]
    by (auto simp: same_registry_def resume_action_def split: prod.splits poll.splits)
  show "same_registry tn (cancel_action tn ch)" by (simp add: same_registry_def cancel_action_def)
  show "same_registry tn (snd (PeerSender_send tn s payload))" "same_registry tn (snd (PeerSender_connect tn s endpoint))"
    using a by (auto simp: PeerSender_send_def PeerSender_connect_def same_registry_def split: sum.split)
  show "same_registry tn (snd (PeerSender_try_send tn s payload))"
    by (simp add: same_registry_def PeerSender_try_send_def try_send_def Let_def split: sum.split)
  show "same_registry tn (snd (Tunnel_set_peer tn key update))"
    using send_keeps(1) [of "tn_router tn"]
    by (auto simp: same_registry_def Tunnel_set_peer_def RoutingTable_set_peer_def Let_def case_prod_unfold split: option.split)
  show "same_registry tn (snd (Tunnel_recv tn))" by (simp add: same_registry_def Tunnel_recv_def split: list.split)
qed

lemma add_peer_registry:
  assumes "rt_peers (tn_router tn) key = None"
  shows "\<exists>tn'. Tunnel_add_peer C tn key config = (Inr (Peer_handle_new key (rt_next_chan (tn_router tn))), tn') \<and>
    rt_peers (tn_router tn') = (rt_peers (tn_router tn))(key \<mapsto> rt_next_chan (tn_router tn)) \<and> tn_alive tn' = tn_alive tn"
proof -
  let ?ch = "rt_next_chan (tn_router tn)"
  obtain rt where rt: "register_peer (tn_router tn) key = (Some ?ch, rt)"
      "rt_peers rt = (rt_peers (tn_router tn))(key \<mapsto> ?ch)"
    using assms by (simp add: register_peer_def Let_def domIff)
  show ?thesis using rt
    by (auto simp: Tunnel_add_peer_def Let_def Peer_connect_def same_registry_calls(6) [unfolded same_registry_def]
        split: option.split)
qed

section \<open>Steps of the device\<close>

datatype ('net, 'ts) device_event =
    DeviceAdd bytes "'net DevicePeerConfig"
  | DeviceSet bytes "'net DevicePeerUpdate"
  | DeviceSetResume bytes "'net DevicePeerUpdate"
  | DeviceConnect bytes SocketAddr
  | DeviceRemove bytes
  | DeviceSend bytes
  | DeviceTrySend bytes
  | DeviceRecv
  | Background "'ts tunnel_event"

text \<open>What goes on in the tunnel besides the calls of the device, which owns all handles.\<close>

fun background :: "'ts tunnel_event \<Rightarrow> bool" where
  "background (ReadRound _) \<longleftrightarrow> True"
| "background (ActorRound _ _) \<longleftrightarrow> True"
| "background (ActorExit _) \<longleftrightarrow> True"
| "background (ResumeSend _ _) \<longleftrightarrow> True"
| "background (CancelSend _) \<longleftrightarrow> True"
| "background _ \<longleftrightarrow> False"

fun device_step ::
  "'net ipnet \<Rightarrow> crypto \<Rightarrow> ('ts::linorder) tai \<Rightarrow> net_env \<Rightarrow> (chan \<Rightarrow> 'ts env) \<Rightarrow> ('net, 'ts) Device \<Rightarrow>
     ('net, 'ts) device_event \<Rightarrow> ('net, 'ts) Device option" where
  "device_step N C T NE E d (DeviceAdd key config) =
     Some (snd (Device_add_peer N C d key config :: (unit DeviceError + unit) \<times> ('net, 'ts) Device))"
| "device_step N C T NE E d (DeviceSet key update) =
     Some (snd (Device_set_peer N d key update :: (unit DeviceError + unit) poll \<times> ('net, 'ts) Device))"
| "device_step N C T NE E d (DeviceSetResume key update) =
     (case dv_peers d key of
        None \<Rightarrow> Some d
      | Some h \<Rightarrow> Some (snd (Device_set_peer_resume N d h update :: (unit DeviceError + unit) poll \<times> ('net, 'ts) Device)))"
| "device_step N C T NE E d (DeviceConnect key endpoint) =
     Some (snd (connect_peer d key endpoint :: (unit DeviceError + unit) poll \<times> ('net, 'ts) Device))"
| "device_step N C T NE E d (DeviceRemove key) = Some (snd (Device_remove_peer d key))"
| "device_step N C T NE E d (DeviceSend packet) = map_option snd (send_packet N d packet)"
| "device_step N C T NE E d (DeviceTrySend packet) = map_option snd (try_send_packet N d packet)"
| "device_step N C T NE E d DeviceRecv = map_option snd (recv_packet N d)"
| "device_step N C T NE E d (Background event) =
     map_option (\<lambda>tn. d\<lparr>dv_tunnel := tn\<rparr>) (tunnel_step C T NE E (dv_tunnel d) event)"

fun device_enabled ::
  "crypto \<Rightarrow> ('ts::linorder) tai \<Rightarrow> (chan \<Rightarrow> 'ts env) \<Rightarrow> ('net, 'ts) Device \<Rightarrow> ('net, 'ts) device_event \<Rightarrow> bool" where
  "device_enabled C T E d (DeviceAdd key config) \<longleftrightarrow>
     (\<forall>i. dpc_persistent_keepalive config = Some i \<longrightarrow> i \<le> KEEPALIVE_MAX)"
| "device_enabled C T E d (DeviceSet key update) \<longleftrightarrow>
     (\<forall>i. dpu_persistent_keepalive update = Set i \<longrightarrow> i \<le> KEEPALIVE_MAX)"
| "device_enabled C T E d (DeviceSetResume key update) \<longleftrightarrow>
     (\<forall>i. dpu_persistent_keepalive update = Set i \<longrightarrow> i \<le> KEEPALIVE_MAX)"
| "device_enabled C T E d (Background event) \<longleftrightarrow> background event \<and> tunnel_enabled C T E (dv_tunnel d) event"
| "device_enabled C T E d _ \<longleftrightarrow> True"

abbreviation device_reaches ::
  "'net ipnet \<Rightarrow> crypto \<Rightarrow> ('ts::linorder) tai \<Rightarrow> net_env \<Rightarrow> (chan \<Rightarrow> 'ts env) \<Rightarrow> ('net, 'ts) Device \<Rightarrow>
     ('net, 'ts) Device \<Rightarrow> bool" where
  "device_reaches N C T NE E \<equiv> reach (device_step N C T NE E) (device_enabled C T E)"

definition device_ok :: "'net ipnet \<Rightarrow> (chan \<Rightarrow> 'ts env) \<Rightarrow> ('net, 'ts) Device \<Rightarrow> bool" where
  "device_ok N E d \<longleftrightarrow> consistent N d \<and> tunnel_ok E (dv_tunnel d)"

lemma device_ok_tunnel:
  "device_ok N E d \<Longrightarrow> same_registry (dv_tunnel d) tn \<Longrightarrow> tunnel_ok E tn \<Longrightarrow> device_ok N E (d\<lparr>dv_tunnel := tn\<rparr>)"
  by (simp add: device_ok_def consistent_tunnel)

lemma allowed_peers_commute:
  "d\<lparr>dv_tunnel := t, dv_allowed_ips := a, dv_peers := p\<rparr> = d\<lparr>dv_tunnel := t, dv_peers := p, dv_allowed_ips := a\<rparr>"
  by (cases d) simp

lemma device_add_ok:
  assumes C: "crypto_ok C" and ok: "device_ok N E d"
    and k: "\<forall>i. dpc_persistent_keepalive config = Some i \<longrightarrow> i \<le> KEEPALIVE_MAX"
  shows "device_ok N E (snd (Device_add_peer N C d key config :: (unit DeviceError + unit) \<times> ('a, 'b) Device))"
proof (cases "dv_peers d key")
  case (Some h)
  then show ?thesis using ok by (simp add: Device_add_peer_def domI)
next
  case None
  let ?tn = "dv_tunnel d" and ?c = "fst (PeerConfig_take_tunnel config)"
  let ?h = "Peer_handle_new key (rt_next_chan (tn_router ?tn))"
  have d: "consistent N d" "tunnel_ok E ?tn" using ok by (simp_all add: device_ok_def)
  then have "rt_peers (tn_router ?tn) key = None" using None by (simp add: consistent_def)
  from add_peer_registry [OF this, of C ?c] obtain tn where tn: "Tunnel_add_peer C ?tn key ?c = (Inr ?h, tn)"
    "rt_peers (tn_router tn) = (rt_peers (tn_router ?tn))(key \<mapsto> rt_next_chan (tn_router ?tn))"
    "tn_alive tn = tn_alive ?tn" by blast
  have h: "hd_sender ?h = \<lparr>ps_public_key = key, ps_chan = rt_next_chan (tn_router ?tn)\<rparr>"
    by (simp add: Peer_handle_new_def)
  let ?d = "d\<lparr>dv_tunnel := tn, dv_peers := (dv_peers d)(key \<mapsto> ?h)\<rparr>"
  have "consistent N ?d"
    unfolding consistent_def
  proof (intro conjI allI impI ballI)
    fix s assume "s \<in> ran (AllowedIps_abs (dv_allowed_ips ?d))"
    then obtain h where "dv_peers d (ps_public_key s) = Some h" "hd_sender h = s" using consistentD(7) [OF d(1)] by auto
    then show "\<exists>h. dv_peers ?d (ps_public_key s) = Some h \<and> hd_sender h = s" using None by auto
  qed (use consistentD(1-4) [OF d(1)] consistentD(5,6) [OF d(1)] tn(2,3) h in \<open>auto split: if_splits\<close>)
  then have "consistent N (insert_allowed_ips N ?d (hd_sender ?h) (dpc_allowed_ips config))"
    by (rule consistent_insert [where h = ?h]) (simp_all add: Peer_handle_new_def)
  moreover have "tunnel_ok E tn"
    using add_peer_ok [OF C d(2), of ?c key] k tn(1) by (simp add: PeerConfig_take_tunnel_def)
  ultimately show ?thesis using None tn(1)
    by (simp add: Device_add_peer_def PeerConfig_take_tunnel_def Let_def device_ok_def insert_allowed_ips_def domIff
        allowed_peers_commute)
qed

lemma device_remove_ok:
  assumes ok: "device_ok N E d"
  shows "device_ok N E (snd (Device_remove_peer d key))"
proof (cases "dv_peers d key")
  case None
  then show ?thesis using ok by (simp add: Device_remove_peer_def)
next
  case (Some h)
  let ?tn = "Peer_drop (dv_tunnel d) h"
  have d: "consistent N d" "tunnel_ok E (dv_tunnel d)" using ok by (simp_all add: device_ok_def)
  have key: "ps_public_key (hd_sender h) = key" and alive: "tn_alive (dv_tunnel d)"
    and reg: "rt_peers (tn_router (dv_tunnel d)) key = Some (ps_chan (hd_sender h))"
    using d(1) Some by (simp_all add: consistent_def)
  then have tn: "rt_peers (tn_router ?tn) = (rt_peers (tn_router (dv_tunnel d)))(key := None)" "tn_alive ?tn"
    by (simp_all add: Peer_drop_def remove_peer_def)
  have "consistent N (retain_others (d\<lparr>dv_peers := (dv_peers d)(key := None), dv_tunnel := ?tn\<rparr>) key)"
    unfolding consistent_def
  proof (intro conjI allI impI ballI)
    fix s assume "s \<in> ran (AllowedIps_abs (dv_allowed_ips (retain_others (d\<lparr>dv_peers := (dv_peers d)(key := None), dv_tunnel := ?tn\<rparr>) key)))"
    then have "s \<in> ran (AllowedIps_abs (dv_allowed_ips d))" "ps_public_key s \<noteq> key"
      using consistentD(2) [OF d(1)] by (simp_all add: retain_others_def AllowedIps_retain_ok ran_restrict_values)
    then show "\<exists>h. dv_peers (retain_others (d\<lparr>dv_peers := (dv_peers d)(key := None), dv_tunnel := ?tn\<rparr>) key)
        (ps_public_key s) = Some h \<and> hd_sender h = s"
      using consistentD(7) [OF d(1)] by (simp add: retain_others_def)
  qed (use consistentD(1-4) [OF d(1)] consistentD(5,6) [OF d(1)] tn in
      \<open>auto simp: retain_others_def AllowedIps_retain_ok split: if_splits\<close>)
  then show ?thesis using Some drop_peer_ok [OF d(2), of h]
    by (simp add: Device_remove_peer_def device_ok_def retain_others_def)
qed

lemma device_set_ok:
  assumes ok: "device_ok N E d" and k: "\<forall>i. dpu_persistent_keepalive update = Set i \<longrightarrow> i \<le> KEEPALIVE_MAX"
  shows "device_ok N E (snd (Device_set_peer N d key update :: (unit DeviceError + unit) poll \<times> ('a, 'b) Device))"
    and "dv_peers d key = Some h \<Longrightarrow>
      device_ok N E (snd (Device_set_peer_resume N d h update :: (unit DeviceError + unit) poll \<times> ('a, 'b) Device))"
proof -
  let ?tn = "dv_tunnel d" and ?u = "fst (PeerUpdate_take_tunnel update)"
  have u: "update_ok ?u" using k by (simp add: update_ok_def PeerUpdate_take_tunnel_def)
  have t: "tunnel_ok E ?tn" and c: "consistent N d" using ok by (simp_all add: device_ok_def)
  have fin: "device_ok N E (update_allowed_ips N (d\<lparr>dv_tunnel := tn\<rparr>) key (hd_sender h) ips)"
    if "same_registry ?tn tn" "tunnel_ok E tn" "dv_peers d key = Some h" for tn h ips
    using that consistent_update [OF consistent_tunnel [OF c that(1)], of key h ips]
    by (simp add: device_ok_def update_allowed_ips_def retain_others_def insert_allowed_ips_def split: Update.splits)
  show "device_ok N E (snd (Device_set_peer N d key update :: (unit DeviceError + unit) poll \<times> ('a, 'b) Device))"
    using same_registry_calls(7) [of ?tn key ?u] set_peer_ok [OF t u, of key] ok fin
    by (auto simp: Device_set_peer_def PeerUpdate_take_tunnel_def Let_def device_ok_tunnel
        split: option.split prod.split poll.split sum.split)
  show "device_ok N E (snd (Device_set_peer_resume N d h update :: (unit DeviceError + unit) poll \<times> ('a, 'b) Device))"
    if "dv_peers d key = Some h"
  proof -
    have "ps_public_key (hd_sender h) = key" using c that by (simp add: consistent_def)
    then show ?thesis
      using that same_registry_calls(2) [of ?tn "ps_chan (hd_sender h)" "Update ?u"]
        resume_action_ok [OF t, of "Update ?u" "ps_chan (hd_sender h)"] u ok fin
      by (auto simp: Device_set_peer_resume_def PeerUpdate_take_tunnel_def Let_def device_ok_tunnel
          split: prod.split poll.split sum.split)
  qed
qed

lemma MAX_PLAINTEXT_SIZE_eq: "MAX_PLAINTEXT_SIZE = 65472"
  by (simp add: MAX_PLAINTEXT_SIZE_def MAX_IPV4_UDP_PAYLOAD_SIZE_def)

text \<open>What the device passes to the tunnel, or that it drops the packet.\<close>

lemma prepare_outbound_cases:
  obtains (send) info where "well_formed packet info" "pi_len info \<le> dv_max_packet_size d"
      "prepare_outbound_packet d packet =
        Some (Some (pi_destination info), padded packet (pi_len info) (dv_max_packet_size d))"
    | (drop) p where "prepare_outbound_packet d packet = Some (None, p)"
  using prepare_outbound_ok prepare_outbound_drop by (metis not_less)

lemma padded_short:
  assumes "consistent N d" and "well_formed packet info" and "pi_len info \<le> dv_max_packet_size d"
  shows "length (padded packet (pi_len info) (dv_max_packet_size d)) \<le> MAX_PLAINTEXT_SIZE"
    "length (padded packet (pi_len info) (dv_max_packet_size d)) < AEAD_P_MAX"
proof -
  show "length (padded packet (pi_len info) (dv_max_packet_size d)) \<le> MAX_PLAINTEXT_SIZE"
    using padded_props(3) [of "pi_len info" packet] well_formed_len [OF assms(2)] assms(3) consistentD(4) [OF assms(1)] by simp
  then show "length (padded packet (pi_len info) (dv_max_packet_size d)) < AEAD_P_MAX"
    by (simp add: MAX_PLAINTEXT_SIZE_eq AEAD_P_MAX_def)
qed

lemma device_send_ok:
  assumes ok: "device_ok N E d"
  shows "\<exists>r d'. send_packet N d packet = Some (r, d') \<and> device_ok N E d'"
    and "\<exists>r d'. try_send_packet N d packet = Some (r, d') \<and> device_ok N E d'"
proof -
  have c: "consistent N d" and t: "tunnel_ok E (dv_tunnel d)" using ok by (simp_all add: device_ok_def)
  have sent: "device_ok N E (d\<lparr>dv_tunnel := snd (PeerSender_send (dv_tunnel d) s p)\<rparr>)"
    "device_ok N E (d\<lparr>dv_tunnel := snd (PeerSender_try_send (dv_tunnel d) s p)\<rparr>)" if "length p < AEAD_P_MAX" for s p
    using that device_ok_tunnel [OF ok] same_registry_calls(4,5) sender_calls_ok(1,2) [OF t] by blast+
  show "\<exists>r d'. send_packet N d packet = Some (r, d') \<and> device_ok N E d'"
  proof (cases packet d rule: prepare_outbound_cases)
    case (send info)
    then show ?thesis using sent(1) padded_short(2) [OF c send(1,2)] ok
      by (auto simp: send_packet_def Let_def case_prod_unfold split: option.split)
  qed (use ok in \<open>simp add: send_packet_def\<close>)
  show "\<exists>r d'. try_send_packet N d packet = Some (r, d') \<and> device_ok N E d'"
  proof (cases packet d rule: prepare_outbound_cases)
    case (send info)
    then show ?thesis using sent(2) padded_short(2) [OF c send(1,2)] ok
      by (auto simp: try_send_packet_def Let_def case_prod_unfold split: option.split)
  qed (use ok in \<open>simp add: try_send_packet_def\<close>)
qed

lemma device_recv_ok:
  assumes ok: "device_ok N E d"
  shows "\<exists>r d'. recv_packet N d = Some (r, d') \<and> device_ok N E d'"
proof -
  obtain r ps where r: "recv_packet N d = Some (r, with_inbound d ps)" "length ps \<le> length (tn_inbound (dv_tunnel d))"
    using recv_packet_spec [of N d] by (fastforce split: poll.splits)
  have "device_ok N E (with_inbound d ps)"
    unfolding with_inbound_def using ok r(2)
    by (intro device_ok_tunnel) (auto simp: same_registry_def device_ok_def tunnel_ok_def)
  then show ?thesis using r(1) by blast
qed

lemma device_connect_ok:
  assumes ok: "device_ok N E d"
  shows "device_ok N E (snd (connect_peer d key endpoint :: (unit DeviceError + unit) poll \<times> ('a, 'b) Device))"
proof -
  have t: "tunnel_ok E (dv_tunnel d)" using ok by (simp add: device_ok_def)
  have "device_ok N E (d\<lparr>dv_tunnel := snd (Peer_connect (dv_tunnel d) h endpoint)\<rparr>)" for h
    unfolding Peer_connect_def
    by (rule device_ok_tunnel [OF ok same_registry_calls(6) sender_calls_ok(3) [OF t]])
  then show ?thesis using ok by (auto simp: connect_peer_def split: option.split prod.splits poll.splits) (metis snd_conv)+
qed

lemma background_ok:
  assumes C: "crypto_ok C" and T: "tai_ok T" and NE: "net_env_ok NE" and E: "\<forall>ch. env_ok (E ch)"
    and ok: "device_ok N E d" and b: "background event" and ev: "tunnel_enabled C T E (dv_tunnel d) event"
  shows "\<exists>tn. tunnel_step C T NE E (dv_tunnel d) event = Some tn \<and> device_ok N E (d\<lparr>dv_tunnel := tn\<rparr>)"
proof -
  have t: "tunnel_ok E (dv_tunnel d)" using ok by (simp add: device_ok_def)
  obtain tn where tn: "tunnel_step C T NE E (dv_tunnel d) event = Some tn" "tunnel_ok E tn"
    using tunnel_step_ok [OF C T NE E t ev] by blast
  have "same_registry (dv_tunnel d) tn"
  proof (cases event)
    case (ReadRound e)
    then show ?thesis using tn(1) read_loop_keeps [OF C NE t, of e T] ev
      by (auto simp: same_registry_def split: bind_splits)
  next
    case (ActorRound ch e)
    then show ?thesis using tn(1) by (auto simp: same_registry_def actor_step_def publish_def Let_def split: bind_splits)
  qed (use b tn(1) same_registry_calls(2,3) [of "dv_tunnel d"] in \<open>auto simp: same_registry_def\<close>)
  then show ?thesis using tn device_ok_tunnel [OF ok] by blast
qed

lemma device_step_ok:
  assumes C: "crypto_ok C" and T: "tai_ok T" and NE: "net_env_ok NE" and E: "\<forall>ch. env_ok (E ch)"
    and ok: "device_ok N E d" and ev: "device_enabled C T E d event"
  shows "\<exists>d'. device_step N C T NE E d event = Some d' \<and> device_ok N E d'"
proof (cases event)
  case (DeviceSend packet)
  then show ?thesis using device_send_ok(1) [OF ok, of packet] by auto
next
  case (DeviceTrySend packet)
  then show ?thesis using device_send_ok(2) [OF ok, of packet] by auto
next
  case DeviceRecv
  then show ?thesis using device_recv_ok [OF ok] by auto
next
  case (Background e)
  then show ?thesis using background_ok [OF C T NE E ok, of e] ev by auto
next
  case (DeviceSetResume key update)
  then show ?thesis using device_set_ok(2) [OF ok, of update key] ev ok by (auto split: option.split)
qed (use ev in \<open>simp_all add: device_add_ok [OF C ok] device_set_ok(1) [OF ok] device_connect_ok [OF ok] device_remove_ok [OF ok]\<close>)

interpretation devices: guarded "device_step N C T NE E" "device_enabled C T E"
    "\<lambda>d. crypto_ok C \<and> tai_ok T \<and> net_env_ok NE \<and> (\<forall>ch. env_ok (E ch)) \<and> device_ok N E d"
  by unfold_locales (use device_step_ok in fastforce)

section \<open>Reachable devices\<close>

definition device_reachable ::
  "'net ipnet \<Rightarrow> crypto \<Rightarrow> ('ts::linorder) tai \<Rightarrow> net_env \<Rightarrow> (chan \<Rightarrow> 'ts env) \<Rightarrow> ('net, 'ts) Device \<Rightarrow> bool" where
  "device_reachable N C T NE E d \<longleftrightarrow> (\<exists>config secret start. length secret = 32 \<and>
     Device_new C NE secret (Inr () :: unit + unit) config = Inr start \<and> device_reaches N C T NE E start d)"

text \<open>It does not matter which way the socket comes.\<close>

lemma Device_from_socket_eq: "Device_from_socket C E secret socket config = Device_new C E secret socket config"
  by (simp add: Device_new_def Device_from_socket_def Tunnel_new_def Tunnel_from_socket_def)

lemma device_new_ok:
  assumes "crypto_ok C" and "ipnet_ok N" and "length secret = 32"
    and "Device_new C NE secret (Inr () :: unit + unit) config = Inr d"
  shows "device_ok N E d"
proof -
  have d: "d = Device_start (Tunnel_start C NE (dc_private_key config) secret) (unwrap_or (dc_mtu config) MAX_PLAINTEXT_SIZE)"
    using assms(4) by (simp add: Device_new_def Tunnel_new_def)
  have "consistent N d"
    using assms(2)
    by (simp add: d consistent_def Device_start_def Tunnel_start_def Tunnel_start_with_guard_def RoutingTable_new_def
        AllowedIps_ok_def AllowedIps_abs_def AllowedIps_new_def AllowedIps_default_def)
  moreover have "dv_tunnel d = Tunnel_start C NE (dc_private_key config) secret" by (simp add: d Device_start_def)
  ultimately show ?thesis using tunnel_start_ok [OF assms(1,3)] by (simp add: device_ok_def)
qed

lemma device_reachable_ok:
  assumes "crypto_ok C" and "tai_ok T" and "net_env_ok NE" and "\<forall>ch. env_ok (E ch)" and "ipnet_ok N"
    and "device_reachable N C T NE E d"
  shows "device_ok N E d"
proof -
  obtain config secret start where "length secret = 32" "Device_new C NE secret (Inr () :: unit + unit) config = Inr start"
    and r: "device_reaches N C T NE E start d" using assms(6) unfolding device_reachable_def by blast
  then have "device_ok N E start" using device_new_ok [OF assms(1,5)] by blast
  with r show ?thesis using devices.reach_ok assms(1-4) by blast
qed

lemma device_reachable_step:
  "device_reachable N C T NE E d \<Longrightarrow> device_enabled C T E d event \<Longrightarrow> device_step N C T NE E d event = Some d' \<Longrightarrow>
     device_reachable N C T NE E d'"
  unfolding device_reachable_def by (meson reach.step)

text \<open>The owner of a prefix is a registered peer, reached through its own channel.\<close>

lemma owner_registered:
  assumes "consistent N d" and "longest_match N (dv_allowed_ips d) addr = Some s"
  shows "entry (tn_router (dv_tunnel d)) (ps_public_key s) = Some (ps_chan s)"
proof -
  have "s \<in> ran (AllowedIps_abs (dv_allowed_ips d))"
    using allowed.lookup_owner [of N "dv_allowed_ips d" addr s] assms consistentD(1,2) [OF assms(1)] by simp
  from consistentD(7) [OF assms(1) this] obtain h where "dv_peers d (ps_public_key s) = Some h" "hd_sender h = s" by blast
  then show ?thesis using consistentD(5) [OF assms(1), of "ps_public_key s"] by (simp add: entry_def)
qed

section \<open>Properties\<close>

definition ex_prefixes :: "ex_net DevicePeerConfig" where
  "ex_prefixes = \<lparr>dpc_endpoint = None, dpc_preshared_key = None, dpc_persistent_keepalive = None,
     dpc_allowed_ips = [Net (V4 0x0A000001) 8]\<rparr>"

definition ex_fresh :: "(ex_net, u64) Device" where
  "ex_fresh = Device_start ex_tunnel 1420"

definition ex_device :: "(ex_net, u64) Device" where
  "ex_device = snd (Device_add_peer ex_ipnet ex_crypto ex_fresh [1] ex_prefixes :: (unit DeviceError + unit) \<times> _)"

definition ex_ip :: bytes where
  "ex_ip = [0x45, 0, 0, 21] @ replicate 8 0 @ [10, 0, 0, 1] @ [10, 0, 0, 2] @ [7]"

lemma ex_fresh_reachable: "device_reachable ex_ipnet ex_crypto ex_tai ex_net_env (\<lambda>_. ex_env) ex_fresh"
  unfolding device_reachable_def
  by (intro exI [of _ "\<lparr>dc_private_key = ex_key 5, dc_mtu = Some 1420\<rparr>"] exI [of _ "ex_key 6"] exI [of _ ex_fresh])
    (simp add: Device_new_def Tunnel_new_def ex_fresh_def ex_tunnel_def reach.start)

lemma ex_device_reachable: "device_reachable ex_ipnet ex_crypto ex_tai ex_net_env (\<lambda>_. ex_env) ex_device"
  by (rule device_reachable_step [OF ex_fresh_reachable, of "DeviceAdd [1] ex_prefixes"])
    (simp_all add: ex_device_def ex_prefixes_def)



definition with_queue :: "('net, 'ts) Device \<Rightarrow> chan \<Rightarrow> 'ts PeerAction list \<Rightarrow> ('net, 'ts) Device" where
  "with_queue d ch queue =
     d\<lparr>dv_tunnel := (dv_tunnel d)\<lparr>tn_router := (tn_router (dv_tunnel d))\<lparr>rt_queues :=
       (rt_queues (tn_router (dv_tunnel d)))(ch := queue)\<rparr>\<rparr>\<rparr>"

lemma sender_sends:
  fixes p :: bytes
  assumes "entry (tn_router (dv_tunnel d)) (ps_public_key s) = Some (ps_chan s)"
    and "length (rt_queues (tn_router (dv_tunnel d)) (ps_chan s)) < PEER_ACTION_QUEUE_CAPACITY"
  defines "d' \<equiv> with_queue d (ps_chan s) (rt_queues (tn_router (dv_tunnel d)) (ps_chan s) @ [SendData p])"
  shows "PeerSender_send (dv_tunnel d) s p = (Ready (Inr ()), dv_tunnel d')"
    and "PeerSender_try_send (dv_tunnel d) s p = (Inr (), dv_tunnel d')"
    and "d\<lparr>dv_tunnel := dv_tunnel d'\<rparr> = d'"
  using assms(1,2)
  by (simp_all add: d'_def with_queue_def PeerSender_send_def PeerSender_try_send_def PeerSender_entry_def send_action_def
      send_def try_send_def)

lemma sender_full:
  assumes "entry (tn_router (dv_tunnel d)) (ps_public_key s) = Some (ps_chan s)"
    and "\<not> length (rt_queues (tn_router (dv_tunnel d)) (ps_chan s)) < PEER_ACTION_QUEUE_CAPACITY"
  shows "fst (PeerSender_send (dv_tunnel d) s p) = Pending"
    and "PeerSender_try_send (dv_tunnel d) s p = (Inl Full, dv_tunnel d)"
  using assms by (simp_all add: PeerSender_send_def PeerSender_try_send_def PeerSender_entry_def send_action_def
      send_def try_send_def)

text \<open>The peer a packet is routed to and what is sent to it: cut to its IP length and zero-padded.\<close>

definition routed_to :: "'net ipnet \<Rightarrow> ('net, 'ts) Device \<Rightarrow> bytes \<Rightarrow> PeerSender \<Rightarrow> bytes \<Rightarrow> bool" where
  "routed_to N d packet s sent \<longleftrightarrow> (\<exists>info. packet_info packet = Some (Some info) \<and>
     pi_len info \<le> dv_max_packet_size d \<and> longest_match N (dv_allowed_ips d) (pi_destination info) = Some s \<and>
     sent = padded packet (pi_len info) (dv_max_packet_size d))"

lemma routed_send:
  assumes c: "consistent N d" and r: "routed_to N d packet s sent"
    and queue: "queue = rt_queues (tn_router (dv_tunnel d)) (ps_chan s)"
  shows "if length queue < PEER_ACTION_QUEUE_CAPACITY
    then try_send_packet N d packet = Some (Inr (), with_queue d (ps_chan s) (queue @ [SendData sent])) \<and>
      send_packet N d packet = Some (Ready (Inr ()), with_queue d (ps_chan s) (queue @ [SendData sent]))
    else try_send_packet N d packet = Some (Inr (), d) \<and> map_option fst (send_packet N d packet) = Some Pending"
proof -
  obtain info where i: "well_formed packet info" "pi_len info \<le> dv_max_packet_size d"
    and s: "longest_match N (dv_allowed_ips d) (pi_destination info) = Some s"
    and sent: "sent = padded packet (pi_len info) (dv_max_packet_size d)"
    using r by (auto simp: routed_to_def packet_info_iff)
  note reg = owner_registered [OF c s] and prep = prepare_outbound_ok [OF i]
  show ?thesis
  proof (cases "length queue < PEER_ACTION_QUEUE_CAPACITY")
    case True
    then show ?thesis using sender_sends [OF reg, of sent] prep s queue
      by (simp add: try_send_packet_def send_packet_def peer_for_destination_def sent)
  next
    case False
    then show ?thesis using sender_full [OF reg, of sent] prep s queue
      by (simp add: try_send_packet_def send_packet_def peer_for_destination_def case_prod_unfold sent)
  qed
qed

lemma unrouted_dropped:
  assumes "\<forall>s sent. \<not> routed_to N d packet s sent"
  shows "try_send_packet N d packet = Some (Inr (), d) \<and> send_packet N d packet = Some (Ready (Inr ()), d)"
proof (cases packet d rule: prepare_outbound_cases)
  case (send info)
  then have "longest_match N (dv_allowed_ips d) (pi_destination info) = None"
    using assms unfolding routed_to_def packet_info_iff by (metis not_None_eq)
  then show ?thesis using send(3) by (simp add: try_send_packet_def send_packet_def peer_for_destination_def)
next
  case (drop p)
  then show ?thesis by (simp add: try_send_packet_def send_packet_def)
qed

text \<open>
  C23: outbound packets go to the owner of their destination. A well-formed packet that is not longer
  than the device allows, for an address inside some prefix, is appended, cut to its IP length
  and zero-padded, to the queue of the registered peer that owns the longest such prefix, and
  nothing else changes; with that queue full \<open>try_send_packet\<close> drops it and \<open>send_packet\<close> waits. Any other
  packet is dropped without an error.
\<close>

theorem device_routes_outbound:
  assumes "crypto_ok C" and "tai_ok T" and "net_env_ok NE" and "\<forall>ch. env_ok (E ch)" and "ipnet_ok N"
    and "device_reachable N C T NE E d"
  shows "(\<forall>s sent queue. routed_to N d packet s sent \<longrightarrow> queue = rt_queues (tn_router (dv_tunnel d)) (ps_chan s) \<longrightarrow>
      entry (tn_router (dv_tunnel d)) (ps_public_key s) = Some (ps_chan s) \<and>
      (if length queue < PEER_ACTION_QUEUE_CAPACITY
       then try_send_packet N d packet = Some (Inr (), with_queue d (ps_chan s) (queue @ [SendData sent])) \<and>
         send_packet N d packet = Some (Ready (Inr ()), with_queue d (ps_chan s) (queue @ [SendData sent]))
       else try_send_packet N d packet = Some (Inr (), d) \<and> map_option fst (send_packet N d packet) = Some Pending)) \<and>
    ((\<forall>s sent. \<not> routed_to N d packet s sent) \<longrightarrow>
      try_send_packet N d packet = Some (Inr (), d) \<and> send_packet N d packet = Some (Ready (Inr ()), d))"
proof -
  have c: "consistent N d" using device_reachable_ok [OF assms] by (simp add: device_ok_def)
  moreover have "entry (tn_router (dv_tunnel d)) (ps_public_key s) = Some (ps_chan s)" if "routed_to N d packet s sent" for s sent
    using that owner_registered [OF c] by (auto simp: routed_to_def)
  ultimately show ?thesis using routed_send [OF c] unrouted_dropped by blast
qed

lemma ex_device_table:
  "dv_allowed_ips ex_device = \<lparr>ai_entries = [(Net (V4 0x0A000000) 8, \<lparr>ps_public_key = [1], ps_chan = 0\<rparr>)]\<rparr>"
  "dv_max_packet_size ex_device = 1420" "rt_queues (tn_router (dv_tunnel ex_device)) 0 = []"
  by (simp_all add: ex_device_def ex_fresh_def ex_tunnel_def Tunnel_start_def Tunnel_start_with_guard_def Device_start_def
      Device_add_peer_def PeerConfig_take_tunnel_def ex_prefixes_def Tunnel_add_peer_def register_peer_def RoutingTable_new_def
      Let_def Peer_handle_new_def insert_allowed_ips_def AllowedIps_insert_def AllowedIps_new_def AllowedIps_default_def
      ex_ipnet_def MAX_PLAINTEXT_SIZE_eq)

lemma ex_ip_info: "packet_info ex_ip = Some (Some \<lparr>pi_source = V4 0x0A000001, pi_destination = V4 0x0A000002, pi_len = 21\<rparr>)"
  by code_simp

lemma ex_ip_routed: "routed_to ex_ipnet ex_device ex_ip \<lparr>ps_public_key = [1], ps_chan = 0\<rparr> (ex_ip @ replicate 11 0)"
proof -
  have "longest_match ex_ipnet (dv_allowed_ips ex_device) (V4 0x0A000002) = Some \<lparr>ps_public_key = [1], ps_chan = 0\<rparr>"
    unfolding ex_device_table by code_simp
  moreover have "padded ex_ip 21 1420 = ex_ip @ replicate 11 0" by code_simp
  ultimately show ?thesis by (simp add: routed_to_def ex_ip_info ex_device_table)
qed

theorem device_routes_outbound_witness:
  "send_packet ex_ipnet ex_device ex_ip =
     Some (Ready (Inr ()), with_queue ex_device 0 [SendData (ex_ip @ replicate 11 0)])"
  using device_routes_outbound [OF ex_crypto_ok ex_tai_ok ex_loop_ok(1) _ ex_ipnet_ok ex_device_reachable, of ex_ip]
    ex_ip_routed ex_device_table(3)
  by (auto simp: PEER_ACTION_QUEUE_CAPACITY_def split: if_splits dest!: spec)

text \<open>
  C5: inbound packets are returned only to their rightful source. \<open>recv_packet\<close> returns the first queued
  packet that is well formed and whose source address is routed to the very peer that delivered
  it, cut to its IP length; the packets before it are discarded, those after it stay queued. It waits
  only when no queued packet is acceptable. No packet makes it panic.
\<close>

theorem device_validates_source:
  "\<exists>r rest. recv_packet N d = Some (r, with_inbound d rest) \<and>
     (case r of
        Pending \<Rightarrow> rest = [] \<and> (\<forall>packet \<in> set (tn_inbound (dv_tunnel d)). \<forall>payload. \<not> accepts N d packet payload)
      | Ready payload \<Rightarrow> \<exists>skipped packet info sender. tn_inbound (dv_tunnel d) = skipped @ packet # rest \<and>
          packet_info (pk_payload packet) = Some (Some info) \<and> payload = take (pi_len info) (pk_payload packet) \<and>
          longest_match N (dv_allowed_ips d) (pi_source info) = Some sender \<and>
          ps_public_key sender = pk_public_key packet \<and>
          (\<forall>q \<in> set skipped. \<forall>payload. \<not> accepts N d q payload))"
proof -
  obtain r rest where r: "recv_packet N d = Some (r, with_inbound d rest)" and
    c: "case r of
        Pending \<Rightarrow> rest = [] \<and> (\<forall>packet \<in> set (tn_inbound (dv_tunnel d)). \<forall>payload. \<not> accepts N d packet payload)
      | Ready payload \<Rightarrow> \<exists>skipped packet. tn_inbound (dv_tunnel d) = skipped @ packet # rest \<and>
          accepts N d packet payload \<and> (\<forall>q \<in> set skipped. \<forall>payload. \<not> accepts N d q payload)"
    using recv_packet_spec by blast
  show ?thesis
  proof (cases r)
    case Pending
    then show ?thesis using r c by fastforce
  next
    case (Ready payload)
    then obtain skipped packet where "tn_inbound (dv_tunnel d) = skipped @ packet # rest" "accepts N d packet payload"
      "\<forall>q \<in> set skipped. \<forall>payload. \<not> accepts N d q payload" using c by auto
    then show ?thesis using r Ready unfolding accepts_def packet_info_iff by (intro exI [of _ r] exI [of _ rest]) auto
  qed
qed

theorem device_validates_source_witness:
  "\<exists>rest. recv_packet ex_ipnet (with_inbound ex_device
      [\<lparr>pk_public_key = [2], pk_payload = ex_ip\<rparr>, \<lparr>pk_public_key = [1], pk_payload = ex_ip @ [0]\<rparr>]) =
    Some (Ready ex_ip, with_inbound ex_device rest) \<and> rest = []"
proof -
  let ?bad = "\<lparr>pk_public_key = [2], pk_payload = ex_ip\<rparr>" and ?good = "\<lparr>pk_public_key = [1], pk_payload = ex_ip @ [0]\<rparr>"
  let ?d = "with_inbound ex_device [?bad, ?good]"
  have m: "longest_match ex_ipnet (dv_allowed_ips ex_device) (V4 0x0A000001) = Some \<lparr>ps_public_key = [1], ps_chan = 0\<rparr>"
    unfolding ex_device_table by code_simp
  have i: "packet_info (ex_ip @ [0]) = Some (Some \<lparr>pi_source = V4 0x0A000001, pi_destination = V4 0x0A000002, pi_len = 21\<rparr>)"
    by code_simp
  have bad: "\<not> accepts ex_ipnet ?d ?bad payload" for payload
    using m ex_ip_info by (auto simp: accepts_def simp flip: packet_info_iff)
  have good: "accepts ex_ipnet ?d ?good payload \<longleftrightarrow> payload = ex_ip" for payload
    using m i by (auto simp: accepts_def ex_ip_def simp flip: packet_info_iff)
  have queue: "tn_inbound (dv_tunnel ?d) = [?bad, ?good]" and wi: "with_inbound ?d ps = with_inbound ex_device ps" for ps
    by (simp_all add: with_inbound_def)
  from device_validates_source [of ex_ipnet ?d] obtain r rest where r: "recv_packet ex_ipnet ?d = Some (r, with_inbound ?d rest)"
    and pending: "r = Pending \<Longrightarrow> \<forall>payload. \<not> accepts ex_ipnet ?d ?good payload"
    and ready: "\<And>payload. r = Ready payload \<Longrightarrow> \<exists>skipped packet. [?bad, ?good] = skipped @ packet # rest \<and> accepts ex_ipnet ?d packet payload"
    unfolding queue accepts_def packet_info_iff by (fastforce split: poll.splits)
  from pending good obtain payload where p: "r = Ready payload" by (cases r) blast+
  from ready [OF p] bad have "accepts ex_ipnet ?d ?good payload \<and> rest = []" by (auto simp: Cons_eq_append_conv)
  then show ?thesis using r p good wi by simp
qed



end
