(* ===== verification/Program.thy ===== *)
theory Program
  imports Config Device_Runs
begin

text \<open>
  The command line program (\<open>tunstile/src/bin/tunstile.rs\<close>): it reads a configuration, brings up the
  device with its peers and moves packets between the device and the TUN interface.
\<close>

section \<open>The host\<close>

text \<open>
  What the program asks of the operating system and of other crates: the UDP socket of the device, the \<open>tun\<close> crate, the
  parts and the text of a prefix, and the answers of the \<open>route\<close> command, which may depend on the commands before.
  Errors and outputs are given by their text.
\<close>

record Configuration =
  cf_address :: IpAddr
  cf_netmask :: IpAddr
  cf_mtu :: u16
  cf_up :: bool

record Output =
  out_success :: bool
  out_stderr :: str

type_synonym command = "str list"

record 'net host =
  host_socket :: "SocketAddr \<Rightarrow> str + unit"
  net_addr :: "'net \<Rightarrow> IpAddr"
  net_netmask :: "'net \<Rightarrow> IpAddr"
  net_to_string :: "'net \<Rightarrow> str"
  create_as_async :: "Configuration \<Rightarrow> str + unit"
  tun_name :: "str option"
  macos :: bool
  route_output :: "command list \<Rightarrow> command \<Rightarrow> str + Output"

definition create_tun :: "'net host \<Rightarrow> 'net TunConfig \<Rightarrow> str + unit" where
  "create_tun H config =
     create_as_async H
       \<lparr>cf_address = net_addr H (tc_address config), cf_netmask = net_netmask H (tc_address config),
        cf_mtu = tc_mtu config, cf_up = True\<rparr>"

text \<open>\<open>add_routes\<close> on macOS, with the commands that have been run.\<close>

definition route_args :: "str \<Rightarrow> str \<Rightarrow> str \<Rightarrow> command" where
  "route_args verb cidr name = [lit ''-qn'', verb, lit ''-net'', cidr, lit ''-interface'', name]"

definition route_error :: "str \<Rightarrow> str \<Rightarrow> str \<Rightarrow> str" where
  "route_error cidr name e = lit ''route add '' @ cidr @ lit '' -> '' @ name @ lit '': '' @ e"

fun route_loop :: "'net host \<Rightarrow> str \<Rightarrow> command list \<Rightarrow> 'net list \<Rightarrow> (str + unit) \<times> command list" where
  "route_loop H name issued [] = (Inr (), issued)"
| "route_loop H name issued (net # nets) =
     (let cidr = net_to_string H net;
          issued = issued @ [route_args (lit ''delete'') cidr name];
          add = route_args (lit ''add'') cidr name;
          out = route_output H issued add;
          issued = issued @ [add]
      in case out of
           Inl e \<Rightarrow> (Inl (route_error cidr name e), issued)
         | Inr out \<Rightarrow>
             if \<not> out_success out then (Inl (route_error cidr name (trim (out_stderr out))), issued)
             else route_loop H name issued nets)"

definition add_routes :: "'net host \<Rightarrow> str \<Rightarrow> command list \<Rightarrow> 'net list \<Rightarrow> (str + unit) \<times> command list" where
  "add_routes H name issued nets = (if macos H then route_loop H name issued nets else (Inr (), issued))"

section \<open>Bringing up the device\<close>

text \<open>The reasons for which \<open>main\<close> calls \<open>fail\<close>.\<close>

datatype failure =
    Parsing str
  | CreatingDevice "str DeviceError"
  | BringingUpInterface str
  | InterfaceHasNoName
  | AddingPeer bytes "str DeviceError"
  | RoutingPeer bytes str

fun add_peers ::
  "'net ipnet \<Rightarrow> crypto \<Rightarrow> 'net host \<Rightarrow> str \<Rightarrow> command list \<Rightarrow> ('net, 'ts) Device \<Rightarrow>
     (bytes \<times> 'net DevicePeerConfig) list \<Rightarrow> failure + ('net, 'ts) Device" where
  "add_peers N C H name issued d [] = Inr d"
| "add_peers N C H name issued d ((key, peer) # peers) =
     (let allowed_ips = dpc_allowed_ips peer
      in case Device_add_peer N C d key peer of
           (Inl e, d) \<Rightarrow> Inl (AddingPeer key e)
         | (Inr _, d) \<Rightarrow>
             (case add_routes H name issued allowed_ips of
                (Inl e, issued) \<Rightarrow> Inl (RoutingPeer key e)
              | (Inr _, issued) \<Rightarrow> add_peers N C H name issued d peers))"

text \<open>\<open>main\<close> up to the packet loop; the outer option is a panic. The result is the device and the MTU of the loop.\<close>

definition bring_up ::
  "'net value_env \<Rightarrow> base64 \<Rightarrow> 'net ipnet \<Rightarrow> crypto \<Rightarrow> net_env \<Rightarrow> bytes \<Rightarrow> 'net host \<Rightarrow> str \<Rightarrow>
     (failure + ('net, 'ts) Device \<times> nat) option" where
  "bring_up V B N C NE secret H text = do {
     r \<leftarrow> parse_config V B text;
     Some (case r of
       Inl e \<Rightarrow> Inl (Parsing e)
     | Inr (listen_addr, private_key, tun_config, peers) \<Rightarrow>
         (case Device_new C NE secret (host_socket H listen_addr)
             \<lparr>dc_private_key = private_key, dc_mtu = Some (unat (tc_mtu tun_config))\<rparr> of
            Inl e \<Rightarrow> Inl (CreatingDevice e)
          | Inr device \<Rightarrow>
         (case create_tun H tun_config of
            Inl e \<Rightarrow> Inl (BringingUpInterface e)
          | Inr _ \<Rightarrow>
         (case tun_name H of
            None \<Rightarrow> Inl InterfaceHasNoName
          | Some name \<Rightarrow>
              if name = [] then Inl InterfaceHasNoName
              else (case add_peers N C H name [] device peers of
                      Inl e \<Rightarrow> Inl e
                    | Inr device \<Rightarrow> Inr (device, unat (tc_mtu tun_config)))))))
   }"

section \<open>The packet loop\<close>

text \<open>A read from the interface into a buffer of \<open>mtu\<close> bytes; the interface cuts a longer packet.\<close>

definition recv_tun :: "nat \<Rightarrow> str + bytes \<Rightarrow> str + bytes" where
  "recv_tun mtu r =
     (case r of
        Inl e \<Rightarrow> Inl e
      | Inr data \<Rightarrow>
          let data = take mtu data;
              packet = patch (replicate mtu 0) 0 data
          in Inr (take (length data) packet))"

text \<open>
  What the loop waits for: a read of the interface, or a packet of the device (with the result of the write to the
  interface); in between the tunnel goes on in the background.
\<close>

datatype 'ts loop_event = TunRead "str + bytes" | TunWrite "str + unit" | Meanwhile "'ts tunnel_event"

datatype outcome = Continue | Return "str DeviceError"

definition loop_step ::
  "'net ipnet \<Rightarrow> crypto \<Rightarrow> ('ts::linorder) tai \<Rightarrow> net_env \<Rightarrow> (chan \<Rightarrow> 'ts env) \<Rightarrow> nat \<Rightarrow> ('net, 'ts) Device \<Rightarrow>
     'ts loop_event \<Rightarrow> (outcome \<times> bytes list \<times> ('net, 'ts) Device) option" where
  "loop_step N C T NE E mtu d event =
     (case event of
        TunRead r \<Rightarrow>
          (case recv_tun mtu r of
             Inl e \<Rightarrow> Some (Return (Io e), [], d)
           | Inr packet \<Rightarrow> do {
               (r, d) \<leftarrow> try_send_packet N d packet;
               Some (case r of Inl e \<Rightarrow> Return (Send e) | Inr _ \<Rightarrow> Continue, [], d)
             })
      | TunWrite r \<Rightarrow> do {
          (p, d) \<leftarrow> recv_packet N d;
          Some (case p of
            Pending \<Rightarrow> (Continue, [], d)
          | Ready packet \<Rightarrow> (case r of Inl e \<Rightarrow> (Return (Io e), [], d) | Inr _ \<Rightarrow> (Continue, [packet], d)))
        }
      | Meanwhile event \<Rightarrow> map_option (\<lambda>tn. (Continue, [], d\<lparr>dv_tunnel := tn\<rparr>)) (tunnel_step C T NE E (dv_tunnel d) event))"

fun loop_enabled :: "crypto \<Rightarrow> ('ts::linorder) tai \<Rightarrow> (chan \<Rightarrow> 'ts env) \<Rightarrow> ('net, 'ts) Device \<Rightarrow> 'ts loop_event \<Rightarrow> bool" where
  "loop_enabled C T E d (Meanwhile event) \<longleftrightarrow> background event \<and> tunnel_enabled C T E (dv_tunnel d) event"
| "loop_enabled C T E d _ \<longleftrightarrow> True"

inductive run_packets ::
  "'net ipnet \<Rightarrow> crypto \<Rightarrow> ('ts::linorder) tai \<Rightarrow> net_env \<Rightarrow> (chan \<Rightarrow> 'ts env) \<Rightarrow> nat \<Rightarrow> ('net, 'ts) Device \<Rightarrow>
     bytes list \<Rightarrow> ('net, 'ts) Device \<Rightarrow> bool" for N C T NE E mtu d where
  start: "run_packets N C T NE E mtu d [] d"
| step: "run_packets N C T NE E mtu d out d1 \<Longrightarrow> loop_enabled C T E d1 event \<Longrightarrow>
     loop_step N C T NE E mtu d1 event = Some (Continue, packets, d2) \<Longrightarrow> run_packets N C T NE E mtu d (out @ packets) d2"

section \<open>Properties of the bring-up\<close>

text \<open>A host whose \<open>route\<close> command succeeds. Then every prefix gets its route, after a stale one has been removed.\<close>

definition routes_granted :: "'net host \<Rightarrow> bool" where
  "routes_granted H \<longleftrightarrow> (macos H \<longrightarrow> (\<forall>issued args. \<exists>out. route_output H issued args = Inr out \<and> out_success out))"

definition route_commands :: "'net host \<Rightarrow> str \<Rightarrow> 'net list \<Rightarrow> command list" where
  "route_commands H name nets =
     concat (map (\<lambda>net. [route_args (lit ''delete'') (net_to_string H net) name, route_args (lit ''add'') (net_to_string H net) name]) nets)"

lemma add_routes_granted:
  assumes "routes_granted H"
  shows "add_routes H name issued nets = (Inr (), if macos H then issued @ route_commands H name nets else issued)"
proof (cases "macos H")
  case True
  have out: "\<exists>out. route_output H issued args = Inr out \<and> out_success out" for issued args
    using assms True by (simp add: routes_granted_def)
  have "route_loop H name issued nets = (Inr (), issued @ route_commands H name nets)"
  proof (induction nets arbitrary: issued)
    case (Cons net nets)
    let ?args = "\<lambda>verb. route_args verb (net_to_string H net) name"
    obtain o1 where "route_output H (issued @ [?args (lit ''delete'')]) (?args (lit ''add'')) = Inr o1" "out_success o1" using out by blast
    then show ?case using Cons by (simp add: Let_def route_commands_def)
  qed (simp add: route_commands_def)
  then show ?thesis using True by (simp add: add_routes_def)
qed (simp add: add_routes_def)

lemma interval_enabled: "interval_ok (dpc_persistent_keepalive config) \<Longrightarrow> device_enabled C T E d (DeviceAdd key config)"
  by (auto simp: interval_ok_def KEEPALIVE_MAX_def from_secs_def)

text \<open>The errors of a device call do not depend on the errors of the socket.\<close>

lemma add_peer_device:
  "snd (Device_add_peer N C d key config :: (str DeviceError + unit) \<times> ('net, 'ts) Device) =
     snd (Device_add_peer N C d key config :: (unit DeviceError + unit) \<times> ('net, 'ts) Device)"
  by (auto simp: Device_add_peer_def Let_def split: prod.split sum.split RegisterError.split)

lemma add_peers_reachable:
  assumes "device_reachable N C T NE E d" and "list_all peer_config_ok peers" and "add_peers N C H name issued d peers = Inr d'"
  shows "device_reachable N C T NE E d'"
  using assms
proof (induction N C H name issued d peers rule: add_peers.induct)
  case (2 N C H name issued d key peer peers)
  obtain r d1 where r: "Device_add_peer N C d key peer = (r :: str DeviceError + unit, d1)" by fastforce
  have "device_step N C T NE E d (DeviceAdd key peer) = Some d1"
    using r add_peer_device [of N C d key peer] by simp
  moreover have "device_enabled C T E d (DeviceAdd key peer)"
    using "2.prems"(2) interval_enabled [of peer] by (simp add: peer_config_ok_def del: device_enabled.simps)
  ultimately have "device_reachable N C T NE E d1" using device_reachable_step "2.prems"(1) by blast
  moreover obtain q issued' where "add_routes H name issued (dpc_allowed_ips peer) = (q, issued')" by fastforce
  ultimately show ?case using "2.IH" [OF refl r [symmetric]] "2.prems"(2,3) r by (auto split: sum.splits)
qed simp

lemma bring_up_total: "base64_ok B \<Longrightarrow> \<exists>r. bring_up V B N C NE secret H text = Some r"
  using parse_config_ok [of B V "text"] by (auto simp: bring_up_def)

lemma Device_new_start:
  assumes "Device_new C NE secret socket config = Inr d"
  shows "Device_new C NE secret (Inr () :: unit + unit) config = Inr d"
  using assms by (auto simp: Device_new_def Tunnel_new_def split: sum.splits)

lemma device_new_reachable:
  assumes "length secret = 32" and "Device_new C NE secret socket config = Inr d"
  shows "device_reachable N C T NE E d"
  unfolding device_reachable_def using assms(1) Device_new_start [OF assms(2)] reach.start by blast

lemma bring_up_reachable:
  assumes B: "base64_ok B" and "length secret = 32" and up: "bring_up V B N C NE secret H text = Some (Inr (d, mtu))"
  shows "device_reachable N C T NE E d"
proof -
  from up obtain addr private_key tun peers start name where
    p: "parse_config V B text = Some (Inr (addr, private_key, tun, peers))" and
    start: "Device_new C NE secret (host_socket H addr) \<lparr>dc_private_key = private_key, dc_mtu = Some (unat (tc_mtu tun))\<rparr> =
      Inr start" and add: "add_peers N C H name [] start peers = Inr d"
    by (auto simp: bring_up_def split: bind_splits sum.splits option.splits if_splits)
  have "list_all peer_config_ok peers" using parse_config_ok [OF B, of V "text"] p by auto
  then show ?thesis using add_peers_reachable [OF device_new_reachable [OF assms(2) start] _ add] by blast
qed

text \<open>Peers with keys of their own can all be added.\<close>

lemma add_peer_new:
  assumes "consistent N d" and "dv_peers d key = None"
  shows "\<exists>h d'. Device_add_peer N C d key config = (Inr () :: str DeviceError + unit, d') \<and> dv_peers d' = (dv_peers d)(key \<mapsto> h) \<and>
    dv_max_packet_size d' = dv_max_packet_size d \<and> tn_our_key (dv_tunnel d') = tn_our_key (dv_tunnel d)"
proof -
  let ?c = "fst (PeerConfig_take_tunnel config)" and ?tn = "dv_tunnel d"
  have "rt_peers (tn_router ?tn) key = None" using consistentD(5) [OF assms(1), of key] assms(2) by simp
  from add_peer_registry [OF this, of C ?c] obtain h tn where tn: "Tunnel_add_peer C ?tn key ?c = (Inr h, tn)" by blast
  have "tn_our_key (snd (Tunnel_add_peer C ?tn key ?c)) = tn_our_key ?tn"
    by (auto simp: Tunnel_add_peer_def Peer_connect_def PeerSender_connect_def send_action_def Let_def
        split: prod.split option.split sum.split poll.split)
  then show ?thesis using assms(2) tn
    by (intro exI [of _ h]) (simp add: Device_add_peer_def PeerConfig_take_tunnel_def Let_def insert_allowed_ips_def domIff)
qed

lemma add_peers_succeeds:
  assumes "crypto_ok C" and "tai_ok T" and "net_env_ok NE" and "\<forall>ch. env_ok (E ch)" and "ipnet_ok N"
    and routes: "routes_granted H"
  shows "device_reachable N C T NE E d \<Longrightarrow> list_all peer_config_ok peers \<Longrightarrow> distinct (map fst peers) \<Longrightarrow>
    set (map fst peers) \<inter> dom (dv_peers d) = {} \<Longrightarrow>
    \<exists>d'. add_peers N C H name issued d peers = Inr d' \<and> dom (dv_peers d') = dom (dv_peers d) \<union> set (map fst peers) \<and>
      dv_max_packet_size d' = dv_max_packet_size d \<and> tn_our_key (dv_tunnel d') = tn_our_key (dv_tunnel d)"
proof (induction peers arbitrary: d issued)
  case (Cons c peers)
  obtain key config where c: "c = (key, config)" by fastforce
  have "consistent N d" using device_reachable_ok [OF assms(1-5) Cons.prems(1)] by (simp add: device_ok_def)
  moreover have "dv_peers d key = None" using Cons.prems(4) c by auto
  ultimately obtain h d1 where d1: "Device_add_peer N C d key config = (Inr () :: str DeviceError + unit, d1)"
    "dv_peers d1 = (dv_peers d)(key \<mapsto> h)" "dv_max_packet_size d1 = dv_max_packet_size d"
    "tn_our_key (dv_tunnel d1) = tn_our_key (dv_tunnel d)"
    using add_peer_new by blast
  have r: "add_routes H name issued nets = (Inr (), if macos H then issued @ route_commands H name nets else issued)" for nets
    by (rule add_routes_granted [OF routes])
  have "add_peers N C H name issued d [c] = Inr d1" using c d1(1) r by simp
  then have "device_reachable N C T NE E d1" using add_peers_reachable [OF Cons.prems(1), of "[c]"] Cons.prems(2) by simp
  moreover have "dom (dv_peers d1) = insert key (dom (dv_peers d))" by (simp add: d1(2))
  ultimately show ?case using Cons.IH [of d1] Cons.prems(2-4) d1(1,3,4) c r by auto
qed simp

section \<open>Properties of the packet loop\<close>

lemma try_send_delivers:
  assumes "consistent N d"
  shows "\<exists>d'. try_send_packet N d packet = Some (Inr (), d')"
proof (cases "\<exists>s sent. routed_to N d packet s sent")
  case True
  then show ?thesis using routed_send [OF assms _ refl] by (metis (no_types))
next
  case False
  then show ?thesis using unrouted_dropped [of N d packet] by blast
qed

text \<open>Each round of the loop is a step of the device, and only the interface can end the loop.\<close>

lemma loop_step_ok:
  assumes env: "crypto_ok C" "tai_ok T" "net_env_ok NE" "\<forall>ch. env_ok (E ch)" "ipnet_ok N"
    and d: "device_reachable N C T NE E d" and ev: "loop_enabled C T E d event"
  shows "\<exists>r packets d'. loop_step N C T NE E mtu d event = Some (r, packets, d') \<and> device_reachable N C T NE E d' \<and>
    (r = Continue \<or> (\<exists>e. r = Return (Io e) \<and> (event = TunRead (Inl e) \<or> event = TunWrite (Inl e)))) \<and>
    (\<forall>p \<in> set packets. \<exists>packet \<in> set (tn_inbound (dv_tunnel d)). accepts N d packet p)"
proof (cases event)
  case (TunRead r)
  have c: "consistent N d" using device_reachable_ok [OF env d] by (simp add: device_ok_def)
  show ?thesis
  proof (cases "recv_tun mtu r")
    case (Inl e)
    then have "r = Inl e" by (simp add: recv_tun_def Let_def split: sum.splits)
    then show ?thesis using TunRead Inl d by (simp add: loop_step_def)
  next
    case (Inr packet)
    obtain d' where d': "try_send_packet N d packet = Some (Inr (), d')" using try_send_delivers [OF c] by blast
    then have "device_reachable N C T NE E d'" using device_reachable_step [OF d, of "DeviceTrySend packet"] by simp
    then show ?thesis using TunRead Inr d' by (simp add: loop_step_def)
  qed
next
  case (TunWrite r)
  obtain p ps where p: "recv_packet N d = Some (p, with_inbound d ps)" "\<And>payload. p = Ready payload \<Longrightarrow>
      \<exists>packet \<in> set (tn_inbound (dv_tunnel d)). accepts N d packet payload"
    using recv_packet_spec [of N d] by (fastforce split: poll.splits)
  then have "device_reachable N C T NE E (with_inbound d ps)" using device_reachable_step [OF d, of DeviceRecv] by simp
  then show ?thesis using TunWrite p by (cases p; cases r) (auto simp: loop_step_def)
next
  case (Meanwhile e)
  then have b: "device_enabled C T E d (Background e)" using ev by simp
  obtain d' where d': "device_step N C T NE E d (Background e) = Some d'"
    using device_step_ok [OF env(1-4) device_reachable_ok [OF env d] b] by blast
  then have "device_reachable N C T NE E d'" by (rule device_reachable_step [OF d b])
  then show ?thesis using Meanwhile d' by (auto simp: loop_step_def)
qed

lemma run_packets_reachable:
  assumes "crypto_ok C" "tai_ok T" "net_env_ok NE" "\<forall>ch. env_ok (E ch)" "ipnet_ok N" and "device_reachable N C T NE E d"
  shows "run_packets N C T NE E mtu d out d1 \<Longrightarrow> device_reachable N C T NE E d1"
proof (induction rule: run_packets.induct)
  case (step out d1 event packets d2)
  then show ?case using loop_step_ok [OF assms(1-5) step.IH step.hyps(2), of mtu] by auto
qed (rule assms(6))

lemma bring_up_text:
  fixes T :: "('ts::linorder) tai" and N :: "'net ipnet"
  assumes "crypto_ok C" and "tai_ok T" and "net_env_ok NE" and "\<forall>ch. env_ok (E ch)" and "ipnet_ok N"
    and "base64_ok B" and "printer_ok V W" and "length private_key = 32" and "length secret = 32"
    and "list_all peer_config_ok peers" and "distinct (map fst peers)"
    and "host_socket H \<lparr>sa_ip = V4 0, sa_port = port\<rparr> = Inr ()" and "create_tun H tun = Inr ()"
    and "tun_name H = Some name" and "name \<noteq> []" and "routes_granted H"
  shows "\<exists>d. bring_up V B N C NE secret H (config_text B W port private_key tun peers) = Some (Inr (d, unat (tc_mtu tun))) \<and>
    device_reachable N C T NE E d \<and> tn_our_key (dv_tunnel d) = private_key \<and>
    dv_max_packet_size d = min (unat (tc_mtu tun)) MAX_PLAINTEXT_SIZE \<and> dom (dv_peers d) = set (map fst peers)"
proof -
  let ?start = "Device_start (Tunnel_start C NE private_key secret) (unat (tc_mtu tun)) :: ('net, 'ts) Device"
  have start: "Device_new C NE secret (host_socket H \<lparr>sa_ip = V4 0, sa_port = port\<rparr>)
      \<lparr>dc_private_key = private_key, dc_mtu = Some (unat (tc_mtu tun))\<rparr> = Inr ?start"
    using assms(12) by (simp add: Device_new_def Tunnel_new_def)
  have fields: "dom (dv_peers ?start) = {}" "tn_our_key (dv_tunnel ?start) = private_key"
    "dv_max_packet_size ?start = min (unat (tc_mtu tun)) MAX_PLAINTEXT_SIZE"
    by (simp_all add: Device_start_def Tunnel_start_def Tunnel_start_with_guard_def)
  then have "set (map fst peers) \<inter> dom (dv_peers ?start) = {}" by blast
  from add_peers_succeeds [OF assms(1-5,16) device_new_reachable [OF assms(9) start] assms(10,11) this]
  obtain d where d: "add_peers N C H name [] ?start peers = Inr d" "dom (dv_peers d) = dom (dv_peers ?start) \<union> set (map fst peers)"
    "dv_max_packet_size d = dv_max_packet_size ?start" "tn_our_key (dv_tunnel d) = tn_our_key (dv_tunnel ?start)" by blast
  have up: "bring_up V B N C NE secret H (config_text B W port private_key tun peers) = Some (Inr (d, unat (tc_mtu tun)))"
    using parse_config_text [OF assms(6,7,8,10), of port tun] start assms(13-15) d(1) by (simp add: bring_up_def)
  then show ?thesis using bring_up_reachable [OF assms(6,9) up] d(2-4) unfolding fields by auto
qed

section \<open>Properties\<close>

text \<open>A configuration and a host for examples.\<close>

definition ex_host :: "ex_net host" where
  "ex_host = \<lparr>host_socket = (\<lambda>_. Inr ()), net_addr = (\<lambda>net. case net of Net a _ \<Rightarrow> a), net_netmask = (\<lambda>_. V4 0xFFFFFF00),
     net_to_string = show_net ex_printer, create_as_async = (\<lambda>_. Inr ()), tun_name = Some (lit ''tun0''), macos = True,
     route_output = (\<lambda>_ _. Inr \<lparr>out_success = True, out_stderr = []\<rparr>)\<rparr>"

definition ex_tun :: "ex_net TunConfig" where
  "ex_tun = \<lparr>tc_address = Net (V4 0x0A000001) 24, tc_mtu = 1420\<rparr>"

definition ex_peers :: "(bytes \<times> ex_net DevicePeerConfig) list" where
  "ex_peers =
     [(ex_key 1, \<lparr>dpc_endpoint = Some ex_addr, dpc_preshared_key = Some (ex_key 3), dpc_persistent_keepalive = Some (from_secs 25),
        dpc_allowed_ips = [Net (V4 0x0A000002) 32, Net (V4 0x0A010000) 16]\<rparr>),
      (ex_key 2, \<lparr>dpc_endpoint = None, dpc_preshared_key = None, dpc_persistent_keepalive = None, dpc_allowed_ips = []\<rparr>)]"

definition ex_text :: str where
  "ex_text = config_text ex_base64 ex_printer 51820 (ex_key 5) ex_tun ex_peers"

lemma ex_peers_ok: "list_all peer_config_ok ex_peers" "distinct (map fst ex_peers)"
  by (auto simp: ex_peers_def peer_config_ok_def key_ok_def interval_ok_def ex_key_def intro!: exI [of _ 25])

lemma ex_keys_ok: "length (ex_key 5) = 32" "length (ex_key 6) = 32"
  by (simp_all add: ex_key_def)

lemma ex_host_ok:
  "host_socket ex_host \<lparr>sa_ip = V4 0, sa_port = 51820\<rparr> = Inr ()" "create_tun ex_host ex_tun = Inr ()"
  "tun_name ex_host = Some (lit ''tun0'')" "lit ''tun0'' \<noteq> []" "routes_granted ex_host"
  by (simp_all add: ex_host_def lit_def create_tun_def routes_granted_def)

lemma ex_mtu: "unat (tc_mtu ex_tun) = 1420"
  by (simp add: ex_tun_def)

lemma ex_up:
  "\<exists>d :: (ex_net, u64) Device. bring_up ex_value_env ex_base64 ex_ipnet ex_crypto ex_net_env (ex_key 6) ex_host ex_text = Some (Inr (d, 1420))"
  using bring_up_text [OF ex_crypto_ok ex_tai_ok ex_loop_ok(1) _ ex_ipnet_ok ex_base64_ok ex_printer_ok ex_keys_ok ex_peers_ok
      ex_host_ok, of "\<lambda>_. ex_env"]
  unfolding ex_text_def ex_mtu by auto



text \<open>
  C25: only the host can stop the program. Whatever the configuration file contains, parsing it and bringing up the
  device does not panic; and once the program runs, whatever the interface delivers and whatever the tunnel does in
  between, each round of the packet loop ends without a panic. It keeps the device in a reachable state, writes to the interface only
  packets of the peer that owns their source, and returns an error only if reading or writing the interface failed.
\<close>

theorem program_keeps_running:
  fixes T :: "('ts::linorder) tai" and N :: "'net ipnet"
  assumes "crypto_ok C" and "tai_ok T" and "net_env_ok NE" and "\<forall>ch. env_ok (E ch)" and "ipnet_ok N"
    and "base64_ok B" and "length secret = 32"
  shows "(\<exists>r :: failure + ('net, 'ts) Device \<times> nat. bring_up V B N C NE secret H text = Some r) \<and>
    (\<forall>d0 mtu out d event. bring_up V B N C NE secret H text = Some (Inr (d0, mtu)) \<longrightarrow> run_packets N C T NE E mtu d0 out d \<longrightarrow>
      loop_enabled C T E d event \<longrightarrow>
      (\<exists>r packets d'. loop_step N C T NE E mtu d event = Some (r, packets, d') \<and> device_reachable N C T NE E d' \<and>
        (r = Continue \<or> (\<exists>e. r = Return (Io e) \<and> (event = TunRead (Inl e) \<or> event = TunWrite (Inl e)))) \<and>
        (\<forall>p \<in> set packets. \<exists>packet \<in> set (tn_inbound (dv_tunnel d)). accepts N d packet p)))"
proof (intro conjI allI impI)
  show "\<exists>r :: failure + ('net, 'ts) Device \<times> nat. bring_up V B N C NE secret H text = Some r" by (rule bring_up_total [OF assms(6)])
next
  fix d0 d :: "('net, 'ts) Device" and mtu out event
  assume up: "bring_up V B N C NE secret H text = Some (Inr (d0, mtu))"
    and run: "run_packets N C T NE E mtu d0 out d" and ev: "loop_enabled C T E d event"
  show "\<exists>r packets d'. loop_step N C T NE E mtu d event = Some (r, packets, d') \<and> device_reachable N C T NE E d' \<and>
      (r = Continue \<or> (\<exists>e. r = Return (Io e) \<and> (event = TunRead (Inl e) \<or> event = TunWrite (Inl e)))) \<and>
      (\<forall>p \<in> set packets. \<exists>packet \<in> set (tn_inbound (dv_tunnel d)). accepts N d packet p)"
    by (rule loop_step_ok [OF assms(1-5) run_packets_reachable [OF assms(1-5) bring_up_reachable [OF assms(6,7) up] run] ev])
qed

theorem program_keeps_running_witness:
  "\<exists>d :: (ex_net, u64) Device. bring_up ex_value_env ex_base64 ex_ipnet ex_crypto ex_net_env (ex_key 6) ex_host ex_text = Some (Inr (d, 1420)) \<and>
    (\<exists>packets d'. loop_step ex_ipnet ex_crypto ex_tai ex_net_env (\<lambda>_. ex_env) 1420 d (TunRead (Inr ex_ip)) = Some (Continue, packets, d'))"
proof -
  obtain d :: "(ex_net, u64) Device" where
    up: "bring_up ex_value_env ex_base64 ex_ipnet ex_crypto ex_net_env (ex_key 6) ex_host ex_text = Some (Inr (d, 1420))"
    using ex_up by blast
  have ev: "loop_enabled ex_crypto ex_tai (\<lambda>_. ex_env) d (TunRead (Inr ex_ip))" by simp
  have env: "\<forall>ch :: chan. env_ok ex_env" by simp
  have "\<exists>r packets d'. loop_step ex_ipnet ex_crypto ex_tai ex_net_env (\<lambda>_. ex_env) 1420 d (TunRead (Inr ex_ip)) = Some (r, packets, d') \<and>
      (r = Continue \<or> (\<exists>e. TunRead (Inr ex_ip) = TunRead (Inl e) \<or> TunRead (Inr ex_ip) = (TunWrite (Inl e) :: u64 loop_event)))"
    using conjunct2 [OF program_keeps_running [OF ex_crypto_ok ex_tai_ok ex_loop_ok(1) env ex_ipnet_ok ex_base64_ok ex_keys_ok(2)],
        rule_format, OF up run_packets.start ev] by blast
  then show ?thesis using up by auto
qed

end
