(* ===== verification/Actor_Handshake.thy ===== *)
theory Actor_Handshake
  imports Actor_Runs
begin

text \<open>
  The four iterations of two actors that bring up a session: the initiator sends its message and
  keeps the payload, the responder answers, the initiator completes the handshake and sends
  the payload, and the responder delivers it. Each lemma gives what the actor puts on the wire and hands to
  the read loop and the inbound queue, when the socket and the queue take what they are given.
\<close>

lemma flush_nothing [simp]: "flush_sends C T E a [] = Some a"
  by (simp add: flush_sends_def)

lemma process_eqs:
  "process_actions C T E a [RecvData data i ep] [] = recv_data_action C T E (reading a) (clock E a) data i ep"
  "process_actions C T E a [RecvHandshakeInit hs ep] [] = recv_init_action C T E (reading a) (clock E a) hs ep"
  "process_actions C T E a [RecvHandshakeResp resp ep] [] = recv_resp_action C T E (reading a) (clock E a) resp ep"
  "process_actions C T E a [Connect ep, SendData payload] [] =
     Option.bind (apply_endpoint C T E (reading a) ep) (\<lambda>b. flush_sends C T E b [payload])"
  by (simp_all add: handle_message_def read_env_eq reading_def clock_def)

text \<open>What an actor that sends a handshake message emits; the rest of its outputs stays.\<close>

definition announces :: "'ts PeerActor \<Rightarrow> 'ts Peer \<Rightarrow> u32 option \<Rightarrow> u32 \<Rightarrow> SocketAddr \<Rightarrow> bytes \<Rightarrow> 'ts PeerActor \<Rightarrow> bool" where
  "announces a m old index e msg b \<longleftrightarrow> pa_machine b = m \<and> pa_our_key b = pa_our_key a \<and> pa_inbound b = pa_inbound a \<and>
     pa_control b = pa_control a @ retire_msgs (p_peer_key m) old @ [Bind (p_peer_key m) index] \<and>
     pa_wire b = pa_wire a @ [\<lparr>tx_destination = e, tx_contents = msg, tx_segment_size = None\<rparr>]"

lemma send_handshake_sends:
  assumes E: "env_ok E" and up: "\<forall>k. env_socket_send E k" and e: "p_endpoint (pa_machine a) = Some e"
    and init: "Peer_initiate C T (pa_machine a) (pa_our_key a) (values_at E k) (replicate INIT_MSG_LENGTH 0) =
      Some (Inr old, m, msg)" and k: "k = pa_tick a + 2"
  shows "\<exists>b. send_handshake C T E a t = Some b \<and> announces a m old (env_index E k) e msg b \<and>
    pa_handshake b \<noteq> None \<and> pa_staged b = pa_staged a"
  using send_handshake_eq [OF E e k init refl refl, of t] up by (fastforce simp: announces_def)

text \<open>A payload that finds no session is staged.\<close>

lemma flush_without_session:
  assumes C: "crypto_ok C" and m: "Peer_ok (pa_machine a)" "p_current (pa_machine a) = None"
    and a: "pa_staged a = []" "pa_handshake a \<noteq> None" and p: "length payload < AEAD_P_MAX"
  shows "\<exists>st n. flush_sends C T E a [payload] =
    Some (a\<lparr>pa_status := st, pa_tick := n, pa_session := None, pa_staged := [payload]\<rparr>)"
proof -
  let ?a = "a\<lparr>pa_tick := pa_tick a + 2\<rparr>" and ?gso = "env_max_gso_segments E (pa_tick a + 1)"
  have zero: "capacity (pa_machine a) now = 0" for now using m(2) by (simp add: capacity_def)
  obtain W st n where loop: "flush_loop C E (clock E a) ?gso [payload] 0 False False ?a =
      Some (0, W \<noteq> [], False, a\<lparr>pa_wire := pa_wire a @ W, pa_status := st, pa_tick := n\<rparr>)"
      and W: "sent_ok C E ?gso (pa_machine a) [] W"
    using flush_loop_eq [OF C, of "[payload]" ?a 0 0 "clock E a" E ?gso False False] m(1) p by (auto simp: zero)
  have "W = []" using W by (cases W) (auto simp: sent_ok_def batch_ok_def)
  then show ?thesis using loop a
    by (auto simp: flush_sends_def read_env_eq clock_def stage_eq last_n_def MAX_STAGED_PACKETS_def ensure_handshake_def)
qed

text \<open>The initiator connects, sends its first message and keeps the payload.\<close>

lemma actor_connects:
  assumes C: "crypto_ok C" and T: "tai_ok T" and E: "env_ok E" and p: "length payload < AEAD_P_MAX"
    and up: "\<forall>k. env_socket_send E k" and m: "Peer_ok (pa_machine a)" "p_current (pa_machine a) = None"
    and a: "pa_staged a = []" "pa_handshake a = None"
    and init: "Peer_initiate C T (set_endpoint (pa_machine a) e) (pa_our_key a) (values_at E (pa_tick a + 4))
      (replicate INIT_MSG_LENGTH 0) = Some (Inr old, m, msg)"
  shows "\<exists>b. process_actions C T E a [Connect e, SendData payload] [] = Some b \<and>
    announces a m old (env_index E (pa_tick a + 4)) e msg b \<and> pa_staged b = [payload]"
proof -
  let ?a = "a\<lparr>pa_machine := set_endpoint (pa_machine a) e, pa_status := (pa_status a)\<lparr>st_endpoint := Some e\<rparr>,
    pa_tick := pa_tick a + 2\<rparr>"
  have "p_endpoint (pa_machine ?a) = Some e" "pa_tick a + 4 = pa_tick ?a + 2" by (simp_all add: set_endpoint_def)
  moreover have "Peer_initiate C T (pa_machine ?a) (pa_our_key ?a) (values_at E (pa_tick a + 4)) (replicate INIT_MSG_LENGTH 0) =
      Some (Inr old, m, msg)" using init by simp
  ultimately obtain b where b: "send_handshake C T E ?a (env_now E (pa_tick a + 1)) = Some b"
      "announces ?a m old (env_index E (pa_tick a + 4)) e msg b" "pa_handshake b \<noteq> None" "pa_staged b = []"
    using send_handshake_sends [OF E up] a(1) by fastforce
  then have ep: "apply_endpoint C T E (reading a) e = Some b" using a(2)
    by (simp add: apply_endpoint_def ensure_handshake_def update_status_def read_env_eq reading_def)
  have "Peer_ok (set_endpoint (pa_machine a) e)" using m(1) by (auto simp: set_endpoint_def peer_inv)
  from Peer_initiate_total [OF C T this, of "pa_our_key a" "values_at E (pa_tick a + 4)" "replicate INIT_MSG_LENGTH 0"]
  have "Peer_ok m" "p_current m = None"
    unfolding init using m(2) by (auto simp: same_sessions_def all_slots set_endpoint_def)
  moreover have "pa_machine b = m" using b(2) by (simp add: announces_def)
  ultimately show ?thesis using flush_without_session [OF C _ _ b(4,3) p, of T E] b(2) ep
    unfolding process_eqs by (auto simp: announces_def)
qed

text \<open>The responder answers.\<close>

lemma actor_responds:
  assumes up: "\<forall>k. env_socket_send E k"
    and resp: "Peer_respond C T (pa_machine a) (clock E a) hs (values_at E (pa_tick a + 1)) source
      (replicate RESP_MSG_LENGTH 0) = Some (Inr old, m, msg)"
  shows "\<exists>b. process_actions C T E a [RecvHandshakeInit hs source] [] = Some b \<and>
    announces a m old (env_index E (pa_tick a + 1)) source msg b \<and> pa_staged b = pa_staged a"
  unfolding process_eqs using resp up
  by (simp add: recv_init_action_def reading_def fresh_values_at values_at_index retire_index_eq bind_index_def
      socket_send_def read_env_eq update_status_def announces_def Let_def)

text \<open>The initiator completes the handshake and sends what it kept.\<close>

lemma single_transmission:
  assumes W: "sent_ok C E gso m [payload] W" and up: "\<forall>k. env_socket_send E k" and s: "p_current m = Some s"
  obtains tr where "W = [tr]" "p_endpoint m = Some (tx_destination tr)" "datagrams tr = [data_packet C (s_transport s) payload]"
proof -
  have d: "concat (map datagrams W) = [data_packet C (s_transport s) payload]"
    and ok: "\<forall>tr \<in> set W. p_endpoint m = Some (tx_destination tr) \<and> datagrams tr \<noteq> []"
    using W up s by (simp_all add: sent_ok_def batch_ok_def outgoing_def)
  obtain tr V where W': "W = tr # V" using d by (cases W) auto
  have "V = []" using d ok W' by (cases V) (auto simp: append_eq_Cons_conv)
  then show thesis using that d ok W' by simp
qed

lemma actor_completes:
  assumes C: "crypto_ok C" and T: "tai_ok T" and E: "env_ok E" and a: "actor_ok E a" "pa_staged a = [payload]"
    and up: "\<forall>k. env_socket_send E k"
    and res: "handshake_response C (pa_machine a) (pa_our_key a) (clock E a) resp source = Some (Inr old, m, p)"
      "p_current m = Some s" "p_endpoint m = Some source"
    and fresh: "\<forall>k. duration_since (env_now E k) (clock E a) < REJECT_AFTER_TIME"
  shows "\<exists>b tr H. process_actions C T E a [RecvHandshakeResp resp source] [] = Some b \<and> pa_wire b = pa_wire a @ tr # H \<and>
    tx_destination tr = source \<and> datagrams tr = [data_packet C (s_transport s) payload] \<and> pa_inbound b = pa_inbound a"
proof -
  obtain b where b: "recv_resp_action C T E (reading a) (clock E a) resp source = session_established C T E b True"
      "actor_ok E b" "pa_machine b = m" "pa_staged b = [payload]" "pa_wire b = pa_wire a" "pa_inbound b = pa_inbound a"
    using recv_resp_established [OF C E a(1) res(1)] a(2) by auto
  let ?b = "b\<lparr>pa_staged := []\<rparr>"
  have ok: "actor_ok E ?b" "\<forall>p \<in> set [payload]. length p < AEAD_P_MAX" using b(2,4) by (simp_all add: actor_inv)
  obtain c where c: "flush_sends C T E ?b [payload] = Some c" "flushed C E ?b [payload] c"
    using flush_sends_ok [OF C T E ok] by blast
  have "capacity m (clock E ?b) = unat REJECT_AFTER_MESSAGES"
    by (rule handshake_response_capacity [OF C res(1)]) (use fresh in \<open>simp add: clock_def\<close>)
  then have k: "min (length [payload]) (capacity (pa_machine ?b) (clock E ?b)) = 1" using b(3) by simp
  obtain W H where W: "pa_wire c = pa_wire ?b @ W @ H" "pa_inbound c = pa_inbound ?b"
      "sent_ok C E (env_max_gso_segments E (pa_tick ?b + 1)) m [payload] W"
    using c(2) b(3) unfolding flushed_def k Let_def by auto
  obtain tr where "W = [tr]" "p_endpoint m = Some (tx_destination tr)" "datagrams tr = [data_packet C (s_transport s) payload]"
    by (rule single_transmission [OF W(3) up res(2)])
  moreover have "process_actions C T E a [RecvHandshakeResp resp source] [] = Some (c\<lparr>pa_session_tx := True\<rparr>)"
    unfolding process_eqs using b(1,4) c(1) by (simp add: session_established_def flush_staged_def)
  ultimately show ?thesis using W(1,2) b(5,6) res(3) by auto
qed

text \<open>The responder delivers the first packet, which confirms its session.\<close>

lemma actor_delivers:
  assumes room: "\<forall>k. env_inbound_room E k" and a: "pa_staged a = []"
    and dec: "decrypt C (pa_machine a) (clock E a) i data source = Some (Inr rv, m, d)" "rv_confirmed rv" "0 < rv_payload_len rv"
  shows "\<exists>b. process_actions C T E a [RecvData data i source] [] = Some b \<and>
    pa_inbound b = pa_inbound a @ [\<lparr>pk_public_key = p_peer_key m, pk_payload = take (rv_payload_len rv) d\<rparr>]"
  unfolding process_eqs using assms
  by (simp add: recv_data_action_def reading_def retire_index_eq read_env_eq update_status_def
      inbound_try_send_def session_established_def flush_staged_def ActorSession_new_def packet_received_def
      rekey_after_receive_def Let_def)

end
