(* ===== verification/Network.thy ===== *)
theory Network
  imports Actor_Handshake Device_Runs
begin

text \<open>
  Two devices that talk to each other. A step of the network is a round of work on one of the hosts: an
  iteration of one of its actors, a routing update, or a batch of datagrams that the other
  host has sent to it before. Nobody calls a method meanwhile. Datagrams can be lost, delayed,
  reordered and repeated.
\<close>

section \<open>Steps of the network\<close>

datatype party = Alice | Bob

fun other :: "party \<Rightarrow> party" where
  "other Alice = Bob"
| "other Bob = Alice"

type_synonym ('net, 'ts) network = "party \<Rightarrow> ('net, 'ts) Device"

text \<open>What a tunnel has sent to an address: the datagrams of its actors and its cookie replies.\<close>

definition transmitted :: "'ts Tunnel \<Rightarrow> SocketAddr \<Rightarrow> bytes \<Rightarrow> bool" where
  "transmitted tn addr msg \<longleftrightarrow>
     (\<exists>a \<in> ran (tn_actors tn). \<exists>tr \<in> set (pa_wire a). tx_destination tr = addr \<and> msg \<in> set (datagrams tr)) \<or>
     (addr, msg) \<in> set (rl_replies (tn_read tn))"

text \<open>The work of the host at \<open>here\<close>; the tunnel at \<open>there\<close> is \<open>sender\<close>.\<close>

fun unattended :: "SocketAddr \<Rightarrow> SocketAddr \<Rightarrow> 'ts Tunnel \<Rightarrow> 'ts tunnel_event \<Rightarrow> bool" where
  "unattended here there sender (ActorRound _ _) \<longleftrightarrow> True"
| "unattended here there sender (ReadRound RoutingUpdate) \<longleftrightarrow> True"
| "unattended here there sender (ReadRound (Received bufs metas n)) \<longleftrightarrow>
     (\<forall>(source, msg) \<in> set (messages (take n (zip bufs metas))). source = there \<and> transmitted sender here msg)"
| "unattended here there sender _ \<longleftrightarrow> False"

fun network_step ::
  "'net ipnet \<Rightarrow> crypto \<Rightarrow> ('ts::linorder) tai \<Rightarrow> (party \<Rightarrow> net_env) \<Rightarrow> (party \<Rightarrow> chan \<Rightarrow> 'ts env) \<Rightarrow>
     ('net, 'ts) network \<Rightarrow> party \<times> 'ts tunnel_event \<Rightarrow> ('net, 'ts) network option" where
  "network_step N C T NE E net (h, event) =
     map_option (\<lambda>d. net(h := d)) (device_step N C T (NE h) (E h) (net h) (Background event))"

fun network_enabled ::
  "crypto \<Rightarrow> ('ts::linorder) tai \<Rightarrow> (party \<Rightarrow> chan \<Rightarrow> 'ts env) \<Rightarrow> (party \<Rightarrow> SocketAddr) \<Rightarrow> ('net, 'ts) network \<Rightarrow>
     party \<times> 'ts tunnel_event \<Rightarrow> bool" where
  "network_enabled C T E addr net (h, event) \<longleftrightarrow>
     device_enabled C T (E h) (net h) (Background event :: ('net, 'ts) device_event) \<and>
       unattended (addr h) (addr (other h)) (dv_tunnel (net (other h))) event"

abbreviation network_reaches ::
  "'net ipnet \<Rightarrow> crypto \<Rightarrow> ('ts::linorder) tai \<Rightarrow> (party \<Rightarrow> net_env) \<Rightarrow> (party \<Rightarrow> chan \<Rightarrow> 'ts env) \<Rightarrow>
     (party \<Rightarrow> SocketAddr) \<Rightarrow> ('net, 'ts) network \<Rightarrow> ('net, 'ts) network \<Rightarrow> bool" where
  "network_reaches N C T NE E addr \<equiv> reach (network_step N C T NE E) (network_enabled C T E addr)"

definition network_ok :: "'net ipnet \<Rightarrow> (party \<Rightarrow> chan \<Rightarrow> 'ts env) \<Rightarrow> ('net, 'ts) network \<Rightarrow> bool" where
  "network_ok N E net \<longleftrightarrow> (\<forall>h. device_ok N (E h) (net h))"

text \<open>Whatever the network does, the devices stay consistent and no step panics.\<close>

interpretation networks: guarded "network_step N C T NE E" "network_enabled C T E addr"
  "\<lambda>net. crypto_ok C \<and> tai_ok T \<and> (\<forall>h. net_env_ok (NE h) \<and> (\<forall>ch. env_ok (E h ch))) \<and> network_ok N E net"
proof (unfold_locales, elim conjE)
  fix net :: "('a, 'b) network" and ev :: "party \<times> 'b tunnel_event"
  assume ok: "crypto_ok C" "tai_ok T" "\<forall>h. net_env_ok (NE h) \<and> (\<forall>ch. env_ok (E h ch))" "network_ok N E net"
    and en: "network_enabled C T E addr net ev"
  obtain h event where ev: "ev = (h, event)" by (cases ev)
  obtain d where "device_step N C T (NE h) (E h) (net h) (Background event) = Some d" "device_ok N (E h) d"
    using device_step_ok [of C T "NE h" "E h" N "net h" "Background event"] ok en ev by (auto simp: network_ok_def)
  then show "\<exists>net'. network_step N C T NE E net ev = Some net' \<and> crypto_ok C \<and> tai_ok T \<and>
      (\<forall>h. net_env_ok (NE h) \<and> (\<forall>ch. env_ok (E h ch))) \<and> network_ok N E net'"
    using ok ev by (auto simp: network_ok_def)
qed

section \<open>One host\<close>

text \<open>
  A tunnel that has the other host as a peer on channel \<open>ch\<close>, and where it is in its exchange with it: the
  actor of the peer, what waits in the queues, the routes of the read loop, the packets for
  the caller, and a bound on the handshake messages counted in the current window.
\<close>

definition configured :: "crypto \<Rightarrow> (chan \<Rightarrow> 'ts env) \<Rightarrow> bytes \<Rightarrow> bytes \<Rightarrow> chan \<Rightarrow> 'ts Tunnel \<Rightarrow> bool" where
  "configured C E our_key peer_key ch tn \<longleftrightarrow> tunnel_ok E tn \<and> tn_alive tn \<and>
     rt_peers (tn_router tn) peer_key = Some ch \<and> rl_our_private (tn_read tn) = our_key \<and>
     lg_verifier (rl_guard (tn_read tn)) = Verifier_new C (x25519_public C our_key) \<and>
     lg_max_per_second (rl_guard (tn_read tn)) = MAX_HANDSHAKES_PER_SECOND"

definition phase ::
  "'ts Tunnel \<Rightarrow> chan \<Rightarrow> 'ts PeerActor \<Rightarrow> 'ts PeerAction list \<Rightarrow> Control list \<Rightarrow> IndexRouter \<Rightarrow> Packet list \<Rightarrow> nat \<Rightarrow> bool" where
  "phase tn ch a queue control routes inbound n \<longleftrightarrow> tn_actors tn ch = Some a \<and> rt_queues (tn_router tn) ch = queue \<and>
     rt_control (tn_router tn) = control \<and> rl_indices (tn_read tn) = routes \<and> tn_inbound tn = inbound \<and>
     unat (lg_handshakes (rl_guard (tn_read tn))) \<le> n"

definition moves ::
  "crypto \<Rightarrow> ('ts::linorder) tai \<Rightarrow> net_env \<Rightarrow> (chan \<Rightarrow> 'ts env) \<Rightarrow> 'ts Tunnel \<Rightarrow> 'ts tunnel_event \<Rightarrow> 'ts Tunnel \<Rightarrow> bool" where
  "moves C T NE E tn event tn' \<longleftrightarrow> tunnel_enabled C T E tn event \<and> tunnel_step C T NE E tn event = Some tn'"

definition host_ok :: "crypto \<Rightarrow> ('ts::linorder) tai \<Rightarrow> net_env \<Rightarrow> (chan \<Rightarrow> 'ts env) \<Rightarrow> bool" where
  "host_ok C T NE E \<longleftrightarrow> crypto_ok C \<and> tai_ok T \<and> net_env_ok NE \<and> (\<forall>ch. env_ok (E ch))"

lemma moves_ok: "host_ok C T NE E \<Longrightarrow> tunnel_ok E tn \<Longrightarrow> moves C T NE E tn event tn' \<Longrightarrow> tunnel_ok E tn'"
  using tunnel_step_ok [of C T NE E tn event] by (auto simp: host_ok_def moves_def)

lemma phase_actor_ok: "configured C E our_key peer_key ch tn \<Longrightarrow> phase tn ch a q cs ir inb n \<Longrightarrow> actor_ok (E ch) a"
  by (simp add: configured_def phase_def tunnel_ok_def)

text \<open>The actor takes everything in its queue.\<close>

lemma actor_moves:
  assumes ok: "host_ok C T NE E" and tn: "configured C E our_key peer_key ch tn"
    and ph: "phase tn ch a queue [] routes [] n" and queue: "queue \<noteq> []"
    and b: "process_actions C T (E ch) a queue [] = Some b" "pa_control b = pa_control a @ control"
      "pa_inbound b = pa_inbound a @ inbound" "length inbound \<le> 1"
  obtains tn' where "moves C T NE E tn (ActorRound ch (Actions queue)) tn'" "configured C E our_key peer_key ch tn'"
    "phase tn' ch b [] control routes inbound n"
proof -
  have it: "iteration C T (E ch) a (Actions queue) = Some b"
    using iteration_eq [OF _ phase_actor_ok [OF tn ph]] ok b(1) by (simp add: host_ok_def)
  let ?tn = "publish tn ch [] a b"
  have m: "moves C T NE E tn (ActorRound ch (Actions queue)) ?tn"
    using ph queue it b(3,4)
    by (auto simp: moves_def phase_def actor_step_def inbound_fits_def INBOUND_QUEUE_CAPACITY_def)
  have "tunnel_ok E tn" using tn by (simp add: configured_def)
  from moves_ok [OF ok this m] have "configured C E our_key peer_key ch ?tn"
    using tn by (simp add: configured_def publish_def Let_def)
  moreover have "phase ?tn ch b [] control routes inbound n"
    using ph b(2,3) by (simp add: phase_def publish_def Let_def)
  ultimately show thesis using that m by blast
qed

text \<open>The read loop takes up the route of a new receiver index.\<close>

lemma routing_moves:
  assumes ok: "host_ok C T NE E" and tn: "configured C E our_key peer_key ch tn"
    and ph: "phase tn ch a queue [Bind peer_key i] routes inbound n" and i: "i \<notin> dom routes"
  obtains tn' where "moves C T NE E tn (ReadRound RoutingUpdate) tn'" "configured C E our_key peer_key ch tn'"
    "phase tn' ch a queue [] (routes(i \<mapsto> ch)) inbound n"
proof -
  let ?tn = "tn\<lparr>tn_read := (tn_read tn)\<lparr>rl_indices := routes(i \<mapsto> ch)\<rparr>, tn_router := (tn_router tn)\<lparr>rt_control := []\<rparr>\<rparr>"
  have m: "moves C T NE E tn (ReadRound RoutingUpdate) ?tn"
    using tn ph i by (auto simp: moves_def phase_def configured_def entry_def)
  have "tunnel_ok E tn" using tn by (simp add: configured_def)
  from moves_ok [OF ok this m] have "configured C E our_key peer_key ch ?tn" using tn by (simp add: configured_def)
  moreover have "phase ?tn ch a queue [] (routes(i \<mapsto> ch)) inbound n" using ph by (simp add: phase_def)
  ultimately show thesis using that m by blast
qed

section \<open>One datagram\<close>

definition datagram :: "SocketAddr \<Rightarrow> bytes \<Rightarrow> 'ts tunnel_event" where
  "datagram source msg =
     ReadRound (Received [msg] [\<lparr>rm_addr = source, rm_len = length msg, rm_stride = length msg\<rparr>] 1)"

lemma datagram_messages:
  "msg \<noteq> [] \<Longrightarrow> messages (take 1 (zip [msg] [\<lparr>rm_addr = source, rm_len = length msg, rm_stride = length msg\<rparr>])) = [(source, msg)]"
  by (simp add: messages_def chunks.simps [of "length msg" msg])

lemma datagram_read:
  assumes "msg \<noteq> []"
  shows "read_loop C T E st (Received [msg] [\<lparr>rm_addr = source, rm_len = length msg, rm_stride = length msg\<rparr>] 1) =
    process_segment C T E st source msg"
proof -
  let ?batch = "take 1 (zip [msg] [\<lparr>rm_addr = source, rm_len = length msg, rm_stride = length msg\<rparr>])"
  have "list_all meta_ok ?batch" by (simp add: meta_ok_def)
  from batch_loop_eq [OF this, of C T E st] show ?thesis unfolding datagram_messages [OF assms] by (cases st) simp
qed

text \<open>A message for the peer's actor, whose queue is empty.\<close>

lemma datagram_moves:
  assumes ok: "host_ok C T NE E" and tn: "configured C E our_key peer_key ch tn"
    and ph: "phase tn ch a [] [] routes inbound n" and n: "n < 25" and msg: "msg \<noteq> []"
    and to: "addressed C T (tn_read tn) (tn_router tn) ch source msg action"
  obtains tn' where "moves C T NE E tn (datagram source msg) tn'" "configured C E our_key peer_key ch tn'"
    "phase tn' ch a [action] [] routes inbound (n + 1)"
proof -
  let ?l = "tn_read tn" and ?rt = "tn_router tn"
  have count: "unat (lg_handshakes (rl_guard ?l)) \<le> n" using ph by (simp add: phase_def)
  have "LoadGuard_ok (rl_guard ?l)" "relaxed (rl_guard ?l)" "crypto_ok C" "net_env_ok NE"
    using tn ok count n
    by (auto simp: configured_def tunnel_ok_def host_ok_def relaxed_def MAX_HANDSHAKES_PER_SECOND_def word_less_nat_alt)
  from message_reaches_actor [OF this(3,4,1,2) to] obtain l where
    l: "process_segment C T NE (?l, ?rt) source msg = Some (l, ?rt\<lparr>rt_queues := (rt_queues ?rt)(ch := [action])\<rparr>)" "rl_kept ?l 1 l"
    using ph count n by (auto simp: phase_def PEER_ACTION_QUEUE_CAPACITY_def)
  let ?tn = "tn\<lparr>tn_read := l, tn_router := ?rt\<lparr>rt_queues := (rt_queues ?rt)(ch := [action])\<rparr>\<rparr>"
  have "round_enabled tn (Received [msg] [\<lparr>rm_addr = source, rm_len = length msg, rm_stride = length msg\<rparr>] 1)"
    using ph n count unfolding round_enabled.simps datagram_messages [OF msg] by (simp add: phase_def meta_ok_def)
  then have m: "moves C T NE E tn (datagram source msg) ?tn"
    using tn l(1) unfolding moves_def datagram_def tunnel_step.simps datagram_read [OF msg] by (simp add: configured_def)
  have "tunnel_ok E tn" using tn by (simp add: configured_def)
  from moves_ok [OF ok this m] have "configured C E our_key peer_key ch ?tn"
    using tn l(2) by (simp add: configured_def rl_kept_def)
  moreover have "phase ?tn ch a [action] [] routes inbound (n + 1)" using ph l(2) by (simp add: phase_def rl_kept_def)
  ultimately show thesis using that m by blast
qed

section \<open>The four parts of the exchange\<close>

text \<open>A run of one host while the other one rests.\<close>

abbreviation host_reaches ::
  "crypto \<Rightarrow> ('ts::linorder) tai \<Rightarrow> net_env \<Rightarrow> (chan \<Rightarrow> 'ts env) \<Rightarrow> SocketAddr \<Rightarrow> SocketAddr \<Rightarrow> 'ts Tunnel \<Rightarrow>
     'ts Tunnel \<Rightarrow> 'ts Tunnel \<Rightarrow> bool" where
  "host_reaches C T NE E here there sender \<equiv>
     reach (tunnel_step C T NE E) (\<lambda>tn event. tunnel_enabled C T E tn event \<and> unattended here there sender event)"

lemma host_moves:
  "host_reaches C T NE E here there sender tn tn' \<Longrightarrow> moves C T NE E tn' event tn'' \<Longrightarrow>
     unattended here there sender event \<Longrightarrow> host_reaches C T NE E here there sender tn tn''"
  by (auto simp: moves_def intro: reach.step)

lemma datagram_unattended:
  "msg \<noteq> [] \<Longrightarrow> transmitted sender here msg \<Longrightarrow> unattended here there sender (datagram there msg)"
  unfolding datagram_def unattended.simps datagram_messages by simp

lemma phase_transmitted:
  "phase tn ch a q cs ir inb n \<Longrightarrow> tr \<in> set (pa_wire a) \<Longrightarrow> tx_destination tr = addr \<Longrightarrow> msg \<in> set (datagrams tr) \<Longrightarrow>
     transmitted tn addr msg"
  unfolding transmitted_def phase_def by (blast intro: ranI)

text \<open>The initiator opens the handshake.\<close>

lemma host_opens:
  assumes ok: "host_ok C T NE E" and tn: "configured C E our_key peer_key ch tn"
    and ph: "phase tn ch a [Connect e, SendData payload] [] routes [] n"
    and a: "p_current (pa_machine a) = None" "pa_staged a = []" "pa_handshake a = None"
    and payload: "length payload < AEAD_P_MAX" and up: "\<forall>k. env_socket_send (E ch) k"
    and init: "Peer_initiate C T (set_endpoint (pa_machine a) e) (pa_our_key a) (values_at (E ch) (pa_tick a + 4))
      (replicate INIT_MSG_LENGTH 0) = Some (Inr None, m, msg)" "p_peer_key m = peer_key"
    and i: "i = env_index (E ch) (pa_tick a + 4)" "i \<notin> dom routes"
  obtains tn' b where "host_reaches C T NE E here there sender tn tn'" "configured C E our_key peer_key ch tn'"
    "phase tn' ch b [] [] (routes(i \<mapsto> ch)) [] n" "announces a m None i e msg b" "pa_staged b = [payload]"
proof -
  have "Peer_ok (pa_machine a)" using phase_actor_ok [OF tn ph] by (simp add: actor_ok_def)
  then obtain b where b: "process_actions C T (E ch) a [Connect e, SendData payload] [] = Some b"
      "announces a m None i e msg b" "pa_staged b = [payload]"
    using actor_connects [of C T "E ch" payload a e None m msg] ok payload up a init(1) i(1) by (auto simp: host_ok_def)
  obtain tn1 where 1: "moves C T NE E tn (ActorRound ch (Actions [Connect e, SendData payload])) tn1"
      "configured C E our_key peer_key ch tn1" "phase tn1 ch b [] [Bind peer_key i] routes [] n"
    by (rule actor_moves [OF ok tn ph _ b(1), where inbound = "[]"]) (use b(2) init(2) in \<open>simp_all add: announces_def retire_msgs_def\<close>)
  obtain tn2 where 2: "moves C T NE E tn1 (ReadRound RoutingUpdate) tn2"
      "configured C E our_key peer_key ch tn2" "phase tn2 ch b [] [] (routes(i \<mapsto> ch)) [] n"
    by (rule routing_moves [OF ok 1(2,3) i(2)])
  show thesis
    by (rule that [OF host_moves [OF host_moves [OF reach.start 1(1)] 2(1)] 2(2,3) b(2,3)]) simp_all
qed

text \<open>The responder answers.\<close>

lemma host_answers:
  assumes ok: "host_ok C T NE E" and tn: "configured C E our_key peer_key ch tn"
    and ph: "phase tn ch a [] [] routes [] n" and n: "n < 25" and up: "\<forall>k. env_socket_send (E ch) k"
    and msg: "msg \<noteq> []" "transmitted sender here msg"
    and to: "addressed C T (tn_read tn) (tn_router tn) ch there msg (RecvHandshakeInit hs there)"
    and resp: "Peer_respond C T (pa_machine a) (clock (E ch) a) hs (values_at (E ch) (pa_tick a + 1)) there
      (replicate RESP_MSG_LENGTH 0) = Some (Inr None, m, reply)" "p_peer_key m = peer_key"
    and i: "i = env_index (E ch) (pa_tick a + 1)" "i \<notin> dom routes"
  obtains tn' b where "host_reaches C T NE E here there sender tn tn'" "configured C E our_key peer_key ch tn'"
    "phase tn' ch b [] [] (routes(i \<mapsto> ch)) [] (n + 1)" "announces a m None i there reply b" "pa_staged b = pa_staged a"
proof -
  obtain tn1 where 1: "moves C T NE E tn (datagram there msg) tn1" "configured C E our_key peer_key ch tn1"
      "phase tn1 ch a [RecvHandshakeInit hs there] [] routes [] (n + 1)"
    by (rule datagram_moves [OF ok tn ph n msg(1) to])
  obtain b where b: "process_actions C T (E ch) a [RecvHandshakeInit hs there] [] = Some b"
      "announces a m None i there reply b" "pa_staged b = pa_staged a"
    using actor_responds [OF up resp(1)] i(1) by auto
  obtain tn2 where 2: "moves C T NE E tn1 (ActorRound ch (Actions [RecvHandshakeInit hs there])) tn2"
      "configured C E our_key peer_key ch tn2" "phase tn2 ch b [] [Bind peer_key i] routes [] (n + 1)"
    by (rule actor_moves [OF ok 1(2,3) _ b(1), where inbound = "[]"]) (use b(2) resp(2) in \<open>simp_all add: announces_def retire_msgs_def\<close>)
  obtain tn3 where 3: "moves C T NE E tn2 (ReadRound RoutingUpdate) tn3"
      "configured C E our_key peer_key ch tn3" "phase tn3 ch b [] [] (routes(i \<mapsto> ch)) [] (n + 1)"
    by (rule routing_moves [OF ok 2(2,3) i(2)])
  show thesis
    by (rule that [OF host_moves [OF host_moves [OF host_moves [OF reach.start 1(1)] 2(1)] 3(1)] 3(2,3) b(2,3)])
      (simp_all add: datagram_unattended [OF msg])
qed

text \<open>The initiator completes the handshake and sends what waits.\<close>

lemma host_completes:
  assumes ok: "host_ok C T NE E" and tn: "configured C E our_key peer_key ch tn"
    and ph: "phase tn ch a [] [] routes [] n" and n: "n < 25" and up: "\<forall>k. env_socket_send (E ch) k"
    and msg: "msg \<noteq> []" "transmitted sender here msg" and a: "pa_staged a = [payload]"
    and to: "addressed C T (tn_read tn) (tn_router tn) ch there msg (RecvHandshakeResp msg there)"
    and res: "handshake_response C (pa_machine a) (pa_our_key a) (clock (E ch) a) msg there = Some (Inr old, m, p)"
      "p_current m = Some s" "p_endpoint m = Some there"
    and fresh: "\<forall>k. duration_since (env_now (E ch) k) (clock (E ch) a) < REJECT_AFTER_TIME"
  obtains tn' where "host_reaches C T NE E here there sender tn tn'" "transmitted tn' there (data_packet C (s_transport s) payload)"
proof -
  obtain tn1 where 1: "moves C T NE E tn (datagram there msg) tn1" "configured C E our_key peer_key ch tn1"
      "phase tn1 ch a [RecvHandshakeResp msg there] [] routes [] (n + 1)"
    by (rule datagram_moves [OF ok tn ph n msg(1) to])
  have "crypto_ok C" "tai_ok T" "env_ok (E ch)" using ok by (simp_all add: host_ok_def)
  from actor_completes [OF this phase_actor_ok [OF tn ph] a up res fresh]
  obtain b tr H where b: "process_actions C T (E ch) a [RecvHandshakeResp msg there] [] = Some b"
    "pa_wire b = pa_wire a @ tr # H" "tx_destination tr = there" "datagrams tr = [data_packet C (s_transport s) payload]"
    "pa_inbound b = pa_inbound a" by blast
  obtain cs where cs: "pa_control b = pa_control a @ cs"
    using grows_process_actions [OF b(1)] by (auto simp: grows_def prefix_def)
  obtain tn2 where 2: "moves C T NE E tn1 (ActorRound ch (Actions [RecvHandshakeResp msg there])) tn2"
      "configured C E our_key peer_key ch tn2" "phase tn2 ch b [] cs routes [] (n + 1)"
    by (rule actor_moves [OF ok 1(2,3) _ b(1) cs, where inbound = "[]"]) (use b(5) in simp_all)
  show thesis
    by (rule that [OF host_moves [OF host_moves [OF reach.start 1(1)] 2(1)] phase_transmitted [OF 2(3), of tr]])
      (use b(2-4) in \<open>simp_all add: datagram_unattended [OF msg]\<close>)
qed

text \<open>The responder delivers.\<close>

lemma host_delivers:
  assumes ok: "host_ok C T NE E" and tn: "configured C E our_key peer_key ch tn"
    and ph: "phase tn ch a [] [] routes [] n" and n: "n < 25" and room: "\<forall>k. env_inbound_room (E ch) k"
    and msg: "msg \<noteq> []" "transmitted sender here msg" and a: "pa_staged a = []"
    and to: "addressed C T (tn_read tn) (tn_router tn) ch there msg (RecvData msg i there)"
    and dec: "decrypt C (pa_machine a) (clock (E ch) a) i msg there = Some (Inr rv, m, d)" "rv_confirmed rv" "0 < rv_payload_len rv"
  obtains tn' where "host_reaches C T NE E here there sender tn tn'"
    "tn_inbound tn' = [\<lparr>pk_public_key = p_peer_key m, pk_payload = take (rv_payload_len rv) d\<rparr>]"
proof -
  obtain tn1 where 1: "moves C T NE E tn (datagram there msg) tn1" "configured C E our_key peer_key ch tn1"
      "phase tn1 ch a [RecvData msg i there] [] routes [] (n + 1)"
    by (rule datagram_moves [OF ok tn ph n msg(1) to])
  obtain b where b: "process_actions C T (E ch) a [RecvData msg i there] [] = Some b"
      "pa_inbound b = pa_inbound a @ [\<lparr>pk_public_key = p_peer_key m, pk_payload = take (rv_payload_len rv) d\<rparr>]"
    using actor_delivers [OF room a dec] by blast
  obtain cs where cs: "pa_control b = pa_control a @ cs"
    using grows_process_actions [OF b(1)] by (auto simp: grows_def prefix_def)
  obtain tn2 where 2: "moves C T NE E tn1 (ActorRound ch (Actions [RecvData msg i there])) tn2"
      "phase tn2 ch b [] cs routes [\<lparr>pk_public_key = p_peer_key m, pk_payload = take (rv_payload_len rv) d\<rparr>] (n + 1)"
    by (rule actor_moves [OF ok 1(2,3) _ b(1) cs b(2)]) simp_all
  show thesis
    by (rule that [OF host_moves [OF host_moves [OF reach.start 1(1)] 2(1)]])
      (use 2(2) in \<open>simp_all add: datagram_unattended [OF msg] phase_def\<close>)
qed

section \<open>Two new peers\<close>

text \<open>
  What the exchange needs of the surroundings: the socket and the inbound queue take what they are
  given, the exchange is over before sessions expire, and the Diffie-Hellman results that the
  code checks are contributory.
\<close>

definition quiet :: "'ts env \<Rightarrow> bool" where
  "quiet E \<longleftrightarrow> (\<forall>k. env_socket_send E k \<and> env_inbound_room E k) \<and>
     (\<forall>j k. duration_since (env_now E j) (env_now E k) < REJECT_AFTER_TIME)"

definition contributory_keys :: "crypto \<Rightarrow> bytes \<Rightarrow> bytes \<Rightarrow> 'ts env \<Rightarrow> 'ts env \<Rightarrow> bool" where
  "contributory_keys C key_i key_r Ei Er \<longleftrightarrow> was_contributory C (x25519_dh C key_i (x25519_public C key_r)) \<and>
     (\<forall>j. was_contributory C (x25519_dh C (env_secret Ei j) (x25519_public C key_r))) \<and>
     (\<forall>j k. was_contributory C (x25519_dh C (env_secret Ei j) (x25519_public C (env_secret Er k))))"

lemma spawn_fields [simp]:
  "pa_our_key (spawn C k pk config st) = k" "pa_staged (spawn C k pk config st) = []"
  "pa_handshake (spawn C k pk config st) = None" "pa_tick (spawn C k pk config st) = 0"
  "pa_machine (spawn C k pk config st) = (Peer_new C pk)\<lparr>p_preshared_key := pc_preshared_key config\<rparr>"
  by (simp_all add: spawn_def set_preshared_key_def)

lemma Peer_new_fields [simp]:
  "p_peer_key (Peer_new C pk) = pk" "p_current (Peer_new C pk) = None" "p_next (Peer_new C pk) = None"
  "p_pending (Peer_new C pk) = None" "p_last_handshake_timestamp (Peer_new C pk) = None"
  "p_cookie_generator (Peer_new C pk) = Generator_new C pk"
  by (simp_all add: Peer_new_def)

text \<open>A handshake message for a new peer passes the check of the host it is for.\<close>

lemma guard_accepts:
  assumes C: "crypto_ok C" and tn: "configured C E our_key peer_key ch tn"
    and "authenticates C (Generator_new C (x25519_public C our_key)) msg"
    and "MessageHeader_try_from msg = Some (Inr header)" and "is_handshake (Inr header)"
  shows "mac1_valid C (rl_guard (tn_read tn)) msg"
proof -
  have "verify_mac_1 C (Verifier_new C (x25519_public C our_key)) msg = Some True"
    using assms(3) Verifier_ok_new [OF C] new_keys_agree(1) by (metis authenticates_def)
  then show ?thesis using assms by (simp add: mac1_valid_def handshake_msg_def configured_def)
qed

lemma header_nonempty: "MessageHeader_try_from msg = Some (Inr header) \<Longrightarrow> msg \<noteq> []"
  by (auto simp: MessageHeader_try_from_eq)

text \<open>The handshake of two new peers, whatever the time when the initiator gets the response.\<close>

lemma new_peers_handshake:
  fixes T :: "'ts::linorder tai"
  assumes C: "crypto_ok C" and T: "tai_ok T"
    and a: "a = spawn C ka (x25519_public C kb) ca sa" and b: "b = spawn C kb (x25519_public C ka) cb sb"
    and psk: "pc_preshared_key ca = pc_preshared_key cb" and keys: "contributory_keys C ka kb Ea Eb"
  obtains A1 m1 hs p1 B1 m2 old A2 p2 ti tr where
    "Peer_initiate C T (set_endpoint (pa_machine a) there) (pa_our_key a) (values_at Ea (pa_tick a + 4)) (replicate INIT_MSG_LENGTH 0) = Some (Inr None, A1, m1)"
    "p_peer_key A1 = x25519_public C kb" "MessageHeader_try_from m1 = Some (Inr HandshakeInit)"
    "authenticates C (Generator_new C (x25519_public C kb) :: 'ts Generator) m1"
    "receive C T kb m1 = Some (Inr hs, p1)" "ir_peer_public hs = x25519_public C ka"
    "Peer_respond C T (pa_machine b) (clock Eb b) hs (values_at Eb (pa_tick b + 1)) here (replicate RESP_MSG_LENGTH 0) = Some (Inr None, B1, m2)"
    "p_peer_key B1 = x25519_public C ka" "MessageHeader_try_from m2 = Some (Inr (HandshakeResponse (env_index Ea (pa_tick a + 4))))"
    "authenticates C (Generator_new C (x25519_public C ka) :: 'ts Generator) m2" "p_next B1 = Some (Session_new tr (clock Eb b))"
    "\<forall>now. handshake_response C A1 (pa_our_key a) now m2 there = Some (Inr old, A2 now, p2) \<and>
      p_current (A2 now) = Some (Session_new ti now) \<and> p_endpoint (A2 now) = Some there"
    "paired ti tr" "t_send_counter ti = 0" "t_our_index tr = env_index Eb (pa_tick b + 1)"
proof -
  let ?A = "set_endpoint (pa_machine a) there"
  have ok: "Peer_ok ?A" "Peer_ok (pa_machine b)"
    using Peer_ok_new [OF C] by (auto simp: a b set_endpoint_def peer_inv)
  have prems: "p_peer_key ?A = x25519_public C kb" "p_preshared_key ?A = p_preshared_key (pa_machine b)"
    "INIT_MSG_LENGTH \<le> length (replicate INIT_MSG_LENGTH 0)" "RESP_MSG_LENGTH \<le> length (replicate RESP_MSG_LENGTH 0)"
    "was_contributory C (x25519_dh C (hv_ephemeral_secret (values_at Ea 4)) (x25519_public C kb))"
    "was_contributory C (x25519_dh C ka (x25519_public C kb))"
    "was_contributory C (x25519_dh C (hv_ephemeral_secret (values_at Ea 4)) (x25519_public C (hv_ephemeral_secret (values_at Eb 1))))"
    "\<not> is_some_and (p_last_handshake_timestamp (pa_machine b)) (\<lambda>last. hv_timestamp (values_at Ea 4) \<le> last)"
    using psk keys by (simp_all add: a b set_endpoint_def contributory_keys_def values_at_def)
  obtain A1 m1 hs p1 B1 m2 old A2 p2 ti tr where hand:
    "Peer_initiate C T ?A ka (values_at Ea 4) (replicate INIT_MSG_LENGTH 0) =
      Some (Inr (map_option ph_our_index (p_pending ?A)), A1, m1 @ drop INIT_MSG_LENGTH (replicate INIT_MSG_LENGTH 0))"
    "MessageHeader_try_from m1 = Some (Inr HandshakeInit)" "authenticates C (p_cookie_generator ?A) m1"
    "receive C T kb m1 = Some (Inr hs, p1)" "ir_peer_public hs = x25519_public C ka"
    "Peer_respond C T (pa_machine b) (clock Eb b) hs (values_at Eb 1) here (replicate RESP_MSG_LENGTH 0) =
      Some (Inr (map_option Session_our_index (p_next (pa_machine b))), B1, m2 @ drop RESP_MSG_LENGTH (replicate RESP_MSG_LENGTH 0))"
    "MessageHeader_try_from m2 = Some (Inr (HandshakeResponse (hv_index (values_at Ea 4))))"
    "authenticates C (p_cookie_generator (pa_machine b)) m2" "p_next B1 = Some (Session_new tr (clock Eb b))"
    "\<forall>now. handshake_response C A1 ka now m2 there = Some (Inr old, A2 now, p2) \<and>
      p_current (A2 now) = Some (Session_new ti now) \<and> p_endpoint (A2 now) = Some there \<and> p_next (A2 now) = p_next ?A"
    "paired ti tr" "t_send_counter ti = 0" "t_our_index tr = hv_index (values_at Eb 1)"
    by (rule peers_handshake [OF C T ok prems, where now_b = "clock Eb b" and src_a = here and src_b = there]) (rule that)
  have "p_peer_key A1 = x25519_public C kb" using Peer_initiate_keeps [OF hand(1)] by (simp add: a set_endpoint_def)
  moreover have "p_peer_key B1 = x25519_public C ka" using Peer_respond_keeps [OF hand(6)] by (simp add: b)
  ultimately show thesis using hand
    by (intro that [of A1 m1 hs p1 B1 m2 tr old A2 p2 ti]) (simp_all add: a b set_endpoint_def)
qed

lemma announces_transmitted:
  "announces a m old i e msg b \<Longrightarrow> phase tn ch b q cs ir inb n \<Longrightarrow> transmitted tn e msg"
  by (rule phase_transmitted) (auto simp: announces_def)

text \<open>The first packet of the initiator opens with the session the responder has prepared.\<close>

lemma first_packet_opens:
  assumes C: "crypto_ok C" and p: "p_next p = Some (Session_new tr now)" and pair: "paired ti tr" "t_send_counter ti = 0"
    and fresh: "duration_since later now < REJECT_AFTER_TIME" and payload: "length payload < AEAD_P_MAX"
  obtains rv q d where "decrypt C p later (t_our_index tr) (data_packet C ti payload) source = Some (Inr rv, q, d)"
    "rv_confirmed rv" "rv_payload_len rv = length payload" "p_peer_key q = p_peer_key p" "take (length payload) d = payload"
proof -
  let ?s = "Session_new tr now"
  have s: "Session_our_index ?s = t_our_index tr" "\<not> Session_expired ?s later"
    using fresh by (simp_all add: Session_our_index_def Session_new_def Session_expired_def)
  obtain f d where d: "Session_receive C ?s (data_packet C ti payload) = Some (Inr (length payload), ?s\<lparr>s_replay := f\<rparr>, d)"
      "take (length payload) d = payload"
    by (rule Session_receive_packet [OF C _ _ payload, of ti ?s]) (use pair in \<open>simp_all add: Session_new_def word_less_nat_alt\<close>)
  obtain rv q where "decrypt C p later (t_our_index tr) (data_packet C ti payload) source = Some (Inr rv, q, d)"
      "rv_payload_len rv = length payload" "rv_confirmed rv" "p_peer_key q = p_peer_key p"
    by (rule decrypt_next [OF p s d(1)]) (rule that)
  then show thesis using that d(2) by blast
qed

text \<open>
  Two tunnels with one another as new peers, one of which has been told to connect and given a
  payload. The handshake messages go across first, and leave the payload staged and a session prepared.
\<close>

lemma new_peers_connect:
  fixes T :: "'ts::linorder tai"
  assumes okA: "host_ok C T NEa Ea" and okB: "host_ok C T NEb Eb"
    and A: "configured C Ea ka (x25519_public C kb) cha tA" "phase tA cha a [Connect there, SendData payload] [] Map.empty [] 0"
      "a = spawn C ka (x25519_public C kb) ca sa"
    and B: "configured C Eb kb (x25519_public C ka) chb tB" "phase tB chb b [] [] Map.empty [] 0"
      "b = spawn C kb (x25519_public C ka) cb sb"
    and psk: "pc_preshared_key ca = pc_preshared_key cb" and keys: "contributory_keys C ka kb (Ea cha) (Eb chb)"
    and quiet: "quiet (Ea cha)" "quiet (Eb chb)" and payload: "length payload < AEAD_P_MAX"
  obtains tA1 a1 tB1 b1 i m2 old A2 p2 ti tr where
    "host_reaches C T NEa Ea here there tB tA tA1" "host_reaches C T NEb Eb there here tA1 tB tB1"
    "configured C Ea ka (x25519_public C kb) cha tA1" "phase tA1 cha a1 [] [] [i \<mapsto> cha] [] 0" "pa_staged a1 = [payload]"
    "configured C Eb kb (x25519_public C ka) chb tB1" "phase tB1 chb b1 [] [] [t_our_index tr \<mapsto> chb] [] (0 + 1)" "pa_staged b1 = []"
    "transmitted tB1 here m2" "m2 \<noteq> []" "addressed C T (tn_read tA1) (tn_router tA1) cha there m2 (RecvHandshakeResp m2 there)"
    "\<forall>now. handshake_response C (pa_machine a1) (pa_our_key a1) now m2 there = Some (Inr old, A2 now, p2) \<and>
      p_current (A2 now) = Some (Session_new ti now) \<and> p_endpoint (A2 now) = Some there"
    "p_next (pa_machine b1) = Some (Session_new tr (clock (Eb chb) b))" "p_peer_key (pa_machine b1) = x25519_public C ka"
    "paired ti tr" "t_send_counter ti = 0"
proof -
  have ok: "crypto_ok C" "tai_ok T" using okA by (simp_all add: host_ok_def)
  have up: "\<forall>k. env_socket_send (Ea cha) k" "\<forall>k. env_socket_send (Eb chb) k" using quiet by (simp_all add: quiet_def)
  obtain A1 m1 hs p1 B1 m2 old A2 p2 ti tr where hand:
    "Peer_initiate C T (set_endpoint (pa_machine a) there) (pa_our_key a) (values_at (Ea cha) (pa_tick a + 4)) (replicate INIT_MSG_LENGTH 0) =
      Some (Inr None, A1, m1)" "p_peer_key A1 = x25519_public C kb" "MessageHeader_try_from m1 = Some (Inr HandshakeInit)"
    "authenticates C (Generator_new C (x25519_public C kb) :: 'ts Generator) m1"
    "receive C T kb m1 = Some (Inr hs, p1)" "ir_peer_public hs = x25519_public C ka"
    "Peer_respond C T (pa_machine b) (clock (Eb chb) b) hs (values_at (Eb chb) (pa_tick b + 1)) here (replicate RESP_MSG_LENGTH 0) =
      Some (Inr None, B1, m2)" "p_peer_key B1 = x25519_public C ka"
    "MessageHeader_try_from m2 = Some (Inr (HandshakeResponse (env_index (Ea cha) (pa_tick a + 4))))"
    "authenticates C (Generator_new C (x25519_public C ka) :: 'ts Generator) m2" "p_next B1 = Some (Session_new tr (clock (Eb chb) b))"
    "\<forall>now. handshake_response C A1 (pa_our_key a) now m2 there = Some (Inr old, A2 now, p2) \<and>
      p_current (A2 now) = Some (Session_new ti now) \<and> p_endpoint (A2 now) = Some there"
    "paired ti tr" "t_send_counter ti = 0" "t_our_index tr = env_index (Eb chb) (pa_tick b + 1)"
    by (rule new_peers_handshake [OF ok A(3) B(3) psk keys, where here = here and there = there]) (rule that)
  have new: "p_current (pa_machine a) = None" "pa_staged a = []" "pa_handshake a = None" "pa_staged b = []" by (simp_all add: A(3) B(3))
  obtain tA1 a1 where A1: "host_reaches C T NEa Ea here there tB tA tA1" "configured C Ea ka (x25519_public C kb) cha tA1"
      "phase tA1 cha a1 [] [] [env_index (Ea cha) (pa_tick a + 4) \<mapsto> cha] [] 0"
      "announces a A1 None (env_index (Ea cha) (pa_tick a + 4)) there m1 a1" "pa_staged a1 = [payload]"
    by (rule host_opens [OF okA A(1,2) new(1-3) payload up(1) hand(1,2) refl]) (simp, rule that)
  have to1: "addressed C T (tn_read tB) (tn_router tB) chb here m1 (RecvHandshakeInit hs here)"
    using guard_accepts [OF ok(1) B(1) hand(4,3)] B(1) hand(5,6)
    by (simp add: addressed_def is_handshake_def configured_def entry_def)
  obtain tB1 b1 where B1: "host_reaches C T NEb Eb there here tA1 tB tB1" "configured C Eb kb (x25519_public C ka) chb tB1"
      "phase tB1 chb b1 [] [] [t_our_index tr \<mapsto> chb] [] (0 + 1)" "announces b B1 None (t_our_index tr) here m2 b1" "pa_staged b1 = pa_staged b"
    by (rule host_answers [OF okB B(1,2) _ up(2) header_nonempty [OF hand(3)] announces_transmitted [OF A1(4,3)] to1 hand(7,8,15)])
      (simp, simp, rule that)
  have to2: "addressed C T (tn_read tA1) (tn_router tA1) cha there m2 (RecvHandshakeResp m2 there)"
    using guard_accepts [OF ok(1) A1(2) hand(10,9)] A1(3) hand(9)
    by (simp add: addressed_def is_handshake_def phase_def)
  show thesis
    by (rule that [OF A1(1) B1(1) A1(2,3,5) B1(2,3) _ announces_transmitted [OF B1(4,3)] header_nonempty [OF hand(9)] to2 _ _ _ hand(13,14),
        of old A2 p2])
      (use hand A1(4) B1(4,5) new(4) in \<open>simp_all add: announces_def\<close>)
qed

text \<open>Then the payload follows.\<close>

lemma new_peers_talk:
  fixes T :: "'ts::linorder tai"
  assumes okA: "host_ok C T NEa Ea" and okB: "host_ok C T NEb Eb"
    and A: "configured C Ea ka (x25519_public C kb) cha tA" "phase tA cha a [Connect there, SendData payload] [] Map.empty [] 0"
      "a = spawn C ka (x25519_public C kb) ca sa"
    and B: "configured C Eb kb (x25519_public C ka) chb tB" "phase tB chb b [] [] Map.empty [] 0"
      "b = spawn C kb (x25519_public C ka) cb sb"
    and psk: "pc_preshared_key ca = pc_preshared_key cb" and keys: "contributory_keys C ka kb (Ea cha) (Eb chb)"
    and quiet: "quiet (Ea cha)" "quiet (Eb chb)" and payload: "payload \<noteq> []" "length payload < AEAD_P_MAX"
  obtains tA1 tB1 tA2 tB2 where "host_reaches C T NEa Ea here there tB tA tA1" "host_reaches C T NEb Eb there here tA1 tB tB1"
    "host_reaches C T NEa Ea here there tB1 tA1 tA2" "host_reaches C T NEb Eb there here tA2 tB1 tB2"
    "tn_inbound tB2 = [\<lparr>pk_public_key = x25519_public C ka, pk_payload = payload\<rparr>]"
proof -
  have C: "crypto_ok C" using okA by (simp add: host_ok_def)
  have up: "\<forall>k. env_socket_send (Ea cha) k" "\<forall>k. env_inbound_room (Eb chb) k"
    and time: "duration_since (env_now (Ea cha) j) (env_now (Ea cha) k) < REJECT_AFTER_TIME"
      "duration_since (env_now (Eb chb) j) (env_now (Eb chb) k) < REJECT_AFTER_TIME" for j k
    using quiet by (simp_all add: quiet_def)
  obtain tA1 a1 tB1 b1 i m2 old A2 p2 ti tr where
    1: "host_reaches C T NEa Ea here there tB tA tA1" "host_reaches C T NEb Eb there here tA1 tB tB1"
      "configured C Ea ka (x25519_public C kb) cha tA1" "phase tA1 cha a1 [] [] [i \<mapsto> cha] [] 0" "pa_staged a1 = [payload]"
      "configured C Eb kb (x25519_public C ka) chb tB1" "phase tB1 chb b1 [] [] [t_our_index tr \<mapsto> chb] [] (0 + 1)" "pa_staged b1 = []"
    and 2: "transmitted tB1 here m2" "m2 \<noteq> []" "addressed C T (tn_read tA1) (tn_router tA1) cha there m2 (RecvHandshakeResp m2 there)"
      "\<forall>now. handshake_response C (pa_machine a1) (pa_our_key a1) now m2 there = Some (Inr old, A2 now, p2) \<and>
        p_current (A2 now) = Some (Session_new ti now) \<and> p_endpoint (A2 now) = Some there"
    and 3: "p_next (pa_machine b1) = Some (Session_new tr (clock (Eb chb) b))" "p_peer_key (pa_machine b1) = x25519_public C ka"
      "paired ti tr" "t_send_counter ti = 0"
    by (rule new_peers_connect [OF okA okB A B psk keys quiet payload(2), where here = here]) (rule that)
  let ?packet = "data_packet C ti payload" and ?now = "clock (Ea cha) a1"
  obtain tA2 where A2: "host_reaches C T NEa Ea here there tB1 tA1 tA2" "transmitted tA2 there ?packet"
    by (rule host_completes [OF okA 1(3,4) _ up(1) 2(2,1) 1(5) 2(3), of old "A2 ?now" p2 "Session_new ti ?now"])
      (use 2(4) time(1) that in \<open>simp_all add: clock_def, simp add: Session_new_def\<close>)
  note header = paired_header [OF C 3(3) payload(2)]
  have to: "addressed C T (tn_read tB1) (tn_router tB1) chb here ?packet (RecvData ?packet (t_our_index tr) here)"
    using header 1(7) by (simp add: addressed_def phase_def)
  have "duration_since (clock (Eb chb) b1) (clock (Eb chb) b) < REJECT_AFTER_TIME" using time(2) by (simp add: clock_def)
  from first_packet_opens [OF C 3(1,3,4) this payload(2)] obtain rv q d where
    dec: "decrypt C (pa_machine b1) (clock (Eb chb) b1) (t_our_index tr) ?packet here = Some (Inr rv, q, d)" "rv_confirmed rv"
      "rv_payload_len rv = length payload" "p_peer_key q = p_peer_key (pa_machine b1)" "take (length payload) d = payload"
    by blast
  obtain tB2 where "host_reaches C T NEb Eb there here tA2 tB1 tB2"
    "tn_inbound tB2 = [\<lparr>pk_public_key = x25519_public C ka, pk_payload = payload\<rparr>]"
    by (rule host_delivers [OF okB 1(6,7) _ up(2) header_nonempty [OF header] A2(2) 1(8) to dec(1,2)])
      (use dec(3-5) payload(1) 3(2) that in simp_all)
  then show thesis using that 1(1,2) A2(1) by blast
qed

end
