(* ===== verification/Delivery.thy ===== *)
theory Delivery
  imports Network
begin

text \<open>
  From the creation of two devices to the delivery of a packet: what a device looks like after its first peer has been
  added, and how runs of the single hosts make up a run of the network.
\<close>

section \<open>Runs of one host are runs of the network\<close>

lemma other_distinct [simp]: "other h \<noteq> h" "h \<noteq> other h"
  by (cases h; simp)+

lemma unattended_background: "unattended here there sender event \<Longrightarrow> background event"
  by (induction here there sender event rule: unattended.induct) simp_all

lemma host_run:
  assumes "host_reaches C T (NE h) (E h) (addr h) (addr (other h)) (dv_tunnel (net (other h))) (dv_tunnel (net h)) tn"
  shows "network_reaches N C T NE E addr net (net(h := (net h)\<lparr>dv_tunnel := tn\<rparr>))"
  using assms
proof (induction rule: reach.induct)
  case start
  have "net(h := (net h)\<lparr>dv_tunnel := dv_tunnel (net h)\<rparr>) = net" by simp
  then show ?case using reach.start by metis
next
  case (step tn event tn')
  show ?case
    by (rule reach.step [OF step.IH, where x = "(h, event)"]) (use step.hyps unattended_background in auto)
qed

section \<open>A device with its first peer\<close>

definition first_actions :: "'net DevicePeerConfig \<Rightarrow> 'ts PeerAction list" where
  "first_actions config = (case dpc_endpoint config of None \<Rightarrow> [] | Some endpoint \<Rightarrow> [Connect endpoint])"

lemma first_peer:
  fixes E :: "chan \<Rightarrow> 'ts env" and d :: "('net, 'ts) Device"
  assumes ok: "crypto_ok C" "ipnet_ok N" "length secret = 32"
    and new: "Device_new C NE secret (Inr () :: unit + unit) config = Inr start"
    and add: "Device_add_peer N C start key peer = (Inr () :: unit DeviceError + unit, d)"
    and keepalive: "\<forall>i. dpc_persistent_keepalive peer = Some i \<longrightarrow> i \<le> KEEPALIVE_MAX"
  shows "device_ok N E d"
    and "configured C E (dc_private_key config) key 0 (dv_tunnel d)"
    and "\<exists>st. phase (dv_tunnel d) 0 (spawn C (dc_private_key config) key (fst (PeerConfig_take_tunnel peer)) st)
      (first_actions peer) [] Map.empty [] 0"
    and "\<exists>n \<in> set (dpc_allowed_ips peer). net_contains N n addr \<Longrightarrow>
      longest_match N (dv_allowed_ips d) addr = Some \<lparr>ps_public_key = key, ps_chan = 0\<rparr>"
proof -
  have "device_ok N E start" by (rule device_new_ok [OF ok new])
  from device_add_ok [OF ok(1) this keepalive, of key] show d: "device_ok N E d" unfolding add by simp
  note defs = Device_add_peer_def PeerConfig_take_tunnel_def Tunnel_add_peer_def register_peer_def RoutingTable_new_def
    Peer_connect_def PeerSender_connect_def PeerSender_entry_def entry_def send_action_def send_def try_send_def Peer_handle_new_def
    insert_allowed_ips_def PEER_ACTION_QUEUE_CAPACITY_def Let_def
  have start: "start = Device_start (Tunnel_start C NE (dc_private_key config) secret) (unwrap_or (dc_mtu config) MAX_PLAINTEXT_SIZE)"
    using new by (simp add: Device_new_def Tunnel_new_def)
  note start = start [unfolded Device_start_def Tunnel_start_def Tunnel_start_with_guard_def]
  have tunnel: "rt_peers (tn_router (dv_tunnel d)) key = Some 0" "tn_alive (dv_tunnel d)" "tn_inbound (dv_tunnel d) = []"
    "tn_read (dv_tunnel d) = read_loop_start NE (dc_private_key config) (LoadGuard_new C (x25519_public C (dc_private_key config)) secret)"
    "rt_queues (tn_router (dv_tunnel d)) 0 = first_actions peer" "rt_control (tn_router (dv_tunnel d)) = []"
    "tn_actors (dv_tunnel d) 0 = Some (spawn C (dc_private_key config) key (fst (PeerConfig_take_tunnel peer)) (status_new key))"
    and table: "dv_allowed_ips d =
      foldl (\<lambda>t net. AllowedIps_insert N t net \<lparr>ps_public_key = key, ps_chan = 0\<rparr>) AllowedIps_new (dpc_allowed_ips peer)"
    using add by (auto simp: start defs first_actions_def split: option.splits)
  show "configured C E (dc_private_key config) key 0 (dv_tunnel d)"
    using d tunnel by (simp add: configured_def device_ok_def read_loop_start_def LoadGuard_new_def)
  show "\<exists>st. phase (dv_tunnel d) 0 (spawn C (dc_private_key config) key (fst (PeerConfig_take_tunnel peer)) st)
      (first_actions peer) [] Map.empty [] 0"
    using tunnel by (intro exI) (simp add: phase_def read_loop_start_def LoadGuard_new_def IndexRouter_new_def)
  show "longest_match N (dv_allowed_ips d) addr = Some \<lparr>ps_public_key = key, ps_chan = 0\<rparr>"
    if covered: "\<exists>n \<in> set (dpc_allowed_ips peer). net_contains N n addr"
  proof -
    obtain n where "n \<in> set (dpc_allowed_ips peer)" "net_contains N n addr" using covered by blast
    then show ?thesis unfolding table
      by (rule allowed.lookup_inserts [OF conjI [OF ok(2) AllowedIps_new_ok(1)] AllowedIps_new_ok(2)])
  qed
qed

section \<open>From one device to the other\<close>

text \<open>A device that has just been created and given its first peer.\<close>

definition fresh_device ::
  "'net ipnet \<Rightarrow> crypto \<Rightarrow> net_env \<Rightarrow> DeviceConfig \<Rightarrow> bytes \<Rightarrow> 'net DevicePeerConfig \<Rightarrow> ('net, 'ts) Device \<Rightarrow> bool" where
  "fresh_device N C NE config key peer d \<longleftrightarrow> (\<exists>secret start. length secret = 32 \<and>
     Device_new C NE secret (Inr () :: unit + unit) config = Inr start \<and>
     Device_add_peer N C start key peer = (Inr () :: unit DeviceError + unit, d))"

lemma Device_add_peer_size: "dv_max_packet_size (snd (Device_add_peer N C d key peer)) = dv_max_packet_size d"
  by (auto simp: Device_add_peer_def insert_allowed_ips_def Let_def split: prod.split sum.split RegisterError.split)

lemma fresh_device_size:
  assumes "fresh_device N C NE config key peer d"
  shows "dv_max_packet_size d = min (unwrap_or (dc_mtu config) MAX_PLAINTEXT_SIZE) MAX_PLAINTEXT_SIZE"
proof -
  obtain secret start where new: "Device_new C NE secret (Inr () :: unit + unit) config = Inr start"
    and add: "Device_add_peer N C start key peer = (Inr () :: unit DeviceError + unit, d)"
    using assms unfolding fresh_device_def by blast
  have "dv_max_packet_size d = dv_max_packet_size start" by (metis add Device_add_peer_size snd_conv)
  then show ?thesis using new by (auto simp: Device_new_def Tunnel_new_def Device_start_def)
qed

lemma fresh_device_new:
  fixes N :: "'net ipnet" and peer :: "'net DevicePeerConfig"
  assumes "length secret = 32" and start_def: "start =
    Device_start (Tunnel_start C NE (dc_private_key config) secret) (unwrap_or (dc_mtu config) MAX_PLAINTEXT_SIZE)"
  shows "fresh_device N C NE config key peer (snd (Device_add_peer N C start key peer :: (unit DeviceError + unit) \<times> _))"
proof -
  have "Device_new C NE secret (Inr () :: unit + unit) config = Inr start"
    by (simp add: Device_new_def Tunnel_new_def start_def)
  moreover have "fst (Device_add_peer N C start key peer :: (unit DeviceError + unit) \<times> _) = Inr ()"
    by (simp add: start_def Device_start_def Tunnel_start_def Tunnel_start_with_guard_def Device_add_peer_def
        PeerConfig_take_tunnel_def Tunnel_add_peer_def register_peer_def RoutingTable_new_def Let_def split: option.split)
  ultimately show ?thesis using assms(1) unfolding fresh_device_def by (metis prod.collapse)
qed

definition both :: "('net, 'ts) Device \<Rightarrow> ('net, 'ts) Device \<Rightarrow> ('net, 'ts) network" where
  "both a b = (\<lambda>h. case h of Alice \<Rightarrow> a | Bob \<Rightarrow> b)"

text \<open>The device takes the packet and queues it behind the request to connect.\<close>

lemma fresh_sends:
  fixes a :: "('net, 'ts::linorder) Device" and E :: "chan \<Rightarrow> 'ts env" and T :: "'ts tai"
  assumes C: "crypto_ok C" "tai_ok T" "ipnet_ok N" and E: "net_env_ok NE" "\<forall>ch. env_ok (E ch)"
    and a: "fresh_device N C NE config key peer a" and endpoint: "dpc_endpoint peer = Some endpoint"
    and keepalive: "\<forall>i. dpc_persistent_keepalive peer = Some i \<longrightarrow> i \<le> KEEPALIVE_MAX"
    and packet: "packet_info packet = Some (Some info)" "pi_len info \<le> dv_max_packet_size a"
      "\<exists>n \<in> set (dpc_allowed_ips peer). net_contains N n (pi_destination info)"
  obtains a' st sent where "try_send_packet N a packet = Some (Inr (), a')" "device_ok N E a'"
    "configured C E (dc_private_key config) key 0 (dv_tunnel a')"
    "phase (dv_tunnel a') 0 (spawn C (dc_private_key config) key (fst (PeerConfig_take_tunnel peer)) st)
      [Connect endpoint, SendData sent] [] Map.empty [] 0"
    "well_formed sent info" "take (pi_len info) sent = take (pi_len info) packet" "sent \<noteq> []" "length sent < AEAD_P_MAX"
proof -
  obtain secret start where new: "length secret = 32" "Device_new C NE secret (Inr () :: unit + unit) config = Inr start"
    "Device_add_peer N C start key peer = (Inr () :: unit DeviceError + unit, a)"
    using a unfolding fresh_device_def by blast
  note first = first_peer [OF C(1,3) new keepalive]
  let ?s = "\<lparr>ps_public_key = key, ps_chan = 0\<rparr>" and ?sent = "padded packet (pi_len info) (dv_max_packet_size a)"
  obtain st where ph: "phase (dv_tunnel a) 0 (spawn C (dc_private_key config) key (fst (PeerConfig_take_tunnel peer)) st)
      [Connect endpoint] [] Map.empty [] 0" using first(3) endpoint by (auto simp: first_actions_def)
  let ?a = "with_queue a 0 [Connect endpoint, SendData ?sent]"
  have c: "consistent N a" using first(1) [of E] by (simp add: device_ok_def)
  have w: "well_formed packet info" using packet(1) by (simp add: packet_info_iff)
  have "routed_to N a packet ?s ?sent" using packet first(4) [OF packet(3)] by (auto simp: routed_to_def)
  from routed_send [OF c this refl] have sends: "try_send_packet N a packet = Some (Inr (), ?a)"
    using ph by (simp add: phase_def PEER_ACTION_QUEUE_CAPACITY_def)
  then have ok: "device_ok N E ?a"
    using device_step_ok [OF C(1,2) E first(1) [of E], of "DeviceTrySend packet"] by simp
  have conf: "configured C E (dc_private_key config) key 0 (dv_tunnel ?a)"
    using first(2) [of E] ok by (simp add: configured_def device_ok_def with_queue_def)
  have ph': "phase (dv_tunnel ?a) 0 (spawn C (dc_private_key config) key (fst (PeerConfig_take_tunnel peer)) st)
      [Connect endpoint, SendData ?sent] [] Map.empty [] 0" using ph by (simp add: phase_def with_queue_def)
  have len: "20 \<le> pi_len info" "pi_len info \<le> length packet" using well_formed_len [OF w] by simp_all
  note p = padded_props [OF len(2) packet(2)]
  have "?sent \<noteq> []" using p(2) len(1) by auto
  then show thesis
    by (rule that [OF sends ok conf ph' well_formed_same [OF w p(1,2)] p(1)]) (rule padded_short(2) [OF c w packet(2)])
qed

lemma fresh_listens:
  fixes b :: "('net, 'ts::linorder) Device" and E :: "chan \<Rightarrow> 'ts env"
  assumes C: "crypto_ok C" "ipnet_ok N" and b: "fresh_device N C NE config key peer b" and endpoint: "dpc_endpoint peer = None"
    and keepalive: "\<forall>i. dpc_persistent_keepalive peer = Some i \<longrightarrow> i \<le> KEEPALIVE_MAX"
    and source: "\<exists>n \<in> set (dpc_allowed_ips peer). net_contains N n (pi_source info)"
  obtains st where "device_ok N E b" "configured C E (dc_private_key config) key 0 (dv_tunnel b)"
    "phase (dv_tunnel b) 0 (spawn C (dc_private_key config) key (fst (PeerConfig_take_tunnel peer)) st) [] [] Map.empty [] 0"
    "longest_match N (dv_allowed_ips b) (pi_source info) = Some \<lparr>ps_public_key = key, ps_chan = 0\<rparr>"
proof -
  obtain secret start where new: "length secret = 32" "Device_new C NE secret (Inr () :: unit + unit) config = Inr start"
    "Device_add_peer N C start key peer = (Inr () :: unit DeviceError + unit, b)"
    using b unfolding fresh_device_def by blast
  note first = first_peer [OF C new keepalive]
  show thesis using that [OF first(1,2)] first(3) first(4) [OF source] endpoint by (auto simp: first_actions_def)
qed

text \<open>Four runs of single hosts, by turns, are one run of the network.\<close>

lemma four_turns:
  assumes 1: "host_reaches C T (NE Alice) (E Alice) (addr Alice) (addr Bob) (dv_tunnel b) (dv_tunnel a) tA1"
    and 2: "host_reaches C T (NE Bob) (E Bob) (addr Bob) (addr Alice) tA1 (dv_tunnel b) tB1"
    and 3: "host_reaches C T (NE Alice) (E Alice) (addr Alice) (addr Bob) tB1 tA1 tA2"
    and 4: "host_reaches C T (NE Bob) (E Bob) (addr Bob) (addr Alice) tA2 tB1 tB2"
  shows "network_reaches N C T NE E addr (both a b) (both (a\<lparr>dv_tunnel := tA2\<rparr>) (b\<lparr>dv_tunnel := tB2\<rparr>))"
proof -
  have upd: "(both x y)(Alice := z) = both z y" "(both x y)(Bob := z) = both x z" for x y z
    by (auto simp: both_def fun_eq_iff split: party.split)
  have turnA: "network_reaches N C T NE E addr (both x y) (both (x\<lparr>dv_tunnel := tn\<rparr>) y)"
    if "host_reaches C T (NE Alice) (E Alice) (addr Alice) (addr Bob) (dv_tunnel y) (dv_tunnel x) tn" for x y tn
    using host_run [of C T NE Alice E addr "both x y" tn N] that unfolding upd by (simp add: both_def)
  have turnB: "network_reaches N C T NE E addr (both x y) (both x (y\<lparr>dv_tunnel := tn\<rparr>))"
    if "host_reaches C T (NE Bob) (E Bob) (addr Bob) (addr Alice) (dv_tunnel x) (dv_tunnel y) tn" for x y tn
    using host_run [of C T NE Bob E addr "both x y" tn N] that unfolding upd by (simp add: both_def)
  let ?a1 = "a\<lparr>dv_tunnel := tA1\<rparr>" and ?b1 = "b\<lparr>dv_tunnel := tB1\<rparr>"
  have "network_reaches N C T NE E addr (both a b) (both ?a1 b)" by (rule turnA [OF 1])
  moreover have "network_reaches N C T NE E addr (both ?a1 b) (both ?a1 ?b1)" by (rule turnB) (simp add: 2)
  moreover have "network_reaches N C T NE E addr (both ?a1 ?b1) (both (?a1\<lparr>dv_tunnel := tA2\<rparr>) ?b1)" by (rule turnA) (simp add: 3)
  moreover have "network_reaches N C T NE E addr (both (?a1\<lparr>dv_tunnel := tA2\<rparr>) ?b1)
      (both (?a1\<lparr>dv_tunnel := tA2\<rparr>) (?b1\<lparr>dv_tunnel := tB2\<rparr>))" by (rule turnB) (simp add: 4)
  ultimately show ?thesis by (auto intro: reach_trans)
qed

end
