(* ===== verification/Protocol_Tests.thy ===== *)
theory Protocol_Tests
  imports Peer Load
begin

text \<open>
  The unit tests of the crate \<open>protocol\<close>, translated like the code they test: a failed assertion is a panic, so
  a test that passes is \<open>Some ()\<close>. Where a test draws keys at random, they are arguments, and the test
  passes for all of them for which the Diffie-Hellman results are contributory, with every crypto crate that
  satisfies \<open>crypto_ok\<close>.
\<close>

text \<open>\<open>assert!\<close> and \<open>Result::unwrap\<close>.\<close>

definition assert_true :: "bool \<Rightarrow> unit option" where
  "assert_true b = (if b then Some () else None)"

definition unwrap :: "'e + 'a \<Rightarrow> 'a option" where
  "unwrap r = (case r of Inl _ \<Rightarrow> None | Inr x \<Rightarrow> Some x)"

lemma assert_true_simps [simp]: "assert_true True = Some ()" "assert_true b = Some () \<longleftrightarrow> b"
  by (simp_all add: assert_true_def)

lemma unwrap_Inr [simp]: "unwrap (Inr x) = Some x"
  by (simp add: unwrap_def)

section \<open>Message headers\<close>

definition message_header_rejects_reserved_bytes :: "unit option" where
  "message_header_rejects_reserved_bytes = do {
     let packet = (replicate INIT_MSG_LENGTH 0)[0 := type_byte MT_HandshakeInit, 1 := 1];
     r \<leftarrow> MessageHeader_try_from packet;
     assert_true (r = Inl HdrInvalidHeader)
   }"

definition message_header_rejects_wrong_fixed_length :: "unit option" where
  "message_header_rejects_wrong_fixed_length = do {
     let packet = (replicate (INIT_MSG_LENGTH + 1) 0)[0 := type_byte MT_HandshakeInit];
     r \<leftarrow> MessageHeader_try_from packet;
     assert_true (r = Inl HdrInvalidLength)
   }"

section \<open>Transport\<close>

text \<open>The assertions of \<open>replay_filter\<close> are the verdicts on five sequences of counters.\<close>

definition replay_filter_test :: "unit option" where
  "replay_filter_test = do {
     let validates = verdicts ReplayFilter_validate ReplayFilter_new;
     assert_true (validates (concat (map (\<lambda>counter. [of_nat counter, of_nat counter]) [0..<10])) =
       concat (map (\<lambda>_. [True, False]) [0..<10]));
     assert_true (validates [100, 50, 99, 50] = [True, True, True, False]);
     assert_true (validates [COUNTER_WINDOW + 1, 0, 1] = [True, False, True]);
     assert_true (validates [0, 10 * COUNTER_WINDOW, 0, 10 * COUNTER_WINDOW - COUNTER_WINDOW] = [True, True, False, True]);
     assert_true (validates [REJECT_AFTER_MESSAGES, 0xFFFFFFFFFFFFFFFF, REJECT_AFTER_MESSAGES - 1] = [False, False, True])
   }"

definition transport_fixture :: Transport where
  "transport_fixture = (let key = replicate 32 0 in Transport_new 1 2 (init_aead key) (init_aead key))"

definition send_is_fallible_and_uses_only_the_required_prefix :: "crypto \<Rightarrow> unit option" where
  "send_is_fallible_and_uses_only_the_required_prefix C = do {
     let transport = transport_fixture;
     let required = packet_len 3;
     let short = replicate (packet_len 3 - 1) 0;
     (r, transport, short) \<leftarrow> Transport_send C transport (ascii ''abc'') short;
     assert_true (r = Inl (TrBufferTooSmall required));
     let large = replicate (packet_len 3 + 4) 0xAA;
     (r, transport, large) \<leftarrow> Transport_send C transport (ascii ''abc'') large;
     assert_true (r = Inr required);
     assert_true (drop required large = replicate 4 0xAA)
   }"

definition send_counter_does_not_wrap :: "crypto \<Rightarrow> unit option" where
  "send_counter_does_not_wrap C = do {
     let transport = transport_fixture\<lparr>t_send_counter := REJECT_AFTER_MESSAGES\<rparr>;
     let packet = replicate (packet_len 0) 0;
     (r, transport, packet) \<leftarrow> Transport_send C transport [] packet;
     assert_true (r = Inl TrCounterExhausted);
     assert_true (t_send_counter transport = REJECT_AFTER_MESSAGES)
   }"

definition rekeys_after_the_message_limit :: "crypto \<Rightarrow> unit option" where
  "rekeys_after_the_message_limit C = do {
     let transport = transport_fixture\<lparr>t_send_counter := REKEY_AFTER_MESSAGES - 1\<rparr>;
     assert_true (\<not> Transport_rekey_due transport);
     let packet = replicate (packet_len 0) 0;
     (r, transport, packet) \<leftarrow> Transport_send C transport [] packet;
     _ \<leftarrow> unwrap r;
     assert_true (Transport_rekey_due transport)
   }"

section \<open>Cookies\<close>

definition cookie_reply_requires_a_sent_handshake :: "crypto \<Rightarrow> 'ts \<Rightarrow> bytes \<Rightarrow> unit option" where
  "cookie_reply_requires_a_sent_handshake C epoch responder = do {
     let generator = Generator_new C responder;
     let reply = (replicate COOKIE_REPLY_LENGTH 0)[0 := type_byte MT_Cookie];
     (r, generator) \<leftarrow> process_cookie_reply C generator reply epoch;
     assert_true (r = Inl CookieInvalid)
   }"

section \<open>Sessions\<close>

definition session_fixture :: "Instant \<Rightarrow> Session" where
  "session_fixture established =
     (let key = replicate 32 0 in Session_new (Transport_new 1 2 (init_aead key) (init_aead key)) established)"

definition expires_at_reject_after_time :: "unit option" where
  "expires_at_reject_after_time = do {
     let established = Instant_default;
     let session = session_fixture established;
     assert_true (\<not> Session_expired session (instant_add established (REJECT_AFTER_TIME - from_millis 1)));
     assert_true (Session_expired session (instant_add established REJECT_AFTER_TIME))
   }"

section \<open>Peers\<close>

definition test_addr :: "u16 \<Rightarrow> SocketAddr" where
  "test_addr port = \<lparr>sa_ip = V4 0x7F000001, sa_port = port\<rparr>"

definition ms :: "nat \<Rightarrow> Instant" where
  "ms millis = Instant (from_millis millis)"

definition receiver_index :: "bytes \<Rightarrow> u32 option" where
  "receiver_index packet = map_option of_le_bytes (subslice packet 4 8)"

text \<open>\<open>Tai64N::UNIX_EPOCH\<close> and the ephemeral secret are arguments.\<close>

definition test_values :: "'ts \<Rightarrow> bytes \<Rightarrow> u32 \<Rightarrow> 'ts HandshakeValues" where
  "test_values epoch secret index = \<lparr>hv_index = index, hv_ephemeral_secret = secret, hv_timestamp = epoch\<rparr>"

definition established_pair ::
  "crypto \<Rightarrow> ('ts::linorder) tai \<Rightarrow> 'ts \<Rightarrow> bytes \<Rightarrow> bytes \<Rightarrow> bytes \<Rightarrow> bytes \<Rightarrow> Instant \<Rightarrow> ('ts Peer \<times> 'ts Peer) option" where
  "established_pair C T epoch a_key b_key secret_a secret_b now = do {
     let a = Peer_new C (x25519_public C b_key);
     let b = Peer_new C (x25519_public C a_key);
     let a = set_endpoint a (test_addr 2);
     (r, a, init) \<leftarrow> Peer_initiate C T a a_key (test_values epoch secret_a 1) (replicate INIT_MSG_LENGTH 0);
     replaced \<leftarrow> unwrap r;
     assert_true (replaced = None);
     (r, init) \<leftarrow> receive C T b_key init;
     hs \<leftarrow> unwrap r;
     (r, b, resp) \<leftarrow> Peer_respond C T b now hs (test_values epoch secret_b 2) (test_addr 1) (replicate RESP_MSG_LENGTH 0);
     displaced \<leftarrow> unwrap r;
     assert_true (displaced = None);
     assert_true (p_endpoint b = Some (test_addr 1));
     (r, a, resp) \<leftarrow> handshake_response C a a_key now resp (test_addr 2);
     retired \<leftarrow> unwrap r;
     assert_true (retired = None);
     (r, a, keepalive) \<leftarrow> encrypt C a now [] (replicate (packet_len 0) 0);
     len \<leftarrow> unwrap r;
     packet \<leftarrow> subslice keepalive 0 len;
     receiver \<leftarrow> receiver_index packet;
     (r, b, packet) \<leftarrow> decrypt C b now receiver packet (test_addr 1);
     recv \<leftarrow> unwrap r;
     assert_true (rv_payload_len recv = 0);
     assert_true (rv_confirmed recv);
     assert_true (rv_unmapped recv = None);
     Some (a, b)
   }"

definition handshake_and_transport ::
  "crypto \<Rightarrow> ('ts::linorder) tai \<Rightarrow> 'ts \<Rightarrow> bytes \<Rightarrow> bytes \<Rightarrow> bytes \<Rightarrow> bytes \<Rightarrow> unit option" where
  "handshake_and_transport C T epoch a_key b_key secret_a secret_b = do {
     let now = ms 0;
     (a, b) \<leftarrow> established_pair C T epoch a_key b_key secret_a secret_b now;
     let payload = ascii ''ping'';
     (r, a, buf) \<leftarrow> encrypt C a now payload (replicate (packet_len 4) 0);
     len \<leftarrow> unwrap r;
     packet \<leftarrow> subslice buf 0 len;
     receiver \<leftarrow> receiver_index packet;
     (r, b, packet) \<leftarrow> decrypt C b now receiver packet (test_addr 9);
     recv \<leftarrow> unwrap r;
     received \<leftarrow> subslice packet 0 (rv_payload_len recv);
     assert_true (received = payload);
     assert_true (\<not> rv_confirmed recv);
     assert_true (p_endpoint b = Some (test_addr 9));
     let payload = ascii ''pong'';
     (r, b, buf) \<leftarrow> encrypt C b now payload (replicate (packet_len 4) 0);
     len \<leftarrow> unwrap r;
     packet \<leftarrow> subslice buf 0 len;
     receiver \<leftarrow> receiver_index packet;
     (r, a, packet) \<leftarrow> decrypt C a now receiver packet (test_addr 2);
     recv \<leftarrow> unwrap r;
     received \<leftarrow> subslice packet 0 (rv_payload_len recv);
     assert_true (received = payload)
   }"

definition replay_rejected ::
  "crypto \<Rightarrow> ('ts::linorder) tai \<Rightarrow> 'ts \<Rightarrow> bytes \<Rightarrow> bytes \<Rightarrow> bytes \<Rightarrow> bytes \<Rightarrow> unit option" where
  "replay_rejected C T epoch a_key b_key secret_a secret_b = do {
     let now = ms 0;
     (a, b) \<leftarrow> established_pair C T epoch a_key b_key secret_a secret_b now;
     (r, a, buf) \<leftarrow> encrypt C a now (ascii ''once'') (replicate (packet_len 4) 0);
     _ \<leftarrow> unwrap r;
     receiver \<leftarrow> receiver_index buf;
     (r, b, first) \<leftarrow> decrypt C b now receiver buf (test_addr 1);
     _ \<leftarrow> unwrap r;
     (r, b, replayed) \<leftarrow> decrypt C b now receiver buf (test_addr 1);
     assert_true (r = Inl PeReplay)
   }"

definition expired_session_unusable ::
  "crypto \<Rightarrow> ('ts::linorder) tai \<Rightarrow> 'ts \<Rightarrow> bytes \<Rightarrow> bytes \<Rightarrow> bytes \<Rightarrow> bytes \<Rightarrow> unit option" where
  "expired_session_unusable C T epoch a_key b_key secret_a secret_b = do {
     let start = ms 0;
     (a, b) \<leftarrow> established_pair C T epoch a_key b_key secret_a secret_b start;
     (r, a, buf) \<leftarrow> encrypt C a start (ascii ''late'') (replicate (packet_len 4) 0);
     len \<leftarrow> unwrap r;
     packet \<leftarrow> subslice buf 0 len;
     receiver \<leftarrow> receiver_index packet;
     let expiry = instant_add start REJECT_AFTER_TIME;
     (r, b, packet) \<leftarrow> decrypt C b expiry receiver packet (test_addr 1);
     assert_true (r = Inl PeExpired);
     (r, a, buf) \<leftarrow> encrypt C a expiry (ascii ''late'') (packet @ drop len buf);
     assert_true (r = Inl PeExpired)
   }"

definition initiate_replaces_pending ::
  "crypto \<Rightarrow> 'ts tai \<Rightarrow> 'ts \<Rightarrow> bytes \<Rightarrow> bytes \<Rightarrow> (nat \<Rightarrow> bytes) \<Rightarrow> unit option" where
  "initiate_replaces_pending C T epoch a_key b_key secrets = do {
     let a = set_endpoint (Peer_new C (x25519_public C b_key)) (test_addr 2);
     (r, a, short) \<leftarrow> Peer_initiate C T a a_key (test_values epoch (secrets 0) 6) (replicate (INIT_MSG_LENGTH - 1) 0);
     assert_true (r = Inl (PeBufferTooSmall INIT_MSG_LENGTH));
     (r, a, init) \<leftarrow> Peer_initiate C T a a_key (test_values epoch (secrets 1) 7) (replicate INIT_MSG_LENGTH 0);
     assert_true (r = Inr None);
     (r, a, init) \<leftarrow> Peer_initiate C T a a_key (test_values epoch (secrets 2) 8) init;
     assert_true (r = Inr (Some 7));
     let (index, a) = abandon_handshake a;
     assert_true (index = Some 8);
     let (index, a) = abandon_handshake a;
     assert_true (index = None)
   }"

definition preshared_key_update_preserves_pending_handshake ::
  "crypto \<Rightarrow> ('ts::linorder) tai \<Rightarrow> 'ts \<Rightarrow> bytes \<Rightarrow> bytes \<Rightarrow> bytes \<Rightarrow> bytes \<Rightarrow> unit option" where
  "preshared_key_update_preserves_pending_handshake C T epoch a_key b_key secret_a secret_b = do {
     let now = ms 0;
     let psk = replicate 32 7;
     let a = Peer_new C (x25519_public C b_key);
     let b = Peer_new C (x25519_public C a_key);
     let b = set_preshared_key b (Some psk);
     (r, a, init) \<leftarrow> Peer_initiate C T a a_key (test_values epoch secret_a 1) (replicate INIT_MSG_LENGTH 0);
     _ \<leftarrow> unwrap r;
     let a = set_preshared_key a (Some psk);
     (r, init) \<leftarrow> receive C T b_key init;
     received \<leftarrow> unwrap r;
     (r, b, response) \<leftarrow> Peer_respond C T b now received (test_values epoch secret_b 2) (test_addr 1) (replicate RESP_MSG_LENGTH 0);
     _ \<leftarrow> unwrap r;
     (r, a, response) \<leftarrow> handshake_response C a a_key now response (test_addr 2);
     _ \<leftarrow> unwrap r;
     Some ()
   }"

definition stale_handshake_timestamp_is_rejected ::
  "crypto \<Rightarrow> ('ts::linorder) tai \<Rightarrow> 'ts \<Rightarrow> bytes \<Rightarrow> bytes \<Rightarrow> (nat \<Rightarrow> bytes) \<Rightarrow> unit option" where
  "stale_handshake_timestamp_is_rejected C T epoch a_key b_key secrets = do {
     let now = ms 0;
     let a = Peer_new C (x25519_public C b_key);
     let b = Peer_new C (x25519_public C a_key);
     let a = set_endpoint a (test_addr 2);
     (r, a, first) \<leftarrow> Peer_initiate C T a a_key (test_values epoch (secrets 0) 1) (replicate INIT_MSG_LENGTH 0);
     _ \<leftarrow> unwrap r;
     (r, first) \<leftarrow> receive C T b_key first;
     first \<leftarrow> unwrap r;
     (r, b, response) \<leftarrow> Peer_respond C T b now first (test_values epoch (secrets 1) 2) (test_addr 1) (replicate RESP_MSG_LENGTH 0);
     _ \<leftarrow> unwrap r;
     (r, a, replay) \<leftarrow> Peer_initiate C T a a_key (test_values epoch (secrets 2) 3) (replicate INIT_MSG_LENGTH 0);
     _ \<leftarrow> unwrap r;
     (r, replay) \<leftarrow> receive C T b_key replay;
     replay \<leftarrow> unwrap r;
     (r, b, response) \<leftarrow> Peer_respond C T b now replay (test_values epoch (secrets 3) 4) (test_addr 1) response;
     assert_true (r = Inl PeStaleTimestamp)
   }"

section \<open>Handshakes\<close>

text \<open>A message over the two transports at the end of the test, with the fields of its header.\<close>

definition carries :: "crypto \<Rightarrow> Transport \<Rightarrow> Transport \<Rightarrow> bytes \<Rightarrow> u32 \<Rightarrow> (Transport \<times> Transport) option" where
  "carries C sender receiver data index = do {
     (r, sender, msg) \<leftarrow> Transport_send C sender data (replicate (packet_len (length data)) 0);
     _ \<leftarrow> unwrap r;
     kind \<leftarrow> index_at msg 0;
     assert_true (kind = type_byte MT_Data);
     to \<leftarrow> field msg DATA_RECEIVER;
     assert_true (to = le_bytes index);
     counter \<leftarrow> field msg DATA_COUNTER;
     assert_true (counter = le_bytes (0 :: u64));
     (r, msg) \<leftarrow> Transport_receive C receiver msg;
     (counter, payload) \<leftarrow> unwrap r;
     assert_true (counter = 0);
     received \<leftarrow> subslice msg 0 payload;
     assert_true (received = data);
     Some (sender, receiver)
   }"

definition handshake_e2e :: "crypto \<Rightarrow> 'ts tai \<Rightarrow> 'ts \<Rightarrow> bytes \<Rightarrow> bytes \<Rightarrow> bytes \<Rightarrow> bytes \<Rightarrow> unit option" where
  "handshake_e2e C T epoch sk1 sk2 hs_init hs_resp = do {
     let pk1 = x25519_public C sk1;
     let pk2 = x25519_public C sk2;
     let cg_init = Generator_new C pk2;
     let cv_init = Verifier_new C pk2;
     let cg_resp = Generator_new C pk1;
     let cv_resp = Verifier_new C pk1;
     (r, cg_init, init_msg) \<leftarrow> initiate C T sk1 pk2 100 hs_init epoch cg_init (replicate INIT_MSG_LENGTH 0);
     h_init \<leftarrow> unwrap r;
     ok \<leftarrow> verify_mac_1 C cv_init init_msg;
     assert_true ok;
     kind \<leftarrow> index_at init_msg 0;
     assert_true (kind = type_byte MT_HandshakeInit);
     sender \<leftarrow> field init_msg INIT_SENDER;
     assert_true (sender = le_bytes (100 :: u32));
     (r, init_msg) \<leftarrow> receive C T sk2 init_msg;
     h_resp \<leftarrow> unwrap r;
     assert_true (ir_peer_public h_resp = pk1);
     assert_true (ir_timestamp h_resp = epoch);
     (r, cg_resp, resp_msg) \<leftarrow> respond C T h_resp 200 hs_resp None epoch cg_resp (replicate RESP_MSG_LENGTH 0);
     h_resp \<leftarrow> unwrap r;
     ok \<leftarrow> verify_mac_1 C cv_resp resp_msg;
     assert_true ok;
     kind \<leftarrow> index_at resp_msg 0;
     assert_true (kind = type_byte MT_HandshakeResp);
     to \<leftarrow> field resp_msg RESP_RECEIVER;
     assert_true (to = le_bytes (100 :: u32));
     sender \<leftarrow> field resp_msg RESP_SENDER;
     assert_true (sender = le_bytes (200 :: u32));
     (r, resp_msg) \<leftarrow> response_received C h_init sk1 None resp_msg;
     h_init \<leftarrow> unwrap r;
     assert_true (ie_constr h_init = re_constr h_resp);
     t_init \<leftarrow> finish_initiator C h_init;
     t_resp \<leftarrow> finish_responder C h_resp;
     (t_init, t_resp) \<leftarrow> carries C t_init t_resp (ascii ''Hello, World!'') 200;
     (t_resp, t_init) \<leftarrow> carries C t_resp t_init (ascii ''Goodbye, World!'') 100;
     Some ()
   }"

definition initiate_rejects_a_non_contributory_peer_key :: "crypto \<Rightarrow> 'ts tai \<Rightarrow> 'ts \<Rightarrow> bytes \<Rightarrow> bytes \<Rightarrow> unit option" where
  "initiate_rejects_a_non_contributory_peer_key C T epoch our_key secret = do {
     let peer_key = replicate 32 0;
     let cookies = Generator_new C peer_key;
     (r, cookies, packet) \<leftarrow> initiate C T our_key peer_key 1 secret epoch cookies (replicate INIT_MSG_LENGTH 0);
     assert_true (r = Inl HsFailed)
   }"

definition initiate_accepts_a_larger_output_buffer ::
  "crypto \<Rightarrow> 'ts tai \<Rightarrow> 'ts \<Rightarrow> bytes \<Rightarrow> bytes \<Rightarrow> bytes \<Rightarrow> unit option" where
  "initiate_accepts_a_larger_output_buffer C T epoch our_key peer secret = do {
     let peer_key = x25519_public C peer;
     let cookies = Generator_new C peer_key;
     (r, cookies, packet) \<leftarrow> initiate C T our_key peer_key 1 secret epoch cookies (replicate (INIT_MSG_LENGTH + 8) 0xAA);
     _ \<leftarrow> unwrap r;
     assert_true (drop INIT_MSG_LENGTH packet = replicate 8 0xAA)
   }"

section \<open>They pass\<close>

lemma header_tests_pass:
  "message_header_rejects_reserved_bytes = Some ()" "message_header_rejects_wrong_fixed_length = Some ()"
  by (simp_all add: message_header_rejects_reserved_bytes_def message_header_rejects_wrong_fixed_length_def
      MessageHeader_try_from_eq MessageType_try_from_def Let_def sub_def numeral_3_eq_3 drop_update_swap take_update_swap)

lemma cookie_test_passes: "cookie_reply_requires_a_sent_handshake C epoch responder = Some ()"
  by (auto simp: cookie_reply_requires_a_sent_handshake_def process_cookie_reply_def MessageHeader_try_from_eq Generator_new_def Let_def
      split: sum.split MessageHeader.split)

lemma replay_consts:
  "COUNTER_WINDOW = 8128" "REJECT_AFTER_MESSAGES = 18446744073709543423" "REKEY_AFTER_MESSAGES = 1152921504606846976"
  by (simp_all add: COUNTER_WINDOW_def REJECT_AFTER_MESSAGES_def REKEY_AFTER_MESSAGES_def COUNTER_BLOCK_BITS_def COUNTER_BLOCKS_def)

lemma replay_filter_test_passes: "replay_filter_test = Some ()"
proof -
  note run = rf.verdicts_rel [OF rf.new_rel] and spec = spec_validate_def spec_accepts_def spec_new_def
  have "verdicts ReplayFilter_validate ReplayFilter_new (concat (map (\<lambda>counter. [of_nat counter, of_nat counter]) [0..<10])) =
      concat (map (\<lambda>_. [True, False]) [0..<10])"
    unfolding run by (simp add: spec upt_rec [of _ 10])
  moreover have "verdicts ReplayFilter_validate ReplayFilter_new [100, 50, 99, 50] = [True, True, True, False]"
    unfolding run by (simp add: spec)
  moreover have "verdicts ReplayFilter_validate ReplayFilter_new [COUNTER_WINDOW + 1, 0, 1] = [True, False, True]"
    unfolding run by (simp add: spec replay_consts)
  moreover have "verdicts ReplayFilter_validate ReplayFilter_new [0, 10 * COUNTER_WINDOW, 0, 10 * COUNTER_WINDOW - COUNTER_WINDOW] =
      [True, True, False, True]"
    unfolding run by (simp add: spec replay_consts)
  moreover have "verdicts ReplayFilter_validate ReplayFilter_new [REJECT_AFTER_MESSAGES, 0xFFFFFFFFFFFFFFFF, REJECT_AFTER_MESSAGES - 1] =
      [False, False, True]"
    unfolding run by (simp add: spec replay_consts)
  ultimately show ?thesis by (simp add: replay_filter_test_def)
qed

lemma transport_fixture_ok: "Transport_ok transport_fixture" "t_send_counter transport_fixture = 0"
  by (simp_all add: transport_fixture_def Transport_ok_def Transport_new_def init_aead_def Let_def)

lemma transport_tests_pass:
  assumes "crypto_ok C"
  shows "send_is_fallible_and_uses_only_the_required_prefix C = Some ()"
    and "send_counter_does_not_wrap C = Some ()"
    and "rekeys_after_the_message_limit C = Some ()"
proof -
  have t: "Transport_ok (transport_fixture\<lparr>t_send_counter := c\<rparr>)" for c
    using transport_fixture_ok(1) by (simp add: Transport_ok_def)
  note send = Transport_send_cases [OF assms transport_fixture_ok(1)] Transport_send_cases [OF assms t]
  have abc: "length (ascii ''abc'') = 3" by (simp add: ascii_def)
  show "send_is_fallible_and_uses_only_the_required_prefix C = Some ()"
    unfolding send_is_fallible_and_uses_only_the_required_prefix_def
    by (simp add: send abc transport_fixture_ok replay_consts length_data_packet [OF assms transport_fixture_ok(1)])
  show "send_counter_does_not_wrap C = Some ()" by (simp add: send_counter_does_not_wrap_def send replay_consts)
  show "rekeys_after_the_message_limit C = Some ()" by (simp add: rekeys_after_the_message_limit_def send Transport_rekey_due_def replay_consts)
qed

lemma session_test_passes: "expires_at_reject_after_time = Some ()"
  by (simp add: expires_at_reject_after_time_def session_fixture_def Session_expired_def Session_new_def duration_since_def
      instant_add_def Instant_default_def saturating_add_def saturating_sub_def DURATION_MAX_def time_consts Let_def)

lemma subslice_all: "n = length xs \<Longrightarrow> subslice xs 0 n = Some xs"
  by (simp add: subslice_def)

lemma receiver_index_packet:
  assumes "crypto_ok C" and "paired t r" and "length payload < AEAD_P_MAX"
  shows "receiver_index (data_packet C t payload) = Some (t_our_index r)"
  using data_packet_fields [OF assms(1) _ assms(3)] length_data_packet [OF assms(1) _ assms(3)] assms(2)
  by (simp add: receiver_index_def subslice_def paired_def)

lemma session_fresh: "\<not> Session_expired ((Session_new t now)\<lparr>s_transport := t', s_replay := f\<rparr>) now"
  by (simp add: Session_expired_def Session_new_def duration_since_def saturating_sub_def time_consts)

definition drawn_keys :: "crypto \<Rightarrow> bytes \<Rightarrow> bytes \<Rightarrow> bytes \<Rightarrow> bytes \<Rightarrow> bool" where
  "drawn_keys C a_key b_key secret_a secret_b \<longleftrightarrow> was_contributory C (x25519_dh C secret_a (x25519_public C b_key)) \<and>
     was_contributory C (x25519_dh C a_key (x25519_public C b_key)) \<and>
     was_contributory C (x25519_dh C secret_a (x25519_public C secret_b))"

text \<open>The handshake that the tests of peers begin with.\<close>

lemma test_handshake:
  fixes T :: "'ts::linorder tai"
  assumes C: "crypto_ok C" and T: "tai_ok T" and keys: "drawn_keys C a_key b_key secret_a secret_b"
    and A: "A = (Peer_new C (x25519_public C b_key))\<lparr>p_preshared_key := psk, p_endpoint := endpoint\<rparr>"
    and B: "B = (Peer_new C (x25519_public C a_key))\<lparr>p_preshared_key := psk\<rparr>"
  obtains A1 m1 hs p1 B1 m2 A2 p2 ti tr where
    "Peer_initiate C T A a_key (test_values epoch secret_a 1) (replicate INIT_MSG_LENGTH 0) = Some (Inr None, A1, m1)"
    "receive C T b_key m1 = Some (Inr hs, p1)"
    "Peer_respond C T B now hs (test_values epoch secret_b 2) (test_addr 1) (replicate RESP_MSG_LENGTH 0) = Some (Inr None, B1, m2)"
    "p_next B1 = Some (Session_new tr now)" "p_endpoint B1 = Some (test_addr 1)" "p_previous B1 = None"
    "handshake_response C A1 a_key now m2 (test_addr 2) = Some (Inr None, A2, p2)"
    "p_current A2 = Some (Session_new ti now)" "p_endpoint A2 = Some (test_addr 2)" "p_next A2 = None"
    "paired ti tr" "t_send_counter ti = 0" "t_send_counter tr = 0"
proof -
  let ?va = "test_values epoch secret_a 1" and ?vb = "test_values epoch secret_b 2"
  have ok: "Peer_ok A" "Peer_ok B" using Peer_ok_new [OF C] by (auto simp: A B Peer_ok_def Peer_new_def all_slots)
  have prems: "p_peer_key A = x25519_public C b_key" "p_preshared_key A = p_preshared_key B"
    "INIT_MSG_LENGTH \<le> length (replicate INIT_MSG_LENGTH 0)" "RESP_MSG_LENGTH \<le> length (replicate RESP_MSG_LENGTH 0)"
    "was_contributory C (x25519_dh C (hv_ephemeral_secret ?va) (x25519_public C b_key))"
    "was_contributory C (x25519_dh C a_key (x25519_public C b_key))"
    "was_contributory C (x25519_dh C (hv_ephemeral_secret ?va) (x25519_public C (hv_ephemeral_secret ?vb)))"
    "\<not> is_some_and (p_last_handshake_timestamp B) (\<lambda>last. hv_timestamp ?va \<le> last)"
    using keys by (simp_all add: A B Peer_new_def drawn_keys_def test_values_def)
  have none: "p_pending A = None" "p_next B = None" "p_next A = None" "p_previous A = None" "est B Previous = None"
    by (simp_all add: A B Peer_new_def est_def)
  obtain A1 m1 hs p1 B1 m2 old A2 p2 ti tr where hand:
    "Peer_initiate C T A a_key ?va (replicate INIT_MSG_LENGTH 0) =
      Some (Inr (map_option ph_our_index (p_pending A)), A1, m1 @ drop INIT_MSG_LENGTH (replicate INIT_MSG_LENGTH 0))"
    "receive C T b_key m1 = Some (Inr hs, p1)"
    "Peer_respond C T B now hs ?vb (test_addr 1) (replicate RESP_MSG_LENGTH 0) =
      Some (Inr (map_option Session_our_index (p_next B)), B1, m2 @ drop RESP_MSG_LENGTH (replicate RESP_MSG_LENGTH 0))"
    "p_next B1 = Some (Session_new tr now)" "p_endpoint B1 = Some (test_addr 1)"
    "\<forall>now. handshake_response C A1 a_key now m2 (test_addr 2) = Some (Inr old, A2 now, p2) \<and>
      p_current (A2 now) = Some (Session_new ti now) \<and> p_endpoint (A2 now) = Some (test_addr 2) \<and> p_next (A2 now) = p_next A"
    "paired ti tr" "t_send_counter ti = 0" "t_send_counter tr = 0" "old = map_option Session_our_index (p_previous A)"
    by (rule peers_handshake [OF C T ok prems, where now_b = now and src_a = "test_addr 1" and src_b = "test_addr 2"]) (rule that)
  have "p_previous B1 = None" using Peer_respond_keeps [OF hand(3)] none(5) by (auto simp: est_def fun_eq_iff all_slots)
  then show thesis using hand none by (intro that [of A1 m1 hs p1 B1 m2 tr "A2 now" p2 ti]) simp_all
qed

lemma established_pair_passes:
  fixes T :: "'ts::linorder tai"
  assumes C: "crypto_ok C" and T: "tai_ok T" and keys: "drawn_keys C a_key b_key secret_a secret_b"
  obtains a b f sp ti tr where "established_pair C T epoch a_key b_key secret_a secret_b now = Some (a, b)"
    "p_current a = Some ((Session_new ti now)\<lparr>s_transport := ti\<lparr>t_send_counter := 1\<rparr>\<rparr>)" "p_endpoint a = Some (test_addr 2)" "p_next a = None"
    "p_current b = Some ((Session_new tr now)\<lparr>s_replay := f\<rparr>)" "p_endpoint b = Some (test_addr 1)" "p_next b = None"
    "replay_rel f sp" "below sp 1" "paired ti tr" "t_send_counter ti = 0" "t_send_counter tr = 0"
proof -
  have A: "set_endpoint (Peer_new C (x25519_public C b_key)) (test_addr 2) =
      (Peer_new C (x25519_public C b_key) :: 'ts Peer)\<lparr>p_preshared_key := None, p_endpoint := Some (test_addr 2)\<rparr>"
    and B: "Peer_new C (x25519_public C a_key) = (Peer_new C (x25519_public C a_key) :: 'ts Peer)\<lparr>p_preshared_key := None\<rparr>"
    by (simp_all add: set_endpoint_def Peer_new_def)
  obtain A1 m1 hs p1 B1 m2 A2 p2 ti tr where hand:
    "Peer_initiate C T (set_endpoint (Peer_new C (x25519_public C b_key)) (test_addr 2)) a_key (test_values epoch secret_a 1)
      (replicate INIT_MSG_LENGTH 0) = Some (Inr None, A1, m1)" "receive C T b_key m1 = Some (Inr hs, p1)"
    "Peer_respond C T (Peer_new C (x25519_public C a_key)) now hs (test_values epoch secret_b 2) (test_addr 1) (replicate RESP_MSG_LENGTH 0) =
      Some (Inr None, B1, m2)" "p_next B1 = Some (Session_new tr now)" "p_endpoint B1 = Some (test_addr 1)" "p_previous B1 = None"
    "handshake_response C A1 a_key now m2 (test_addr 2) = Some (Inr None, A2, p2)"
    "p_current A2 = Some (Session_new ti now)" "p_endpoint A2 = Some (test_addr 2)" "p_next A2 = None"
    "paired ti tr" "t_send_counter ti = 0" "t_send_counter tr = 0"
    by (rule test_handshake [OF C T keys A B, where epoch = epoch and now = now]) (rule that)
  let ?s = "Session_new ti now" and ?r = "Session_new tr now"
  have new: "s_transport (Session_new t now) = t" "s_replay (Session_new t now) = ReplayFilter_new" for t by (simp_all add: Session_new_def)
  let ?m = "data_packet C ti []"
  have small: "length ([] :: bytes) < AEAD_P_MAX" by (simp add: AEAD_P_MAX_def)
  have ti: "Transport_ok ti" using hand(11) by (simp add: paired_def)
  have len: "length ?m = packet_len 0" using length_data_packet [OF C ti small] by simp
  have fresh: "\<not> Session_expired ?s now" "\<not> Session_expired ?r now"
    by (simp_all add: Session_expired_def Session_new_def duration_since_def saturating_sub_def time_consts)
  have enc: "encrypt C A2 now [] (replicate (packet_len 0) 0) = Some (Inr (packet_len 0), A2\<lparr>p_current := Some (?s\<lparr>s_transport := ti\<lparr>t_send_counter := 1\<rparr>\<rparr>)\<rparr>, ?m)"
    using encrypt_packet [OF C hand(8) _ fresh(1) _ _ small _ refl, of "replicate (packet_len 0) 0"] ti hand(9,12) len
    by (simp add: new replay_consts)
  obtain f d sp where rec: "Session_receive C ?r ?m = Some (Inr (length ([] :: bytes)), ?r\<lparr>s_replay := f\<rparr>, d)" "replay_rel f sp" "below sp 1"
    by (rule Session_receive_next [OF C _ _ small _ below_new, of ti ?r])
      (use hand(11,12) rf.new_rel in \<open>simp_all add: new replay_consts\<close>)
  obtain rv B2 where dec: "decrypt C B1 now (t_our_index tr) ?m (test_addr 1) = Some (Inr rv, B2, d)" "rv_payload_len rv = length ([] :: bytes)"
    "rv_confirmed rv" "p_endpoint B2 = Some (test_addr 1)" "p_current B2 = Some (?r\<lparr>s_replay := f\<rparr>)" "p_peer_key B2 = p_peer_key B1"
    "rv_unmapped rv = map_option Session_our_index (p_previous B1)" "p_next B2 = None"
    by (rule decrypt_next [OF hand(4) _ fresh(2) rec(1)]) (simp add: Session_our_index_def new, rule that)
  let ?a = "A2\<lparr>p_current := Some (?s\<lparr>s_transport := ti\<lparr>t_send_counter := 1\<rparr>\<rparr>)\<rparr>"
  have "established_pair C T epoch a_key b_key secret_a secret_b now = Some (?a, B2)"
    using hand enc dec receiver_index_packet [OF C hand(11) small] len by (simp add: established_pair_def subslice_all)
  then show thesis using hand dec rec by (intro that [of ?a B2 ti f tr sp]) simp_all
qed

text \<open>One more packet over the established sessions.\<close>

lemma next_packet:
  assumes C: "crypto_ok C" and a: "p_current a = Some s" "p_endpoint a \<noteq> None" "\<not> Session_expired s now"
    and b: "p_current b = Some r" "p_next b = None" "\<not> Session_expired r now"
    and pair: "paired (s_transport s) (s_transport r)" "t_send_counter (s_transport s) < REJECT_AFTER_MESSAGES"
    and window: "replay_rel (s_replay r) sp" "below sp (unat (t_send_counter (s_transport s)))"
    and payload: "length payload < AEAD_P_MAX" and m: "m = data_packet C (s_transport s) payload"
  obtains rv b' d f sp' where
    "encrypt C a now payload (replicate (packet_len (length payload)) 0) =
      Some (Inr (length m), a\<lparr>p_current := Some (s\<lparr>s_transport := (s_transport s)\<lparr>t_send_counter := t_send_counter (s_transport s) + 1\<rparr>\<rparr>)\<rparr>, m)"
    "subslice m 0 (length m) = Some m" "receiver_index m = Some (t_our_index (s_transport r))"
    "decrypt C b now (t_our_index (s_transport r)) m source = Some (Inr rv, b', d)" "rv_payload_len rv = length payload"
    "subslice d 0 (length payload) = Some payload" "\<not> rv_confirmed rv" "p_endpoint b' = Some source"
    "p_current b' = Some (r\<lparr>s_replay := f\<rparr>)" "p_next b' = None" "replay_rel f sp'" "unat (t_send_counter (s_transport s)) \<in> rs_seen sp'"
proof -
  have t: "Transport_ok (s_transport s)" using pair(1) by (simp add: paired_def)
  have len: "length m = packet_len (length payload)" using length_data_packet [OF C t payload] m by simp
  have 1: "encrypt C a now payload (replicate (packet_len (length payload)) 0) =
      Some (Inr (length m), a\<lparr>p_current := Some (s\<lparr>s_transport := (s_transport s)\<lparr>t_send_counter := t_send_counter (s_transport s) + 1\<rparr>\<rparr>)\<rparr>, m)"
    using encrypt_packet [OF C a t pair(2) payload _ m, of "replicate (packet_len (length payload)) 0"] len by simp
  obtain f d sp' where 2: "Session_receive C r m = Some (Inr (length payload), r\<lparr>s_replay := f\<rparr>, d)" "take (length payload) d = payload"
      "replay_rel f sp'" "unat (t_send_counter (s_transport s)) \<in> rs_seen sp'"
    unfolding m by (rule Session_receive_next [OF C pair payload window])
  obtain rv b' where 3: "decrypt C b now (t_our_index (s_transport r)) m source = Some (Inr rv, b', d)" "rv_payload_len rv = length payload"
      "\<not> rv_confirmed rv" "p_endpoint b' = Some source" "p_current b' = Some (r\<lparr>s_replay := f\<rparr>)" "p_next b' = p_next b"
    by (rule decrypt_current [OF b(1) _ b(3) _ 2(1), of "t_our_index (s_transport r)"]) (simp add: Session_our_index_def, simp add: b(2), rule that)
  have "length payload \<le> length d" using 2(2) by (metis length_take min.cobounded1 min_def nat_le_linear)
  then have "subslice d 0 (length payload) = Some payload" using 2(2) by (simp add: subslice_def sub_def)
  moreover have "receiver_index m = Some (t_our_index (s_transport r))" unfolding m by (rule receiver_index_packet [OF C pair(1) payload])
  ultimately show thesis using that [OF 1 subslice_all [OF refl] _ 3(1,2)] 2(3,4) 3(3-6) b(2) by simp
qed

text \<open>The same packet again.\<close>

lemma replayed_packet:
  assumes C: "crypto_ok C" and b: "p_current b = Some r" "p_next b = None" "\<not> Session_expired r now"
    and pair: "paired t (s_transport r)" and window: "replay_rel (s_replay r) sp" "unat (t_send_counter t) \<in> rs_seen sp"
    and payload: "length payload < AEAD_P_MAX"
  shows "\<exists>b' d. decrypt C b now (t_our_index (s_transport r)) (data_packet C t payload) source = Some (Inl PeReplay, b', d)"
proof -
  have t: "Transport_ok t" "t_our_index (s_transport r) = t_peer_index t" "t_recv_aead (s_transport r) = t_send_aead t"
    using pair by (simp_all add: paired_def)
  obtain f where "ReplayFilter_validate (s_replay r) (t_send_counter t) = (False, f)"
    using validate_seen [OF window] by (metis prod.collapse)
  then obtain d where "Session_receive C r (data_packet C t payload) = Some (Inl SessReplay, r\<lparr>s_replay := f\<rparr>, d)"
    using Transport_receive_data_packet [OF C t(1) payload t(2,3)] by (fastforce simp: Session_receive_def)
  then show ?thesis using b by (simp add: decrypt_def slot_for_def Session_our_index_def)
qed

lemma session_lives:
  "\<not> Session_expired ((Session_new t now)\<lparr>s_transport := t'\<rparr>) now" "\<not> Session_expired ((Session_new t now)\<lparr>s_replay := f\<rparr>) now"
  "Session_expired ((Session_new t (ms 0))\<lparr>s_transport := t'\<rparr>) (instant_add (ms 0) REJECT_AFTER_TIME)"
  "Session_expired ((Session_new t (ms 0))\<lparr>s_replay := f\<rparr>) (instant_add (ms 0) REJECT_AFTER_TIME)"
  by (simp_all add: Session_expired_def Session_new_def duration_since_def saturating_sub_def ms_def instant_add_def saturating_add_def
      DURATION_MAX_def time_consts)

lemma session_fields: "s_transport (Session_new t now) = t" "s_replay (Session_new t now) = ReplayFilter_new"
  by (simp_all add: Session_new_def)

lemma established_sends:
  assumes C: "crypto_ok C" and a: "p_current a = Some ((Session_new ti now)\<lparr>s_transport := ti\<lparr>t_send_counter := 1\<rparr>\<rparr>)" "p_endpoint a = Some e"
    and b: "p_current b = Some ((Session_new tr now)\<lparr>s_replay := f\<rparr>)" "p_next b = None"
    and f: "replay_rel f sp" "below sp 1" and t: "paired ti tr" and payload: "length payload = 4"
    and m: "m = data_packet C (ti\<lparr>t_send_counter := 1\<rparr>) payload"
  obtains rv b' d f' sp' where
    "encrypt C a now payload (replicate (packet_len 4) 0) =
      Some (Inr 36, a\<lparr>p_current := Some ((Session_new ti now)\<lparr>s_transport := ti\<lparr>t_send_counter := 2\<rparr>\<rparr>)\<rparr>, m)"
    "length m = 36" "receiver_index m = Some (t_our_index tr)" "decrypt C b now (t_our_index tr) m source = Some (Inr rv, b', d)"
    "rv_payload_len rv = 4" "subslice d 0 4 = Some payload" "\<not> rv_confirmed rv" "p_endpoint b' = Some source"
    "p_current b' = Some ((Session_new tr now)\<lparr>s_replay := f'\<rparr>)" "p_next b' = None" "replay_rel f' sp'" "1 \<in> rs_seen sp'"
proof -
  let ?s = "(Session_new ti now)\<lparr>s_transport := ti\<lparr>t_send_counter := 1\<rparr>\<rparr>" and ?r = "(Session_new tr now)\<lparr>s_replay := f\<rparr>"
  have small: "length payload < AEAD_P_MAX" using payload by (simp add: AEAD_P_MAX_def)
  have prems: "p_endpoint a \<noteq> None" "paired (s_transport ?s) (s_transport ?r)" "t_send_counter (s_transport ?s) < REJECT_AFTER_MESSAGES"
    "replay_rel (s_replay ?r) sp" "below sp (unat (t_send_counter (s_transport ?s)))" "m = data_packet C (s_transport ?s) payload"
    using a(2) t f m by (simp_all add: session_fields replay_consts)
  obtain rv b' d f' sp' where raw:
    "encrypt C a now payload (replicate (packet_len (length payload)) 0) =
      Some (Inr (length m), a\<lparr>p_current := Some (?s\<lparr>s_transport := (s_transport ?s)\<lparr>t_send_counter := t_send_counter (s_transport ?s) + 1\<rparr>\<rparr>)\<rparr>, m)"
    "receiver_index m = Some (t_our_index (s_transport ?r))"
    "decrypt C b now (t_our_index (s_transport ?r)) m source = Some (Inr rv, b', d)" "rv_payload_len rv = length payload"
    "subslice d 0 (length payload) = Some payload" "\<not> rv_confirmed rv" "p_endpoint b' = Some source"
    "p_current b' = Some (?r\<lparr>s_replay := f'\<rparr>)" "p_next b' = None" "replay_rel f' sp'" "unat (t_send_counter (s_transport ?s)) \<in> rs_seen sp'"
    by (rule next_packet [OF C a(1) prems(1) session_lives(1) b session_lives(2) prems(2-5) small prems(6)]) (rule that)
  have "Transport_ok (ti\<lparr>t_send_counter := 1\<rparr>)" using t by (simp add: paired_def Transport_ok_def)
  then have "length m = 36" using length_data_packet [OF C _ small] m payload by simp
  then show thesis using raw payload by (intro that [of rv b' d f' sp']) (simp_all add: session_fields)
qed

lemma handshake_and_transport_passes:
  fixes T :: "'ts::linorder tai"
  assumes C: "crypto_ok C" and T: "tai_ok T" and keys: "drawn_keys C a_key b_key secret_a secret_b"
  shows "handshake_and_transport C T epoch a_key b_key secret_a secret_b = Some ()"
proof -
  let ?now = "ms 0"
  obtain a b f sp ti tr where pair: "established_pair C T epoch a_key b_key secret_a secret_b ?now = Some (a, b)"
    and a: "p_current a = Some ((Session_new ti ?now)\<lparr>s_transport := ti\<lparr>t_send_counter := 1\<rparr>\<rparr>)" "p_endpoint a = Some (test_addr 2)" "p_next a = None"
    and b: "p_current b = Some ((Session_new tr ?now)\<lparr>s_replay := f\<rparr>)" "p_endpoint b = Some (test_addr 1)" "p_next b = None"
    and f: "replay_rel f sp" "below sp 1" and t: "paired ti tr" "t_send_counter ti = 0" "t_send_counter tr = 0"
    by (rule established_pair_passes [OF C T keys])
  have four: "length (ascii ''ping'') = 4" "length (ascii ''pong'') = 4"
    by (simp_all add: ascii_def)
  let ?packet = "data_packet C (ti\<lparr>t_send_counter := 1\<rparr>)" and ?a = "a\<lparr>p_current := Some ((Session_new ti ?now)\<lparr>s_transport := ti\<lparr>t_send_counter := 2\<rparr>\<rparr>)\<rparr>"
  note sends = established_sends [OF C a(1,2) b(1,3) f t(1) _ refl]
  obtain rv b' d f' where 1: "encrypt C a ?now (ascii ''ping'') (replicate (packet_len 4) 0) = Some (Inr 36, ?a, ?packet (ascii ''ping''))"
    "length (?packet (ascii ''ping'')) = 36" "receiver_index (?packet (ascii ''ping'')) = Some (t_our_index tr)"
    "decrypt C b ?now (t_our_index tr) (?packet (ascii ''ping'')) (test_addr 9) = Some (Inr rv, b', d)"
    "rv_payload_len rv = 4" "subslice d 0 4 = Some (ascii ''ping'')" "\<not> rv_confirmed rv" "p_endpoint b' = Some (test_addr 9)"
    "p_current b' = Some ((Session_new tr ?now)\<lparr>s_replay := f'\<rparr>)"
    by (rule sends [OF four(1), where source = "test_addr 9"]) (rule that)
  let ?r = "(Session_new tr ?now)\<lparr>s_replay := f'\<rparr>" and ?s = "(Session_new ti ?now)\<lparr>s_transport := ti\<lparr>t_send_counter := 2\<rparr>\<rparr>"
  let ?m = "data_packet C tr (ascii ''pong'')"
  have prems: "p_endpoint b' \<noteq> None" "p_current ?a = Some ?s" "p_next ?a = None" "paired (s_transport ?r) (s_transport ?s)"
    "t_send_counter (s_transport ?r) < REJECT_AFTER_MESSAGES" "replay_rel (s_replay ?s) spec_new" "length (ascii ''pong'') < AEAD_P_MAX"
    "?m = data_packet C (s_transport ?r) (ascii ''pong'')"
    using 1(8) a(3) t rf.new_rel paired_sym [OF t(1)] by (simp_all add: session_fields replay_consts four AEAD_P_MAX_def)
  obtain rv2 a2 d2 b2 where 2: "encrypt C b' ?now (ascii ''pong'') (replicate (packet_len (length (ascii ''pong''))) 0) = Some (Inr (length ?m), b2, ?m)"
    "subslice ?m 0 (length ?m) = Some ?m" "receiver_index ?m = Some (t_our_index (s_transport ?s))"
    "decrypt C ?a ?now (t_our_index (s_transport ?s)) ?m (test_addr 2) = Some (Inr rv2, a2, d2)" "rv_payload_len rv2 = length (ascii ''pong'')"
    "subslice d2 0 (length (ascii ''pong'')) = Some (ascii ''pong'')"
    by (rule next_packet [OF C 1(9) prems(1) session_lives(2) prems(2,3) session_lives(1) prems(4-6) below_new prems(7,8), where source = "test_addr 2"])
      (rule that)
  show ?thesis using pair 1 2 by (simp add: handshake_and_transport_def subslice_all four)
qed

lemma replay_rejected_passes:
  fixes T :: "'ts::linorder tai"
  assumes C: "crypto_ok C" and T: "tai_ok T" and keys: "drawn_keys C a_key b_key secret_a secret_b"
  shows "replay_rejected C T epoch a_key b_key secret_a secret_b = Some ()"
proof -
  let ?now = "ms 0"
  obtain a b f sp ti tr where pair: "established_pair C T epoch a_key b_key secret_a secret_b ?now = Some (a, b)"
    and a: "p_current a = Some ((Session_new ti ?now)\<lparr>s_transport := ti\<lparr>t_send_counter := 1\<rparr>\<rparr>)" "p_endpoint a = Some (test_addr 2)" "p_next a = None"
    and b: "p_current b = Some ((Session_new tr ?now)\<lparr>s_replay := f\<rparr>)" "p_endpoint b = Some (test_addr 1)" "p_next b = None"
    and f: "replay_rel f sp" "below sp 1" and t: "paired ti tr" "t_send_counter ti = 0" "t_send_counter tr = 0"
    by (rule established_pair_passes [OF C T keys])
  have four: "length (ascii ''once'') = 4" by (simp add: ascii_def)
  let ?packet = "data_packet C (ti\<lparr>t_send_counter := 1\<rparr>)" and ?a = "a\<lparr>p_current := Some ((Session_new ti ?now)\<lparr>s_transport := ti\<lparr>t_send_counter := 2\<rparr>\<rparr>)\<rparr>"
  note sends = established_sends [OF C a(1,2) b(1,3) f t(1) _ refl]
  obtain rv b' d f' sp' where 1: "encrypt C a ?now (ascii ''once'') (replicate (packet_len 4) 0) = Some (Inr 36, ?a, ?packet (ascii ''once''))"
    "receiver_index (?packet (ascii ''once'')) = Some (t_our_index tr)"
    "decrypt C b ?now (t_our_index tr) (?packet (ascii ''once'')) (test_addr 1) = Some (Inr rv, b', d)"
    "p_current b' = Some ((Session_new tr ?now)\<lparr>s_replay := f'\<rparr>)" "p_next b' = None" "replay_rel f' sp'" "1 \<in> rs_seen sp'"
    by (rule sends [OF four, where source = "test_addr 1"]) (rule that)
  obtain b2 d2 where "decrypt C b' ?now (t_our_index tr) (?packet (ascii ''once'')) (test_addr 1) = Some (Inl PeReplay, b2, d2)"
    using replayed_packet [OF C 1(4,5) session_lives(2), of "ti\<lparr>t_send_counter := 1\<rparr>" sp' "ascii ''once''" "test_addr 1"] 1(6,7) t(1)
    by (auto simp: session_fields four AEAD_P_MAX_def)
  then show ?thesis using pair 1 by (simp add: replay_rejected_def)
qed

lemma expired_session_unusable_passes:
  fixes T :: "'ts::linorder tai"
  assumes C: "crypto_ok C" and T: "tai_ok T" and keys: "drawn_keys C a_key b_key secret_a secret_b"
  shows "expired_session_unusable C T epoch a_key b_key secret_a secret_b = Some ()"
proof -
  let ?now = "ms 0"
  obtain a b f sp ti tr where pair: "established_pair C T epoch a_key b_key secret_a secret_b ?now = Some (a, b)"
    and a: "p_current a = Some ((Session_new ti ?now)\<lparr>s_transport := ti\<lparr>t_send_counter := 1\<rparr>\<rparr>)" "p_endpoint a = Some (test_addr 2)" "p_next a = None"
    and b: "p_current b = Some ((Session_new tr ?now)\<lparr>s_replay := f\<rparr>)" "p_endpoint b = Some (test_addr 1)" "p_next b = None"
    and f: "replay_rel f sp" "below sp 1" and t: "paired ti tr" "t_send_counter ti = 0" "t_send_counter tr = 0"
    by (rule established_pair_passes [OF C T keys])
  have four: "length (ascii ''late'') = 4" by (simp add: ascii_def)
  let ?packet = "data_packet C (ti\<lparr>t_send_counter := 1\<rparr>)" and ?a = "a\<lparr>p_current := Some ((Session_new ti ?now)\<lparr>s_transport := ti\<lparr>t_send_counter := 2\<rparr>\<rparr>)\<rparr>"
  note sends = established_sends [OF C a(1,2) b(1,3) f t(1) _ refl]
  have 1: "encrypt C a ?now (ascii ''late'') (replicate (packet_len 4) 0) = Some (Inr 36, ?a, ?packet (ascii ''late''))"
    "length (?packet (ascii ''late'')) = 36" "receiver_index (?packet (ascii ''late'')) = Some (t_our_index tr)"
    by (rule sends [OF four], assumption)+
  have "decrypt C b (instant_add ?now REJECT_AFTER_TIME) (t_our_index tr) p (test_addr 1) = Some (Inl PeExpired, b, p)"
    "encrypt C ?a (instant_add ?now REJECT_AFTER_TIME) (ascii ''late'') out = Some (Inl PeExpired, ?a, out)" for p out
    using a b by (simp_all add: decrypt_def encrypt_def slot_for_def Session_our_index_def session_fields session_lives)
  then show ?thesis using pair 1 by (simp add: expired_session_unusable_def subslice_all)
qed

text \<open>An initiation, and how the other side reads it.\<close>

lemma initiates:
  assumes C: "crypto_ok C" and T: "tai_ok T" and p: "Peer_ok p" "p_peer_key p = x25519_public C b_key"
    and es: "was_contributory C (x25519_dh C (hv_ephemeral_secret v) (x25519_public C b_key))"
    and ss: "was_contributory C (x25519_dh C a_key (x25519_public C b_key))" and out: "length out = INIT_MSG_LENGTH"
  obtains p' m hs q where "Peer_initiate C T p a_key v out = Some (Inr (map_option ph_our_index (p_pending p)), p', m)"
    "Peer_ok p'" "p_peer_key p' = x25519_public C b_key" "map_option ph_our_index (p_pending p') = Some (hv_index v)"
    "length m = INIT_MSG_LENGTH" "receive C T b_key m = Some (Inr hs, q)" "ir_timestamp hs = hv_timestamp v"
proof -
  have g: "Generator_ok (p_cookie_generator p)" and buf: "INIT_MSG_LENGTH \<le> length out" using p out by (simp_all add: Peer_ok_def)
  obtain g' m q c h where init: "initiate C T a_key (x25519_public C b_key) (hv_index v) (hv_ephemeral_secret v) (hv_timestamp v)
      (p_cookie_generator p) out = Some (Inr \<lparr>is_index_initiator = hv_index v, is_ephemeral_secret_initiator = hv_ephemeral_secret v,
        is_constr = c, is_h = h\<rparr>, g', m @ drop INIT_MSG_LENGTH out)"
    "receive C T b_key m = Some (Inr \<lparr>ir_peer_public = x25519_public C a_key, ir_ephemeral_public_initiator = x25519_public C (hv_ephemeral_secret v),
      ir_index_initiator = hv_index v, ir_timestamp = hv_timestamp v, ir_constr = c, ir_h = h\<rparr>, q)"
    by (rule first_message [OF C T g buf es ss]) (rule that)
  obtain p' where step: "Peer_initiate C T p a_key v out = Some (Inr (map_option ph_our_index (p_pending p)), p', m)"
      "p_peer_key p' = x25519_public C b_key" "map_option ph_our_index (p_pending p') = Some (hv_index v)"
    using init(1) p(2) out by (simp add: Peer_initiate_def)
  moreover have "Peer_ok p'" "length m = INIT_MSG_LENGTH"
    using Peer_initiate_total [OF C T p(1), of a_key v out] step(1) out by auto
  ultimately show thesis using init(2) that by simp
qed

lemma initiate_replaces_pending_passes:
  fixes T :: "'ts::linorder tai"
  assumes C: "crypto_ok C" and T: "tai_ok T" and keys: "\<forall>i. drawn_keys C a_key b_key (secrets i) secret_b"
  shows "initiate_replaces_pending C T epoch a_key b_key secrets = Some ()"
proof -
  let ?p = "set_endpoint (Peer_new C (x25519_public C b_key)) (test_addr 2) :: 'ts Peer"
  have k: "was_contributory C (x25519_dh C (hv_ephemeral_secret (test_values epoch (secrets i) j)) (x25519_public C b_key))"
    "was_contributory C (x25519_dh C a_key (x25519_public C b_key))" for i j
    using keys by (simp_all add: drawn_keys_def test_values_def)
  have new: "Peer_ok ?p" "p_peer_key ?p = x25519_public C b_key" "p_pending ?p = None"
    using Peer_ok_new [OF C] by (auto simp: set_endpoint_def peer_inv Peer_new_def)
  obtain p1 m1 where 1: "Peer_initiate C T ?p a_key (test_values epoch (secrets 1) 7) (replicate INIT_MSG_LENGTH 0) =
      Some (Inr (map_option ph_our_index (p_pending ?p)), p1, m1)" "Peer_ok p1" "p_peer_key p1 = x25519_public C b_key"
      "map_option ph_our_index (p_pending p1) = Some (hv_index (test_values epoch (secrets 1) 7))" "length m1 = INIT_MSG_LENGTH"
    by (rule initiates [OF C T new(1,2) k length_replicate [of _ 0]]) (rule that)
  obtain p2 m2 where 2: "Peer_initiate C T p1 a_key (test_values epoch (secrets 2) 8) m1 =
      Some (Inr (map_option ph_our_index (p_pending p1)), p2, m2)"
      "map_option ph_our_index (p_pending p2) = Some (hv_index (test_values epoch (secrets 2) 8))"
    by (rule initiates [OF C T 1(2,3) k 1(5)]) (rule that)
  have "Peer_initiate C T ?p a_key (test_values epoch (secrets 0) 6) (replicate (INIT_MSG_LENGTH - 1) 0) =
      Some (Inl (PeBufferTooSmall INIT_MSG_LENGTH), ?p, replicate (INIT_MSG_LENGTH - 1) 0)" by (simp add: Peer_initiate_def)
  then show ?thesis using new(3) 1(1,4) 2
    by (simp add: initiate_replaces_pending_def abandon_handshake_def test_values_def)
qed

lemma preshared_key_test_passes:
  fixes T :: "'ts::linorder tai"
  assumes C: "crypto_ok C" and T: "tai_ok T" and keys: "drawn_keys C a_key b_key secret_a secret_b"
  shows "preshared_key_update_preserves_pending_handshake C T epoch a_key b_key secret_a secret_b = Some ()"
proof -
  let ?psk = "Some (replicate 32 7)" and ?new = "Peer_new C (x25519_public C b_key) :: 'ts Peer"
  have A: "set_preshared_key ?new ?psk = ?new\<lparr>p_preshared_key := ?psk, p_endpoint := None\<rparr>"
    and B: "set_preshared_key (Peer_new C (x25519_public C a_key)) ?psk = (Peer_new C (x25519_public C a_key) :: 'ts Peer)\<lparr>p_preshared_key := ?psk\<rparr>"
    by (simp_all add: set_preshared_key_def Peer_new_def)
  obtain A1 m1 hs p1 B1 m2 A2 p2 where hand:
    "Peer_initiate C T (set_preshared_key ?new ?psk) a_key (test_values epoch secret_a 1) (replicate INIT_MSG_LENGTH 0) = Some (Inr None, A1, m1)"
    "receive C T b_key m1 = Some (Inr hs, p1)"
    "Peer_respond C T (set_preshared_key (Peer_new C (x25519_public C a_key)) ?psk) (ms 0) hs (test_values epoch secret_b 2) (test_addr 1)
      (replicate RESP_MSG_LENGTH 0) = Some (Inr None, B1, m2)"
    "handshake_response C A1 a_key (ms 0) m2 (test_addr 2) = Some (Inr None, A2, p2)"
    by (rule test_handshake [OF C T keys A B, where epoch = epoch and now = "ms 0"]) (rule that)
  obtain A0 where "Peer_initiate C T ?new a_key (test_values epoch secret_a 1) (replicate INIT_MSG_LENGTH 0) = Some (Inr None, A0, m1)"
    "set_preshared_key A0 ?psk = A1"
    using hand(1) by (auto simp: Peer_initiate_def set_preshared_key_def Let_def split: bind_splits sum.splits)
  then show ?thesis using hand(2-4) by (simp add: preshared_key_update_preserves_pending_handshake_def)
qed

lemma stale_timestamp_test_passes:
  fixes T :: "'ts::linorder tai"
  assumes C: "crypto_ok C" and T: "tai_ok T" and keys: "\<forall>i. drawn_keys C a_key b_key (secrets i) (secrets 1)"
  shows "stale_handshake_timestamp_is_rejected C T epoch a_key b_key secrets = Some ()"
proof -
  let ?a = "set_endpoint (Peer_new C (x25519_public C b_key)) (test_addr 2) :: 'ts Peer" and ?b = "Peer_new C (x25519_public C a_key) :: 'ts Peer"
  have k: "was_contributory C (x25519_dh C (hv_ephemeral_secret (test_values epoch (secrets i) j)) (x25519_public C b_key))"
    "was_contributory C (x25519_dh C a_key (x25519_public C b_key))" for i j
    using keys by (simp_all add: drawn_keys_def test_values_def)
  have a: "Peer_ok ?a" "p_peer_key ?a = x25519_public C b_key" "?a = (Peer_new C (x25519_public C b_key))\<lparr>p_preshared_key := None, p_endpoint := Some (test_addr 2)\<rparr>"
    and b: "?b = ?b\<lparr>p_preshared_key := None\<rparr>"
    using Peer_ok_new [OF C] by (auto simp: set_endpoint_def peer_inv Peer_new_def)
  obtain a1 m1 hs p1 b1 resp where 1: "Peer_initiate C T ?a a_key (test_values epoch (secrets 0) 1) (replicate INIT_MSG_LENGTH 0) = Some (Inr None, a1, m1)"
    "receive C T b_key m1 = Some (Inr hs, p1)"
    "Peer_respond C T ?b (ms 0) hs (test_values epoch (secrets 1) 2) (test_addr 1) (replicate RESP_MSG_LENGTH 0) = Some (Inr None, b1, resp)"
    by (rule test_handshake [OF C T spec [OF keys] a(3) b, where epoch = epoch and now = "ms 0"]) (rule that)
  have time: "p_last_handshake_timestamp b1 = Some (ir_timestamp hs)"
    using Peer_respond_total [OF C Peer_ok_new [OF C], of T "x25519_public C a_key" "ms 0" hs "test_values epoch (secrets 1) 2" "test_addr 1"
      "replicate RESP_MSG_LENGTH 0"] 1(3) by auto
  obtain a1' m1' hs' p1' where init: "Peer_initiate C T ?a a_key (test_values epoch (secrets 0) 1) (replicate INIT_MSG_LENGTH 0) =
      Some (Inr (map_option ph_our_index (p_pending ?a)), a1', m1')" "Peer_ok a1'" "p_peer_key a1' = x25519_public C b_key"
      "receive C T b_key m1' = Some (Inr hs', p1')" "ir_timestamp hs' = hv_timestamp (test_values epoch (secrets 0) 1)"
    by (rule initiates [OF C T a(1,2) k length_replicate [of _ 0]]) (rule that)
  then have same: "a1' = a1" "hs' = hs" using 1(1,2) by simp_all
  obtain a2 m2 hs2 p2 where 2: "Peer_initiate C T a1' a_key (test_values epoch (secrets 2) 3) (replicate INIT_MSG_LENGTH 0) =
      Some (Inr (map_option ph_our_index (p_pending a1')), a2, m2)" "receive C T b_key m2 = Some (Inr hs2, p2)"
      "ir_timestamp hs2 = hv_timestamp (test_values epoch (secrets 2) 3)"
    by (rule initiates [OF C T init(2,3) k length_replicate [of _ 0]]) (rule that)
  have "Peer_respond C T b1 (ms 0) hs2 v source out = Some (Inl PeStaleTimestamp, b1, out)" for v source out
    using time 2(3) init(5) by (simp add: Peer_respond_def same test_values_def)
  then show ?thesis using 1 2 by (simp add: stale_handshake_timestamp_is_rejected_def same)
qed

section \<open>The tests of handshakes pass\<close>

lemma message_carried:
  assumes C: "crypto_ok C" and pair: "paired t r" "t_send_counter t = 0" and data: "length data < AEAD_P_MAX"
  shows "carries C t r data (t_our_index r) = Some (t\<lparr>t_send_counter := 1\<rparr>, r)"
proof -
  have t: "Transport_ok t" "t_our_index r = t_peer_index t" "t_recv_aead r = t_send_aead t" using pair(1) by (simp_all add: paired_def)
  let ?m = "data_packet C t data"
  have len: "length ?m = packet_len (length data)" by (rule length_data_packet [OF C t(1) data])
  have send: "Transport_send C t data (replicate (packet_len (length data)) 0) = Some (Inr (packet_len (length data)), t\<lparr>t_send_counter := 1\<rparr>, ?m)"
    using Transport_send_ok [OF C t(1) data, of "replicate (packet_len (length data)) 0"] pair(2) by (simp add: replay_consts)
  obtain buf where recv: "Transport_receive C r ?m = Some (Inr (0, length data), buf)" "take (length data) buf = data"
      "length buf = packet_len (length data)"
    using Transport_receive_data_packet [OF C t(1) data t(2,3)] pair(2) by auto
  have "index_at ?m 0 = Some (type_byte MT_Data)" "field ?m DATA_RECEIVER = Some (le_bytes (t_our_index r))"
    "field ?m DATA_COUNTER = Some (le_bytes (0 :: u64))" "subslice buf 0 (length data) = Some data"
    using data_packet_fields [OF C t(1) data] len t(2) pair(2) recv(2,3)
    by (auto simp: index_at_def field_def subslice_def sub_def [of buf])
  then show ?thesis using send recv(1) by (simp add: carries_def)
qed

lemma new_authenticates:
  assumes "crypto_ok C" and "authenticates C (Generator_new C pk) m"
  shows "verify_mac_1 C (Verifier_new C pk) m = Some True"
  using assms(2) Verifier_ok_new [OF assms(1)] new_keys_agree(1) by (metis authenticates_def)

lemma message_prefix:
  assumes "take n m = type_byte k # replicate 3 0 @ xs" and "n = 4 + length xs"
  shows "index_at m 0 = Some (type_byte k)" "4 \<le> a \<Longrightarrow> a \<le> b \<Longrightarrow> b \<le> n \<Longrightarrow> field m (a, b) = Some (sub xs (a - 4) (b - 4))"
proof -
  have len: "n \<le> length m" using arg_cong [OF assms(1), of length] assms(2) by simp
  have "m ! 0 = take n m ! 0" using assms(2) by simp
  then have "m ! 0 = type_byte k" unfolding assms(1) by simp
  then show "index_at m 0 = Some (type_byte k)" using len assms(2) by (auto simp: index_at_def)
  show "field m (a, b) = Some (sub xs (a - 4) (b - 4))" if "4 \<le> a" "a \<le> b" "b \<le> n"
  proof -
    have "sub m a b = sub (take n m) a b" using that by (simp add: sub_def take_drop min_def)
    then have "sub m a b = sub ((type_byte k # replicate 3 0) @ xs) a b" using assms(1) by simp
    also have "\<dots> = sub xs (a - 4) (b - 4)" using that by (simp add: sub_def del: append_Cons)
    finally show ?thesis using that len by (simp add: field_def subslice_def)
  qed
qed

lemma handshake_e2e_passes:
  fixes T :: "'ts::linorder tai"
  assumes C: "crypto_ok C" and T: "tai_ok T" and keys: "drawn_keys C sk1 sk2 hs_init hs_resp"
  shows "handshake_e2e C T epoch sk1 sk2 hs_init hs_resp = Some ()"
proof -
  let ?g = "\<lambda>pk. Generator_new C pk :: 'ts Generator"
  have k: "was_contributory C (x25519_dh C hs_init (x25519_public C sk2))" "was_contributory C (x25519_dh C sk1 (x25519_public C sk2))"
    "was_contributory C (x25519_dh C hs_init (x25519_public C hs_resp))" using keys by (simp_all add: drawn_keys_def)
  obtain g1 m1 p1 c h where 1: "initiate C T sk1 (x25519_public C sk2) 100 hs_init epoch (?g (x25519_public C sk2)) (replicate INIT_MSG_LENGTH 0) =
      Some (Inr \<lparr>is_index_initiator = 100, is_ephemeral_secret_initiator = hs_init, is_constr = c, is_h = h\<rparr>, g1,
        m1 @ drop INIT_MSG_LENGTH (replicate INIT_MSG_LENGTH 0))"
    "receive C T sk2 m1 = Some (Inr \<lparr>ir_peer_public = x25519_public C sk1, ir_ephemeral_public_initiator = x25519_public C hs_init,
      ir_index_initiator = 100, ir_timestamp = epoch, ir_constr = c, ir_h = h\<rparr>, p1)" (is "_ = Some (Inr ?hs, _)")
    "authenticates C (?g (x25519_public C sk2)) m1" "take 8 m1 = type_byte MT_HandshakeInit # replicate 3 0 @ le_bytes (100 :: u32)"
    by (rule first_message [OF C T Generator_ok_new [OF C] _ k(1,2), of "replicate INIT_MSG_LENGTH 0"]) (simp, rule that)
  let ?st = "\<lparr>is_index_initiator = 100, is_ephemeral_secret_initiator = hs_init, is_constr = c, is_h = h\<rparr>"
  obtain g2 m2 p2 x where 2: "respond C T ?hs 200 hs_resp None epoch (?g (x25519_public C sk1)) (replicate RESP_MSG_LENGTH 0) =
      Some (Inr \<lparr>re_our_index = 200, re_peer_index = 100, re_constr = x\<rparr>, g2, m2 @ drop RESP_MSG_LENGTH (replicate RESP_MSG_LENGTH 0))"
    "response_received C ?st sk1 None m2 = Some (Inr \<lparr>ie_our_index = 100, ie_peer_index = 200, ie_constr = x\<rparr>, p2)"
    "authenticates C (?g (x25519_public C sk1)) m2"
    "take 12 m2 = type_byte MT_HandshakeResp # replicate 3 0 @ le_bytes (200 :: u32) @ le_bytes (100 :: u32)"
    by (rule second_message [OF C Generator_ok_new [OF C, of "x25519_public C sk1"] _ k(3), of "replicate RESP_MSG_LENGTH 0" ?st 100 c h ?hs sk1 T 200 None epoch])
      (simp, simp, simp, simp, simp, simp, simp, simp, simp, simp, rule that)
  obtain a b where ab: "kdf2_out C x [] = (a, b)" by fastforce
  note fin = finish_eq [OF C ab]
  let ?ti = "Transport_new 100 200 b a" and ?tr = "Transport_new 200 100 a b"
  have pair: "paired ?ti ?tr" using fin(3) [of 200 100] fin(4) [of 100 200] by (simp add: paired_def Transport_new_def)
  have "carries C ?ti ?tr (ascii ''Hello, World!'') 200 = Some (?ti\<lparr>t_send_counter := 1\<rparr>, ?tr)"
    using message_carried [OF C pair, of "ascii ''Hello, World!''"] by (simp add: Transport_new_def ascii_def AEAD_P_MAX_def)
  moreover have "carries C ?tr (?ti\<lparr>t_send_counter := 1\<rparr>) (ascii ''Goodbye, World!'') 100 = Some (?tr\<lparr>t_send_counter := 1\<rparr>, ?ti\<lparr>t_send_counter := 1\<rparr>)"
    using message_carried [OF C, of ?tr "?ti\<lparr>t_send_counter := 1\<rparr>" "ascii ''Goodbye, World!''"] paired_sym [OF pair]
    by (simp add: paired_def Transport_ok_def Transport_new_def ascii_def AEAD_P_MAX_def)
  moreover note message_prefix(1) [OF 1(4)] message_prefix(1) [OF 2(4)] message_prefix(2) [OF 1(4), of 4 8]
    message_prefix(2) [OF 2(4), of 4 8] message_prefix(2) [OF 2(4), of 8 12]
  moreover note new_authenticates [OF C 1(3)] new_authenticates [OF C 2(3)]
  ultimately show ?thesis using 1(1,2) 2(1,2) fin(1,2)
    by (simp add: handshake_e2e_def sub_def)
qed

lemma weak_key_test_passes:
  assumes "crypto_ok C" and "\<not> was_contributory C (x25519_dh C secret (replicate 32 0))"
  shows "initiate_rejects_a_non_contributory_peer_key C T epoch our_key secret = Some ()"
  using initiate_weak [OF assms(1) _ assms(2), of "replicate INIT_MSG_LENGTH 0" T our_key 1 epoch "Generator_new C (replicate 32 0)"]
  by (auto simp: initiate_rejects_a_non_contributory_peer_key_def)

lemma larger_buffer_test_passes:
  fixes T :: "'ts::linorder tai"
  assumes C: "crypto_ok C" and T: "tai_ok T" and keys: "drawn_keys C our_key peer secret secret_b"
  shows "initiate_accepts_a_larger_output_buffer C T epoch our_key peer secret = Some ()"
proof -
  have k: "was_contributory C (x25519_dh C secret (x25519_public C peer))" "was_contributory C (x25519_dh C our_key (x25519_public C peer))"
    using keys by (simp_all add: drawn_keys_def)
  obtain g1 m1 st where "initiate C T our_key (x25519_public C peer) 1 secret epoch (Generator_new C (x25519_public C peer) :: 'ts Generator)
      (replicate (INIT_MSG_LENGTH + 8) 0xAA) = Some (Inr st, g1, m1 @ drop INIT_MSG_LENGTH (replicate (INIT_MSG_LENGTH + 8) 0xAA))"
    "MessageHeader_try_from m1 = Some (Inr HandshakeInit)"
    by (rule first_message [OF C T Generator_ok_new [OF C] _ k, of "replicate (INIT_MSG_LENGTH + 8) 0xAA"]) (simp, rule that)
  moreover from this(2) have "length m1 = INIT_MSG_LENGTH" 
    by (auto simp: MessageHeader_try_from_Inr eq_commute [of HandshakeInit])
  ultimately show ?thesis by (simp add: initiate_accepts_a_larger_output_buffer_def)
qed

end
