(* ===== verification/Tunnel_Tests.thy ===== *)
theory Tunnel_Tests
  imports Protocol_Tests Actor_Handshake Device_Runs
begin

text \<open>
  The unit tests of the crates \<open>tunnel\<close> and \<open>tunstile\<close> that run on one task, translated like those of
  \<open>protocol\<close> (\<open>Protocol_Tests\<close>): a test that passes is \<open>Some ()\<close>. Literals that a test parses are written as the
  value they parse to. Where a test draws at random or reads the clock, the values are arguments.
\<close>

section \<open>The cryptokey routing table\<close>

text \<open>The prefixes of these tests are values of a type of networks that satisfies \<open>ipnet_ok\<close>.\<close>

definition ip4 :: "u8 \<Rightarrow> u8 \<Rightarrow> u8 \<Rightarrow> u8 \<Rightarrow> IpAddr" where
  "ip4 a b c d = v4_from [a, b, c, d]"

definition longest_prefix_wins :: "unit option" where
  "longest_prefix_wins = do {
     let t = AllowedIps_new;
     let t = AllowedIps_insert ex_ipnet t (Net (ip4 0 0 0 0) 0) ''default'';
     let t = AllowedIps_insert ex_ipnet t (Net (ip4 10 0 0 0) 8) ''ten'';
     let t = AllowedIps_insert ex_ipnet t (Net (ip4 10 0 0 0) 24) ''subnet'';
     assert_true (longest_match ex_ipnet t (ip4 10 0 0 5) = Some ''subnet'');
     assert_true (longest_match ex_ipnet t (ip4 10 1 2 3) = Some ''ten'');
     assert_true (longest_match ex_ipnet t (ip4 8 8 8 8) = Some ''default'')
   }"

definition no_match_without_default :: "unit option" where
  "no_match_without_default = do {
     let t = AllowedIps_new;
     let t = AllowedIps_insert ex_ipnet t (Net (ip4 192 168 1 0) 24) ''lan'';
     assert_true (longest_match ex_ipnet t (ip4 192 168 1 9) = Some ''lan'');
     assert_true (longest_match ex_ipnet t (ip4 10 0 0 1) = None)
   }"

definition v4_and_v6_are_independent :: "unit option" where
  "v4_and_v6_are_independent = do {
     let t = AllowedIps_new;
     let t = AllowedIps_insert ex_ipnet t (Net (ip4 0 0 0 0) 0) ''v4'';
     let t = AllowedIps_insert ex_ipnet t (Net (V6 0xfd000000000000000000000000000000) 8) ''v6'';
     assert_true (longest_match ex_ipnet t (ip4 1 2 3 4) = Some ''v4'');
     assert_true (longest_match ex_ipnet t (V6 0xfd000000000000000000000000000001) = Some ''v6'');
     assert_true (longest_match ex_ipnet t (V6 0x20010db8000000000000000000000001) = None)
   }"

definition host_prefix :: "unit option" where
  "host_prefix = do {
     let t = AllowedIps_new;
     let t = AllowedIps_insert ex_ipnet t (Net (ip4 10 0 0 0) 24) ''subnet'';
     let t = AllowedIps_insert ex_ipnet t (Net (ip4 10 0 0 7) 32) ''host'';
     assert_true (longest_match ex_ipnet t (ip4 10 0 0 7) = Some ''host'');
     assert_true (longest_match ex_ipnet t (ip4 10 0 0 8) = Some ''subnet'')
   }"

definition exact_prefix_replaces_owner :: "unit option" where
  "exact_prefix_replaces_owner = do {
     let t = AllowedIps_new;
     let t = AllowedIps_insert ex_ipnet t (Net (ip4 10 0 0 1) 24) ''old'';
     let t = AllowedIps_insert ex_ipnet t (Net (ip4 10 0 0 2) 24) ''new'';
     assert_true (longest_match ex_ipnet t (ip4 10 0 0 7) = Some ''new'')
   }"

lemmas allowed_ips_tests =
  longest_prefix_wins_def no_match_without_default_def v4_and_v6_are_independent_def host_prefix_def exact_prefix_replaces_owner_def

lemma allowed_ips_tests_pass:
  "longest_prefix_wins = Some ()" "no_match_without_default = Some ()" "v4_and_v6_are_independent = Some ()"
  "host_prefix = Some ()" "exact_prefix_replaces_owner = Some ()"
  unfolding allowed_ips_tests by code_simp+

section \<open>Routing\<close>

text \<open>\<open>Receiver::try_recv\<close> takes the oldest action of a queue.\<close>

definition try_recv :: "'ts RoutingTable \<Rightarrow> chan \<Rightarrow> 'ts PeerAction option \<times> 'ts RoutingTable" where
  "try_recv rt ch =
     (case rt_queues rt ch of
        [] \<Rightarrow> (None, rt)
      | action # rest \<Rightarrow> (Some action, rt\<lparr>rt_queues := (rt_queues rt)(ch := rest)\<rparr>))"

fun fill_queue :: "nat \<Rightarrow> 'ts RoutingTable \<Rightarrow> chan \<Rightarrow> 'ts RoutingTable option" where
  "fill_queue 0 rt ch = Some rt"
| "fill_queue (Suc n) rt ch = do {
     let (r, rt) = try_send rt ch (SendData []);
     _ \<leftarrow> unwrap r;
     fill_queue n rt ch
   }"

function drain :: "'ts RoutingTable \<Rightarrow> chan \<Rightarrow> nat \<Rightarrow> nat option" where
  "drain rt ch queued =
     (case try_recv rt ch of
        (None, rt) \<Rightarrow> Some queued
      | (Some action, rt) \<Rightarrow> do {
          assert_true (case action of SendData _ \<Rightarrow> True | _ \<Rightarrow> False);
          drain rt ch (queued + 1)
        })"
  by pat_completeness auto
termination
  by (relation "measure (\<lambda>(rt, ch, _). length (rt_queues rt ch))") (auto simp: try_recv_def split: list.splits)

declare drain.simps [simp del]

definition full_peer_queue_does_not_accept_network_input :: "bytes \<Rightarrow> unit option" where
  "full_peer_queue_does_not_accept_network_input public_key = do {
     let (r, router) = register_peer (RoutingTable_new :: unit RoutingTable) public_key;
     actions \<leftarrow> r;
     let indices = IndexRouter_apply IndexRouter_new (Bind public_key 7) router;
     router \<leftarrow> fill_queue PEER_ACTION_QUEUE_CAPACITY router actions;
     let (r, router) = try_send router actions (SendData []);
     assert_true (isl r);
     let router = recv_data indices router (test_addr 1) 7 [];
     queued \<leftarrow> drain router actions 0;
     assert_true (queued = PEER_ACTION_QUEUE_CAPACITY)
   }"

definition require_unique_indices :: "bytes \<Rightarrow> bytes \<Rightarrow> unit option" where
  "require_unique_indices key_a key_b = do {
     let (r, router) = register_peer (RoutingTable_new :: unit RoutingTable) key_a;
     actions_a \<leftarrow> r;
     let (r, router) = register_peer router key_b;
     actions_b \<leftarrow> r;
     let indices = IndexRouter_apply IndexRouter_new (Bind key_a 7) router;
     let indices = IndexRouter_apply indices (Bind key_b 7) router;
     let router = recv_data indices router (test_addr 1) 7 (ascii ''data'');
     let (received, router) = try_recv router actions_a;
     assert_true (received \<noteq> None);
     let (received, router) = try_recv router actions_b;
     assert_true (received = None);
     let indices = IndexRouter_apply indices (Retire key_b 7) router;
     let router = recv_data indices router (test_addr 1) 7 (ascii ''data'');
     let (received, router) = try_recv router actions_a;
     assert_true (received \<noteq> None);
     let indices = IndexRouter_apply indices (Retire key_a 7) router;
     let router = recv_data indices router (test_addr 1) 7 (ascii ''data'');
     let (received, router) = try_recv router actions_a;
     assert_true (received = None)
   }"

definition bind_after_removal_is_ignored :: "bytes \<Rightarrow> unit option" where
  "bind_after_removal_is_ignored public_key = do {
     let (r, router) = register_peer (RoutingTable_new :: unit RoutingTable) public_key;
     actions \<leftarrow> r;
     let router = remove_peer router public_key;
     let indices = IndexRouter_apply IndexRouter_new (Bind public_key 7) router;
     let router = recv_data indices router (test_addr 1) 7 (ascii ''data'');
     let (received, router) = try_recv router actions;
     assert_true (received = None)
   }"

lemma fill_queue_eq:
  "length (rt_queues rt ch) + n \<le> PEER_ACTION_QUEUE_CAPACITY \<Longrightarrow>
     fill_queue n rt ch = Some (rt\<lparr>rt_queues := (rt_queues rt)(ch := rt_queues rt ch @ replicate n (SendData []))\<rparr>)"
  by (induction n arbitrary: rt) (simp_all add: try_send_def)

lemma drain_eq: "rt_queues rt ch = map SendData ps \<Longrightarrow> drain rt ch queued = Some (queued + length ps)"
  by (induction ps arbitrary: rt queued) (simp_all add: drain.simps [of rt ch] try_recv_def drain.simps [of "_ :: 'a RoutingTable"])

lemmas router_ops = register_peer_def RoutingTable_new_def remove_peer_def entry_def IndexRouter_new_def recv_data_def
  try_send_to_index_def try_send_def try_recv_def PEER_ACTION_QUEUE_CAPACITY_def

lemma router_tests_pass:
  "full_peer_queue_does_not_accept_network_input public_key = Some ()"
  "key_a \<noteq> key_b \<Longrightarrow> require_unique_indices key_a key_b = Some ()"
  "bind_after_removal_is_ignored public_key = Some ()"
proof -
  have send: "replicate n (SendData []) = map SendData (replicate n [])" for n by simp
  show "full_peer_queue_does_not_accept_network_input public_key = Some ()"
    unfolding full_peer_queue_does_not_accept_network_input_def
    by (simp add: router_ops fill_queue_eq send drain_eq Let_def del: map_replicate)
  show "require_unique_indices key_a key_b = Some ()" if "key_a \<noteq> key_b"
    using that by (simp add: require_unique_indices_def router_ops Let_def)
  show "bind_after_removal_is_ignored public_key = Some ()"
    by (simp add: bind_after_removal_is_ignored_def router_ops Let_def)
qed

section \<open>Packets\<close>

definition packet_dst :: "bytes \<Rightarrow> IpAddr option option" where
  "packet_dst packet = map_option (map_option pi_destination) (packet_info packet)"

definition packet_src :: "bytes \<Rightarrow> IpAddr option option" where
  "packet_src packet = map_option (map_option pi_source) (packet_info packet)"

definition ipv4_packet :: "bytes \<Rightarrow> bytes \<Rightarrow> bytes" where
  "ipv4_packet source destination = [0x45, 0, 0, 20] @ replicate 8 0 @ source @ destination"

definition ipv6_packet :: "128 word \<Rightarrow> 128 word \<Rightarrow> bytes" where
  "ipv6_packet source destination = [0x60, 0, 0, 0, 0, 0, 0, 0] @ octets (V6 source) @ octets (V6 destination)"

definition extracts_v4_addresses :: "unit option" where
  "extracts_v4_addresses = do {
     let pkt = ipv4_packet [10, 0, 0, 1] [10, 0, 0, 2];
     source \<leftarrow> packet_src pkt;
     assert_true (source = Some (ip4 10 0 0 1));
     destination \<leftarrow> packet_dst pkt;
     assert_true (destination = Some (ip4 10 0 0 2))
   }"

definition extracts_v6_addresses :: "unit option" where
  "extracts_v6_addresses = do {
     let src = 0xfd000000000000000000000000000001;
     let dst = 0xfd000000000000000000000000000002;
     let pkt = ipv6_packet src dst;
     source \<leftarrow> packet_src pkt;
     assert_true (source = Some (V6 src));
     destination \<leftarrow> packet_dst pkt;
     assert_true (destination = Some (V6 dst))
   }"

definition pads_and_trims_ipv4_packets :: "unit option" where
  "pads_and_trims_ipv4_packets = do {
     let original = ipv4_packet [10, 0, 0, 1] [10, 0, 0, 2] @ ascii ''payload'';
     let original_len = (of_nat (length original) :: u16);
     original \<leftarrow> copy_into original 2 4 (be_bytes original_len);
     let (padded, packet) = pad_packet original MAX_PLAINTEXT_SIZE;
     assert_true padded;
     assert_true (length packet mod TRANSPORT_PADDING_MULTIPLE = 0);
     front \<leftarrow> subslice packet 0 (length original);
     assert_true (front = original);
     assert_true (\<forall>byte \<in> set (drop (length original) packet). byte = 0);
     info \<leftarrow> packet_info packet;
     info \<leftarrow> info;
     assert_true (take (pi_len info) packet = original)
   }"

definition pads_and_trims_ipv6_packets :: "unit option" where
  "pads_and_trims_ipv6_packets = do {
     let src = 0xfd000000000000000000000000000001;
     let dst = 0xfd000000000000000000000000000002;
     let original = ipv6_packet src dst @ ascii ''payload'';
     original \<leftarrow> copy_into original 4 6 (be_bytes (7 :: u16));
     let (padded, packet) = pad_packet original MAX_PLAINTEXT_SIZE;
     assert_true padded;
     assert_true (length packet mod TRANSPORT_PADDING_MULTIPLE = 0);
     assert_true (\<forall>byte \<in> set (drop (length original) packet). byte = 0);
     info \<leftarrow> packet_info packet;
     info \<leftarrow> info;
     assert_true (take (pi_len info) packet = original)
   }"

definition padding_does_not_exceed_the_inner_mtu :: "unit option" where
  "padding_does_not_exceed_the_inner_mtu = do {
     let packet = ipv4_packet [10, 0, 0, 1] [10, 0, 0, 2] @ ascii ''payload'';
     packet \<leftarrow> copy_into packet 2 4 (be_bytes (27 :: u16));
     let (padded, packet) = pad_packet packet 30;
     assert_true padded;
     assert_true (length packet = 30);
     assert_true (\<forall>byte \<in> set (drop 27 packet). byte = 0);
     let (padded, packet) = pad_packet packet 26;
     assert_true (\<not> padded)
   }"

definition rejects_short_and_unknown :: "unit option" where
  "rejects_short_and_unknown = do {
     destination \<leftarrow> packet_dst [];
     assert_true (destination = None);
     destination \<leftarrow> packet_dst [0x45, 0, 0];
     assert_true (destination = None);
     destination \<leftarrow> packet_dst [0x25, 0, 0, 0];
     assert_true (destination = None);
     let invalid_ihl = (ipv4_packet [10, 0, 0, 1] [10, 0, 0, 2])[0 := 0x44];
     info \<leftarrow> packet_info invalid_ihl;
     assert_true (info = None);
     invalid_v4_len \<leftarrow> copy_into (ipv4_packet [10, 0, 0, 1] [10, 0, 0, 2]) 2 4 (be_bytes (21 :: u16));
     info \<leftarrow> packet_info invalid_v4_len;
     assert_true (info = None);
     invalid_v6_len \<leftarrow> copy_into (ipv6_packet 1 1) 4 6 (be_bytes (1 :: u16));
     info \<leftarrow> packet_info invalid_v6_len;
     assert_true (info = None)
   }"

lemma extracts_tests_pass: "extracts_v4_addresses = Some ()" "extracts_v6_addresses = Some ()"
  unfolding extracts_v4_addresses_def extracts_v6_addresses_def by code_simp+

lemma rejects_test_passes: "rejects_short_and_unknown = Some ()"
  unfolding rejects_short_and_unknown_def by code_simp

lemma mtu_test_passes: "padding_does_not_exceed_the_inner_mtu = Some ()"
  unfolding padding_does_not_exceed_the_inner_mtu_def by code_simp

lemma pad_packet_concrete:
  "length p = 27 \<Longrightarrow> pad_packet p MAX_PLAINTEXT_SIZE = (True, p @ replicate 5 0)"
  "length p = 47 \<Longrightarrow> pad_packet p MAX_PLAINTEXT_SIZE = (True, p @ replicate 1 0)"
  by (simp_all add: pad_packet_eq MAX_PLAINTEXT_SIZE_def MAX_IPV4_UDP_PAYLOAD_SIZE_def next_multiple_of_def)

lemma pads_and_trims_ipv4_passes: "pads_and_trims_ipv4_packets = Some ()"
proof -
  let ?p = "[0x45, 0, 0, 27] @ replicate 8 0 @ [10, 0, 0, 1, 10, 0, 0, 2] @ ascii ''payload''"
  have "let original = ipv4_packet [10, 0, 0, 1] [10, 0, 0, 2] @ ascii ''payload''
      in copy_into original 2 4 (be_bytes (of_nat (length original) :: u16)) = Some ?p" by code_simp
  moreover have "packet_info (?p @ replicate 5 0) =
      Some (Some \<lparr>pi_source = ip4 10 0 0 1, pi_destination = ip4 10 0 0 2, pi_len = 27\<rparr>)" by code_simp
  moreover have "length ?p = 27" by (simp add: ascii_def)
  ultimately show ?thesis
    by (simp add: pads_and_trims_ipv4_packets_def Let_def pad_packet_concrete subslice_def sub_def del: append_Cons append_assoc)
qed

lemma pads_and_trims_ipv6_passes: "pads_and_trims_ipv6_packets = Some ()"
proof -
  let ?a = "\<lambda>n. 0xfd # replicate 14 0 @ [n]"
  let ?p = "[0x60, 0, 0, 0, 0, 7, 0, 0] @ ?a 1 @ ?a 2 @ ascii ''payload''"
  have "copy_into (ipv6_packet 0xfd000000000000000000000000000001 0xfd000000000000000000000000000002 @ ascii ''payload'') 4 6
      (be_bytes (7 :: u16)) = Some ?p" by code_simp
  moreover have "packet_info (?p @ replicate 1 0) = Some (Some \<lparr>pi_source = V6 0xfd000000000000000000000000000001,
      pi_destination = V6 0xfd000000000000000000000000000002, pi_len = 47\<rparr>)" by code_simp
  moreover have "length ?p = 47" by (simp add: ascii_def)
  ultimately show ?thesis
    by (simp add: pads_and_trims_ipv6_packets_def Let_def pad_packet_concrete del: append_Cons append_assoc)
qed

section \<open>Timers of a session\<close>

text \<open>The jitter that \<open>data_sent\<close> draws is an argument.\<close>

definition an_idle_session_only_expires :: "unit option" where
  "an_idle_session_only_expires = do {
     let now = Instant_default;
     let session = ActorSession_new True now;
     assert_true (expires_at session = instant_add now REJECT_AFTER_TIME);
     assert_true (as_keepalive_at session = None);
     assert_true (as_new_handshake_at session = None);
     assert_true (usable session now);
     assert_true (\<not> usable session (instant_add now REJECT_AFTER_TIME))
   }"

definition received_payload_owes_a_passive_keepalive :: "unit option" where
  "received_payload_owes_a_passive_keepalive = do {
     let now = Instant_default;
     let session = ActorSession_new False now;
     let session = packet_received now False session;
     assert_true (as_keepalive_at session = None);
     let session = packet_received now True session;
     assert_true (as_keepalive_at session = Some (instant_add now KEEPALIVE_TIMEOUT));
     let session = keepalive_sent session;
     assert_true (as_keepalive_at session = None)
   }"

definition unanswered_data_arms_a_new_handshake :: "Duration \<Rightarrow> Duration \<Rightarrow> unit option" where
  "unanswered_data_arms_a_new_handshake jitter1 jitter2 = do {
     let now = Instant_default;
     let session = ActorSession_new True now;
     let earliest = instant_add (instant_add now KEEPALIVE_TIMEOUT) REKEY_TIMEOUT;
     let session = data_sent session now jitter1;
     deadline \<leftarrow> as_new_handshake_at session;
     assert_true (earliest \<le> deadline \<and> deadline < instant_add earliest REKEY_TIMEOUT_JITTER_MAX);
     let session = data_sent session (instant_add now (from_secs 1)) jitter2;
     assert_true (as_new_handshake_at session = Some deadline);
     let session = packet_received (instant_add now (from_secs 2)) False session;
     assert_true (as_new_handshake_at session = None)
   }"

definition keepalive_and_new_handshake_deadlines_are_exclusive :: "Duration \<Rightarrow> unit option" where
  "keepalive_and_new_handshake_deadlines_are_exclusive jitter = do {
     let now = Instant_default;
     let session = ActorSession_new True now;
     let session = packet_received now True session;
     assert_true (as_keepalive_at session = Some (instant_add now KEEPALIVE_TIMEOUT));
     let session = data_sent session now jitter;
     assert_true (as_keepalive_at session = None);
     assert_true (as_new_handshake_at session \<noteq> None);
     let session = packet_received now True session;
     assert_true (as_new_handshake_at session = None);
     assert_true (as_keepalive_at session = Some (instant_add now KEEPALIVE_TIMEOUT))
   }"

definition initiator_rekeys_before_session_expiry :: "unit option" where
  "initiator_rekeys_before_session_expiry = do {
     let now = Instant_default;
     let initiator = ActorSession_new True now;
     let responder = ActorSession_new False now;
     let send_at = instant_add now REKEY_AFTER_TIME;
     assert_true (\<not> rekey_after_send initiator (instant_add now (REKEY_AFTER_TIME - from_millis 1)));
     assert_true (rekey_after_send initiator send_at);
     assert_true (\<not> rekey_after_send responder send_at);
     let recv_at = instant_add now REKEY_AFTER_TIME_RECEIVING;
     assert_true (\<not> rekey_after_receive initiator (instant_add now (REKEY_AFTER_TIME_RECEIVING - from_millis 1)));
     assert_true (rekey_after_receive initiator recv_at);
     assert_true (\<not> rekey_after_receive responder recv_at)
   }"

definition gso_batches_stay_under_the_udp_send_limit :: "unit option" where
  "gso_batches_stay_under_the_udp_send_limit = do {
     let mtu_sized = packet_len 1420;
     let limit = max_batch_segments 64 mtu_sized;
     assert_true (limit * mtu_sized \<le> MAX_MESSAGE_SIZE);
     assert_true ((limit + 1) * mtu_sized > MAX_MESSAGE_SIZE);
     assert_true (max_batch_segments 64 (packet_len 0) = 64);
     assert_true (max_batch_segments 64 MAX_MESSAGE_SIZE = 1)
   }"

lemma default_add [simp]: "d \<le> DURATION_MAX \<Longrightarrow> instant_add Instant_default d = Instant d"
  by (simp add: instant_add_def saturating_add_def Instant_default_def)

lemma since_epoch_default [simp]: "since_epoch Instant_default = 0"
  by (simp add: Instant_default_def)

lemma test_times:
  "REJECT_AFTER_TIME \<le> DURATION_MAX" "REKEY_AFTER_TIME \<le> DURATION_MAX" "REKEY_AFTER_TIME_RECEIVING \<le> DURATION_MAX"
  "KEEPALIVE_TIMEOUT \<le> DURATION_MAX" "0 < REJECT_AFTER_TIME" "0 < REKEY_AFTER_TIME" "0 < REKEY_AFTER_TIME_RECEIVING" "0 < from_millis 1"
  "REKEY_ATTEMPT_TIME \<le> DURATION_MAX"
  "KEEPALIVE_TIMEOUT + REKEY_TIMEOUT + REKEY_TIMEOUT_JITTER_MAX \<le> DURATION_MAX"
  by (simp_all add: time_consts DURATION_MAX_def)

lemma timer_tests_pass:
  "received_payload_owes_a_passive_keepalive = Some ()" "keepalive_and_new_handshake_deadlines_are_exclusive jitter = Some ()"
  unfolding received_payload_owes_a_passive_keepalive_def keepalive_and_new_handshake_deadlines_are_exclusive_def
  by (simp_all add: ActorSession_new_def packet_received_def keepalive_sent_def data_sent_def)

lemma idle_session_test_passes: "an_idle_session_only_expires = Some ()"
  using test_times by (simp add: an_idle_session_only_expires_def ActorSession_new_def expires_at_def usable_def less_Instant_def)

lemma rekey_test_passes: "initiator_rekeys_before_session_expiry = Some ()"
proof -
  have "duration_since (Instant d) Instant_default = d" for d
    by (simp add: duration_since_def saturating_sub_def Instant_default_def)
  then show ?thesis using test_times
    by (simp add: initiator_rekeys_before_session_expiry_def ActorSession_new_def rekey_after_send_def rekey_after_receive_def
        not_le diff_less)
qed

lemma unanswered_test_passes:
  assumes "jitter < REKEY_TIMEOUT_JITTER_MAX"
  shows "unanswered_data_arms_a_new_handshake jitter jitter' = Some ()"
  using assms test_times(10)
  by (simp add: unanswered_data_arms_a_new_handshake_def ActorSession_new_def data_sent_def packet_received_def
      less_Instant_def less_eq_Instant_def min_def)

lemma gso_test_passes: "gso_batches_stay_under_the_udp_send_limit = Some ()"
  by (simp add: gso_batches_stay_under_the_udp_send_limit_def max_batch_segments_def MAX_MESSAGE_SIZE_def packet_len_def)

section \<open>The actor\<close>

fun rekey_jitter_draws :: "'ts env \<Rightarrow> nat \<Rightarrow> 'ts PeerActor \<Rightarrow> unit option" where
  "rekey_jitter_draws E 0 a = Some ()"
| "rekey_jitter_draws E (Suc n) a = do {
     let (jitter, a) = rekey_jitter E a;
     assert_true (jitter < REKEY_TIMEOUT_JITTER_MAX);
     rekey_jitter_draws E n a
   }"

definition rekey_jitter_stays_within_the_spec_bound :: "'ts env \<Rightarrow> 'ts PeerActor \<Rightarrow> unit option" where
  "rekey_jitter_stays_within_the_spec_bound E a = rekey_jitter_draws E 100 a"

definition test_actor :: "crypto \<Rightarrow> bytes \<Rightarrow> bytes \<Rightarrow> Duration option \<Rightarrow> 'ts PeerActor" where
  "test_actor C our_key peer_key persistent_keepalive =
     \<lparr>pa_our_key = our_key, pa_machine = Peer_new C peer_key, pa_persistent_keepalive = persistent_keepalive,
      pa_last_send = Instant_default, pa_handshake = None, pa_session = None, pa_session_tx = False, pa_staged = [],
      pa_status = status_new peer_key, pa_control = [], pa_wire = [], pa_inbound = [], pa_tick = 0\<rparr>"

definition persistent_keepalive_survives_without_a_session ::
  "crypto \<Rightarrow> 'ts tai \<Rightarrow> 'ts env \<Rightarrow> bytes \<Rightarrow> bytes \<Rightarrow> SocketAddr \<Rightarrow> unit option" where
  "persistent_keepalive_survives_without_a_session C T E our_key peer_key endpoint = do {
     let interval = from_secs 25;
     let actor = test_actor C our_key peer_key (Some interval);
     assert_true (persistent_keepalive_at actor = None);
     let actor = actor\<lparr>pa_machine := set_endpoint (pa_machine actor) endpoint\<rparr>;
     assert_true (persistent_keepalive_at actor = Some (instant_add Instant_default interval));
     actor \<leftarrow> persistent_keepalive_due C T E actor;
     assert_true (pa_handshake actor \<noteq> None);
     assert_true (st_tx_bytes (pa_status actor) > 0);
     at \<leftarrow> persistent_keepalive_at actor;
     let (now, actor) = read_env (env_now E) actor;
     assert_true (at > now)
   }"

text \<open>\<open>tokio::time::advance\<close> on the paused clock.\<close>

definition advance_clock :: "'ts env \<Rightarrow> Duration \<Rightarrow> 'ts env" where
  "advance_clock E d = E\<lparr>env_now := \<lambda>k. instant_add (env_now E k) d\<rparr>"

definition handshake_abandoned_after_attempt_time ::
  "crypto \<Rightarrow> 'ts tai \<Rightarrow> 'ts env \<Rightarrow> bytes \<Rightarrow> bytes \<Rightarrow> SocketAddr \<Rightarrow> unit option" where
  "handshake_abandoned_after_attempt_time C T E our_key peer_key endpoint = do {
     let actor = test_actor C our_key peer_key None;
     let actor = actor\<lparr>pa_machine := set_endpoint (pa_machine actor) endpoint\<rparr>;
     actor \<leftarrow> ensure_handshake C T E actor;
     first \<leftarrow> pa_handshake actor;
     assert_true (ha_retry_at first \<ge> instant_add Instant_default REKEY_TIMEOUT);
     assert_true (ha_retry_at first < instant_add (instant_add Instant_default REKEY_TIMEOUT) REKEY_TIMEOUT_JITTER_MAX);
     actor \<leftarrow> handshake_due C T E actor;
     retransmitted \<leftarrow> pa_handshake actor;
     assert_true (ha_first_sent retransmitted = ha_first_sent first);
     actor \<leftarrow> handshake_due C T (advance_clock E REKEY_ATTEMPT_TIME) actor;
     assert_true (pa_handshake actor = None)
   }"

definition idle_peer_has_no_deadline :: "crypto \<Rightarrow> bytes \<Rightarrow> bytes \<Rightarrow> SocketAddr \<Rightarrow> unit option" where
  "idle_peer_has_no_deadline C our_key peer_key endpoint = do {
     let actor = (test_actor C our_key peer_key None :: unit PeerActor);
     let actor = actor\<lparr>pa_machine := set_endpoint (pa_machine actor) endpoint\<rparr>;
     assert_true (persistent_keepalive_at actor = None);
     assert_true (pa_handshake actor = None);
     assert_true (pa_session actor = None)
   }"

lemma jitter_draws_pass:
  assumes "env_ok E"
  shows "rekey_jitter_draws E n a = Some ()"
proof (induction n arbitrary: a)
  case (Suc n)
  then show ?case using jitter_bound [OF assms, of "pa_tick a"] by (simp add: rekey_jitter_def read_env_eq)
qed simp

lemma jitter_test_passes: "env_ok E \<Longrightarrow> rekey_jitter_stays_within_the_spec_bound E a = Some ()"
  by (simp add: rekey_jitter_stays_within_the_spec_bound_def jitter_draws_pass)

lemma idle_test_passes: "idle_peer_has_no_deadline C our_key peer_key endpoint = Some ()"
  by (simp add: idle_peer_has_no_deadline_def test_actor_def persistent_keepalive_at_def)

text \<open>What sending a handshake message leaves behind, whatever comes of the message.\<close>

lemma attempt_made:
  assumes C: "crypto_ok C" and T: "tai_ok T" and m: "Peer_ok (pa_machine a)" "p_endpoint (pa_machine a) = Some e"
  obtains b where "send_handshake C T E a first_sent = Some b" "Peer_ok (pa_machine b)" "p_endpoint (pa_machine b) = Some e"
    "pa_handshake b = Some \<lparr>ha_first_sent = first_sent, ha_retry_at = instant_add (instant_add (clock E a) REKEY_TIMEOUT)
      (from_millis (env_random_range E (pa_tick a + 1) (REKEY_TIMEOUT_JITTER_MAX div 1000000)))\<rparr>"
proof -
  obtain r q msg where "Peer_initiate C T (pa_machine a) (pa_our_key a) (values_at E (pa_tick a + 2)) (replicate INIT_MSG_LENGTH 0) =
      Some (r, q, msg)" "Peer_ok q" "p_endpoint q = Some e"
    using Peer_initiate_total [OF C T m(1), of "pa_our_key a" "values_at E (pa_tick a + 2)" "replicate INIT_MSG_LENGTH 0"] m(2)
    by (auto simp: same_sessions_def)
  then show thesis using m(2)
    by (intro that [of "the (send_handshake C T E a first_sent)"])
      (auto simp: send_handshake_def HandshakeAttempt_new_def rekey_jitter_def read_env_eq fresh_values_at clock_def Let_def
        retire_index_eq bind_index_def socket_send_def count_sent_def update_status_def split: sum.split)
qed

lemma abandoned_test_passes:
  fixes T :: "'ts::linorder tai"
  assumes C: "crypto_ok C" and T: "tai_ok T" and E: "env_ok E" and paused: "\<forall>k. env_now E k = Instant_default"
  shows "handshake_abandoned_after_attempt_time C T E our_key peer_key endpoint = Some ()"
proof -
  define a :: "'ts PeerActor" where "a = (test_actor C our_key peer_key None)\<lparr>pa_machine := set_endpoint (Peer_new C peer_key) endpoint\<rparr>"
  let ?a = "a\<lparr>pa_tick := 1\<rparr>"
  have "Peer_ok (set_endpoint (Peer_new C peer_key) endpoint :: 'ts Peer)" using Peer_ok_new [OF C] by (auto simp: set_endpoint_def peer_inv)
  then have a: "Peer_ok (pa_machine ?a)" "p_endpoint (pa_machine ?a) = Some endpoint" by (simp_all add: a_def set_endpoint_def)
  obtain b where b: "send_handshake C T E ?a Instant_default = Some b" "Peer_ok (pa_machine b)" "p_endpoint (pa_machine b) = Some endpoint"
    "pa_handshake b = Some \<lparr>ha_first_sent = Instant_default, ha_retry_at = instant_add (instant_add (clock E ?a) REKEY_TIMEOUT)
      (from_millis (env_random_range E (pa_tick ?a + 1) (REKEY_TIMEOUT_JITTER_MAX div 1000000)))\<rparr>"
    by (rule attempt_made [OF C T a])
  let ?b = "b\<lparr>pa_tick := pa_tick b + 1\<rparr>"
  have b': "Peer_ok (pa_machine ?b)" "p_endpoint (pa_machine ?b) = Some endpoint" using b by simp_all
  obtain c t where c: "send_handshake C T E ?b Instant_default = Some c" "pa_handshake c = Some \<lparr>ha_first_sent = Instant_default, ha_retry_at = t\<rparr>"
    by (rule attempt_made [OF C T b'])
  have ensure: "ensure_handshake C T E a = Some b"
    using b(1) paused by (simp add: ensure_handshake_def a_def test_actor_def read_env_eq)
  have due: "handshake_due C T E b = Some c"
    using b(4) c(1) paused by (simp add: handshake_due_def read_env_eq time_consts)
  obtain d where over: "handshake_due C T (advance_clock E REKEY_ATTEMPT_TIME) c = Some d" "pa_handshake d = None"
    using c(2) paused test_times
    by (simp add: handshake_due_def read_env_eq advance_clock_def abandon_handshake_def retire_index_eq duration_since_def saturating_sub_def)
  have "from_millis (env_random_range E (Suc (Suc 0)) (REKEY_TIMEOUT_JITTER_MAX div 1000000)) < REKEY_TIMEOUT_JITTER_MAX" by (rule jitter_bound [OF E])
  then show ?thesis using ensure due over b(4) c(2) paused test_times(10)
    by (simp add: handshake_abandoned_after_attempt_time_def a_def test_actor_def clock_def less_Instant_def less_eq_Instant_def min_def)
qed

lemma send_handshake_counted:
  assumes "p_endpoint (pa_machine a) = Some e" and "\<forall>k. env_socket_send E k"
    and "Peer_initiate C T (pa_machine a) (pa_our_key a) (values_at E (pa_tick a + 2)) (replicate INIT_MSG_LENGTH 0) = Some (Inr old, q, m)"
  shows "\<exists>b. send_handshake C T E a t = Some b \<and> pa_handshake b \<noteq> None \<and> pa_machine b = q \<and> pa_tick b = pa_tick a + 7 \<and>
    st_tx_bytes (pa_status b) = st_tx_bytes (pa_status a) + of_nat (length m) \<and> pa_last_send b = clock E a \<and>
    pa_persistent_keepalive b = pa_persistent_keepalive a"
  using assms
  by (simp add: send_handshake_def HandshakeAttempt_new_def rekey_jitter_def read_env_eq fresh_values_at clock_def retire_index_eq
      bind_index_def socket_send_def count_sent_def update_status_def Let_def)

lemma survives_test_passes:
  fixes T :: "'ts::linorder tai"
  assumes C: "crypto_ok C" and T: "tai_ok T" and up: "\<forall>k. env_socket_send E k"
    and es: "was_contributory C (x25519_dh C (env_secret E 5) (x25519_public C peer))"
    and ss: "was_contributory C (x25519_dh C our_key (x25519_public C peer))"
    and quick: "env_now E 9 < instant_add (env_now E 2) (from_secs 25)"
  shows "persistent_keepalive_survives_without_a_session C T E our_key (x25519_public C peer) endpoint = Some ()"
proof -
  let ?p = "set_endpoint (Peer_new C (x25519_public C peer)) endpoint :: 'ts Peer"
  have p: "Peer_ok ?p" "p_peer_key ?p = x25519_public C peer" using Peer_ok_new [OF C] by (auto simp: set_endpoint_def peer_inv Peer_new_def)
  have e: "was_contributory C (x25519_dh C (hv_ephemeral_secret (values_at E 4)) (x25519_public C peer))" using es by (simp add: values_at_def)
  obtain q m old where init: "Peer_initiate C T ?p our_key (values_at E 4) (replicate INIT_MSG_LENGTH 0) = Some (Inr old, q, m)"
    "length m = INIT_MSG_LENGTH"
    by (rule initiates [OF C T p e ss length_replicate [of _ 0]]) (rule that)
  have q: "p_endpoint q = Some endpoint"
    using Peer_initiate_total [OF C T p(1), of our_key "values_at E 4" "replicate INIT_MSG_LENGTH 0"] init(1)
    by (simp add: same_sessions_def set_endpoint_def)
  define a :: "'ts PeerActor" where "a = (test_actor C our_key (x25519_public C peer) (Some (from_secs 25)))\<lparr>pa_machine := ?p\<rparr>"
  let ?a = "a\<lparr>pa_tick := 2, pa_last_send := env_now E 0\<rparr>"
  obtain b where b: "send_handshake C T E ?a (env_now E 1) = Some b" "pa_handshake b \<noteq> None" "pa_machine b = q" "pa_tick b = 9"
    "st_tx_bytes (pa_status b) = 148" "pa_last_send b = env_now E 2" "pa_persistent_keepalive b = Some (from_secs 25)"
    using send_handshake_counted [of ?a endpoint E C T old q m "env_now E 1"] init up
    by (auto simp: a_def test_actor_def status_new_def set_endpoint_def clock_def)
  have due: "persistent_keepalive_due C T E a = Some b"
    using b(1) by (simp add: persistent_keepalive_due_def ensure_handshake_def read_env_eq a_def test_actor_def is_some_and_def numeral_2_eq_2)
  show ?thesis
    using due b q quick
    by (simp add: persistent_keepalive_survives_without_a_session_def persistent_keepalive_at_def read_env_eq a_def test_actor_def
        Peer_new_def set_endpoint_def)
qed

section \<open>The tunnel\<close>

definition PeerConfig_default :: PeerConfig where
  "PeerConfig_default = \<lparr>pc_endpoint = None, pc_preshared_key = None, pc_persistent_keepalive = None\<rparr>"

definition peer_registration :: "crypto \<Rightarrow> net_env \<Rightarrow> bytes \<Rightarrow> bytes \<Rightarrow> bytes \<Rightarrow> unit option" where
  "peer_registration C N secret sk_a pk_b = do {
     tunnel_a \<leftarrow> unwrap (Tunnel_new C N secret (Inr () :: unit + unit) sk_a :: unit + u64 Tunnel);
     let (r, tunnel_a) = Tunnel_add_peer C tunnel_a pk_b PeerConfig_default;
     peer_b \<leftarrow> unwrap r;
     let sender_b = Peer_sender peer_b;
     let (r, tunnel_a) = Tunnel_add_peer C tunnel_a pk_b PeerConfig_default;
     assert_true (r = Inl AlreadyRegistered);
     let tunnel_a = Peer_drop tunnel_a peer_b;
     assert_true (Tunnel_peer tunnel_a pk_b = None);
     let (r, tunnel_a) = PeerSender_try_send tunnel_a sender_b [];
     assert_true (r = Inl PeerRemoved);
     let (r, tunnel_a) = PeerSender_send tunnel_a sender_b [];
     assert_true (r = Ready (Inl PeerRemoved));
     let (r, tunnel_a) = Tunnel_add_peer C tunnel_a pk_b PeerConfig_default;
     _ \<leftarrow> unwrap r;
     assert_true (Tunnel_peer tunnel_a pk_b \<noteq> None)
   }"

text \<open>The wait of two seconds in \<open>drop_terminates_actors\<close> is the time the actor needs to return.\<close>

definition drop_terminates_actors ::
  "crypto \<Rightarrow> u64 tai \<Rightarrow> net_env \<Rightarrow> (chan \<Rightarrow> u64 env) \<Rightarrow> bytes \<Rightarrow> bytes \<Rightarrow> bytes \<Rightarrow> unit option" where
  "drop_terminates_actors C T N E secret sk_a pk_b = do {
     tunnel_a \<leftarrow> unwrap (Tunnel_new C N secret (Inr () :: unit + unit) sk_a :: unit + u64 Tunnel);
     let (r, tunnel_a) = Tunnel_add_peer C tunnel_a pk_b PeerConfig_default;
     peer_b \<leftarrow> unwrap r;
     let tunnel_a = Tunnel_drop tunnel_a;
     let returns = ActorExit (hd_session_rx peer_b);
     assert_true (tunnel_enabled C T E tunnel_a returns);
     tunnel_a \<leftarrow> tunnel_step C T N E tunnel_a returns;
     assert_true (Peer_ready tunnel_a peer_b = Ready (Inl TunnelClosed));
     let (r, tunnel_a) = Peer_send tunnel_a peer_b (ascii ''closed'');
     assert_true (r = Ready (Inl TunnelClosed))
   }"

lemma tunnel_tests_pass:
  "peer_registration C N secret sk_a pk_b = Some ()" "drop_terminates_actors C T N E secret sk_a pk_b = Some ()"
  unfolding peer_registration_def drop_terminates_actors_def
  by (simp_all add: Tunnel_new_def Tunnel_start_def Tunnel_start_with_guard_def Tunnel_add_peer_def PeerConfig_default_def router_ops
      Peer_handle_new_def Peer_drop_def Tunnel_peer_def peer_status_def PeerSender_try_send_def PeerSender_send_def PeerSender_entry_def
      Peer_sender_def Tunnel_drop_def orphan_def Peer_ready_def Peer_send_def spawn_def Let_def)

end
