(* ===== verification/Spec2Isabelle.thy ===== *)
theory Spec2Isabelle
  imports Program Delivery Tunnel_Tests
begin

text \<open>
  A verification library for the WireGuard implementation \<open>tunstile\<close>, the Rust workspace under \<open>src/\<close>.

  \<^bold>\<open>The program.\<close> The crate \<open>protocol\<close> is the protocol without I/O: messages, cryptography, handshake, transport and
  a state machine per peer, all driven by calls that get the time and the randomness as arguments.
  The crate \<open>tunnel\<close> adds UDP: a read loop takes datagrams from the socket and hands them through bounded queues to one
  actor per peer, which owns the peer's state machine and its timers; handles held by the user feed the
  same queues. The crate \<open>tunstile\<close> adds IP: a device routes packets to peers by their allowed prefixes and checks
  the source of what comes back; its program reads a configuration and moves packets between a device and a
  TUN interface.

  \<^bold>\<open>The theories.\<close> They follow the crates bottom up.
  \<^item> \<open>Prelude\<close>, \<open>Timebase\<close>, \<open>Net\<close>, \<open>Text\<close>, \<open>Runs\<close>: slices, buffers and words; \<open>protocol/src/time.rs\<close> and the protocol's
    time constants; addresses; strings; runs of state machines.
  \<^item> \<open>Wire\<close>: message types and the header parser (\<open>protocol/src/lib.rs\<close>).
  \<^item> \<open>Replay\<close>: the sliding-window filter (\<open>ReplayFilter\<close> of \<open>protocol/src/transport.rs\<close>), refined from a set of counters.
  \<^item> \<open>Crypto\<close>, \<open>Example_Crypto\<close>: \<open>protocol/src/crypto.rs\<close> over the primitives of the crypto crates; a toy instance of the latter.
  \<^item> \<open>Transport\<close>, \<open>Cookies\<close>, \<open>Handshake\<close>, \<open>Keys\<close>: the files of these names (\<open>keys.rs\<close> for the last).
  \<^item> \<open>Load\<close>, \<open>Session\<close>, \<open>Peer\<close>: \<open>protocol/src/peer/load.rs\<close>, \<open>protocol/src/peer/session.rs\<close>, \<open>protocol/src/peer.rs\<close>.
  \<^item> \<open>Router\<close>: \<open>tunnel/src/router.rs\<close>, the registry of peers and the table of receiver indices, with the
    queues between the read loop, the actors and the handles.
  \<^item> \<open>Socket\<close>: the datagrams handed to the socket and the retry loops of \<open>tunnel/src/socket.rs\<close>.
  \<^item> \<open>Actor\<close>: \<open>tunnel/src/actor.rs\<close>, one round of the actor's loop; \<open>Actor_Sends\<close>, \<open>Actor_Inv\<close>, \<open>Actor_Logs\<close>,
    \<open>Actor_Runs\<close>, \<open>Actor_Handshake\<close>: its sends, its invariant, what it has asked of others, its properties, and the rounds of a handshake.
  \<^item> \<open>ReadLoop\<close>, \<open>Tunnel\<close>, \<open>Tunnel_Runs\<close>: the loop and the tunnel of \<open>tunnel/src/lib.rs\<close> and the handles of \<open>tunnel/src/peer.rs\<close>.
  \<^item> \<open>AllowedIps\<close>, \<open>Device\<close>, \<open>Device_Runs\<close>: \<open>tunstile/src/allowed_ips.rs\<close>, \<open>tunstile/src/lib.rs\<close>, \<open>tunstile/src/config.rs\<close>.
  \<^item> \<open>Config\<close>, \<open>Program\<close>: \<open>tunstile/src/bin/tunstile.rs\<close>.
  \<^item> \<open>Network\<close>, \<open>Delivery\<close>: two devices and the datagrams between them, from their creation to the first packet; the property that
    spans all components is at the end of this theory.
  \<^item> \<open>Protocol_Tests\<close>, \<open>Tunnel_Tests\<close>: unit tests of the three crates, run on the definitions above.

  \<^bold>\<open>State and effects.\<close> A struct is a record, an enum a datatype, and a method a function that returns the new state; buffers are
  passed in and returned. A function that can panic returns an option, \<open>None\<close> being the panic, so that arithmetic
  overflow, slices out of range and \<open>expect\<close> are branches of the model; \<open>Result\<close> is a sum with the error on the left. \<open>usize\<close> is \<open>nat\<close>,
  integers of fixed width are words, times are nanoseconds. An asynchronous call returns \<open>Ready\<close> or \<open>Pending\<close>, and a call that
  waits is polled again by a step of its own. The concurrent parts of the tunnel are one state whose steps, in any
  order, are the rounds of the read loop, the rounds of the actors and the calls of the user. Every such state machine is
  an instance of one of the two contracts of \<open>Runs\<close>: actor, tunnel, device and network of \<open>guarded\<close>, whose steps depend on the state, and peer
  and routing tables of \<open>stateful\<close>, whose steps are always possible. The filter and the prefix table are instances of contracts of their own.

  \<^bold>\<open>Parameters.\<close> Code outside the repository is an argument, with its documented behaviour as a predicate: the crypto crates (\<open>crypto_ok\<close>), the
  TAI64N clock (\<open>tai_ok\<close>), \<open>ipnet\<close> (\<open>ipnet_ok\<close>), base64 (\<open>base64_ok\<close>), the writing and parsing of addresses (\<open>printer_ok\<close>), and what the socket,
  the clocks and the random generators answer (\<open>env_ok\<close> for an actor, \<open>net_env_ok\<close> for the read loop). Each has an
  instance that satisfies its predicate, on which the witnesses are evaluated.

  \<^bold>\<open>What is shown.\<close>
  \<^item> Protocol: the header parser accepts exactly the protocol's packets; a handshake makes both sides agree on
    one session; the filter is equivalent to its specification; no nonce is used twice, no packet
    is accepted twice, and what is sent arrives; replayed initiations and expired keys are refused; the
    cookie exchange works and the load guard limits the rate.
  \<^item> Tunnel: an actor, and the tunnel as a whole, never panics; no receiver index leaks; payloads are sent, kept or
    flushed after the handshake; messages reach only the actor they are for; removed peers are unreachable.
  \<^item> Device: prefixes, peers and the tunnel's registry agree in every reachable state; outbound packets go to
    the longest prefix, inbound packets come from the owner of their source, and a packet survives the way.
  \<^item> Program: keys and configurations are read as they are written, the program comes up with what it read, and
    only a failing TUN interface ends its packet loop.
  \<^item> The model agrees with the code's own expectations: the translated tests pass, for all keys and readings that they could draw.
  \<^item> All together: two devices set up for each other bring up a session by themselves and deliver the packet that one of them was given.

  \<^bold>\<open>Termination.\<close> No fuel is used. Loops are structurally recursive or carry a measure: \<open>kdf_loop\<close> and \<open>flush_loop\<close> (the
  outputs and payloads left), \<open>segment_loop\<close> (the bytes of the batch left), \<open>recv_packet\<close> (the packets queued). The retry loops of the
  socket may run for ever and are partial functions that return exactly if some attempt does not block.
  The endless loops of the program (read loop, actor, packet loop) are given by their rounds.

  \<^bold>\<open>Not modelled.\<close> Binding sockets, \<open>tokio\<close> and \<open>quinn-udp\<close>, reading clocks and random numbers, the TUN device and the runs of the \<open>route\<close> command are I/O;
  their answers are parameters. Logging, the reading of arguments and files, \<open>local_addr\<close> and the texts of most of the program's
  failures have no effect on the rest. Zeroing of secrets and constant-time comparison are about memory and time, which the
  model does not have. Benchmarks and the interoperability example exercise the code and hold none of its logic. Of the tests, those with several tunnels run
  on real sockets are left out, those on test vectors or the absence of hash collisions need the primitives themselves,
  and the test of the keys asserts a text for debugging.
  Flow labels and scope ids of IPv6 socket addresses are never read and left out.
\<close>

section \<open>The whole way of a packet\<close>

text \<open>
  C2: two devices that have just been set up for each other can talk. One knows the other's address, the other only waits; their preshared
  keys match and each has a prefix for the other. A well-formed packet within the MTU that the first device is given is
  accepted at once; and without any further call, by nothing but rounds of the actors, routing updates and the delivery of datagrams the
  other host has sent, the two hosts get to a consistent state in which the second device returns exactly that packet: the
  handshake has gone back and forth, the packet that had to wait for it has been sent, has been found authentic and
  new, and comes from the owner of its source. This needs sockets and queues that take what they are given, Diffie-Hellman results that are
  contributory and clocks by which sessions do not expire meanwhile.
\<close>

theorem first_packet_arrives:
  fixes a b :: "('net, 'ts::linorder) Device" and E :: "party \<Rightarrow> chan \<Rightarrow> 'ts env" and T :: "'ts tai"
  assumes "crypto_ok C" and "tai_ok T" and "ipnet_ok N" and "\<forall>h. net_env_ok (NE h) \<and> (\<forall>ch. env_ok (E h ch))"
    and "fresh_device N C (NE Alice) config_a (x25519_public C (dc_private_key config_b)) peer_b a"
    and "fresh_device N C (NE Bob) config_b (x25519_public C (dc_private_key config_a)) peer_a b"
    and "dpc_endpoint peer_b = Some (addr Bob)" and "dpc_endpoint peer_a = None"
    and "dpc_preshared_key peer_a = dpc_preshared_key peer_b"
    and "\<forall>i. dpc_persistent_keepalive peer_a = Some i \<or> dpc_persistent_keepalive peer_b = Some i \<longrightarrow> i \<le> KEEPALIVE_MAX"
    and "packet_info packet = Some (Some info)" and "pi_len info \<le> dv_max_packet_size a"
    and "\<exists>n \<in> set (dpc_allowed_ips peer_b). net_contains N n (pi_destination info)"
    and "\<exists>n \<in> set (dpc_allowed_ips peer_a). net_contains N n (pi_source info)"
    and "\<forall>h. quiet (E h 0)"
    and "contributory_keys C (dc_private_key config_a) (dc_private_key config_b) (E Alice 0) (E Bob 0)"
  shows "\<exists>a' net b'. try_send_packet N a packet = Some (Inr (), a') \<and> network_reaches N C T NE E addr (both a' b) net \<and>
    network_ok N E net \<and> recv_packet N (net Bob) = Some (Ready (take (pi_len info) packet), b')"
proof -
  let ?ka = "dc_private_key config_a" and ?kb = "dc_private_key config_b"
  have ok: "host_ok C T (NE h) (E h)" for h using assms(1,2,4) by (simp add: host_ok_def)
  obtain a' sa sent where a: "try_send_packet N a packet = Some (Inr (), a')" "device_ok N (E Alice) a'"
    "configured C (E Alice) ?ka (x25519_public C ?kb) 0 (dv_tunnel a')"
    "phase (dv_tunnel a') 0 (spawn C ?ka (x25519_public C ?kb) (fst (PeerConfig_take_tunnel peer_b)) sa)
      [Connect (addr Bob), SendData sent] [] Map.empty [] 0"
    "well_formed sent info" "take (pi_len info) sent = take (pi_len info) packet" "sent \<noteq> []" "length sent < AEAD_P_MAX"
    by (rule fresh_sends [OF assms(1-3) _ _ assms(5,7) _ assms(11-13), where E = "E Alice"]) (use assms(4,10) in auto)
  obtain sb where b: "device_ok N (E Bob) b" "configured C (E Bob) ?kb (x25519_public C ?ka) 0 (dv_tunnel b)"
    "phase (dv_tunnel b) 0 (spawn C ?kb (x25519_public C ?ka) (fst (PeerConfig_take_tunnel peer_a)) sb) [] [] Map.empty [] 0"
    "longest_match N (dv_allowed_ips b) (pi_source info) = Some \<lparr>ps_public_key = x25519_public C ?ka, ps_chan = 0\<rparr>"
    by (rule fresh_listens [OF assms(1,3,6,8) _ assms(14), where E = "E Bob"]) (use assms(10) in auto)
  have psk: "pc_preshared_key (fst (PeerConfig_take_tunnel peer_b)) = pc_preshared_key (fst (PeerConfig_take_tunnel peer_a))"
    using assms(9) by (simp add: PeerConfig_take_tunnel_def)
  have q: "quiet (E Alice 0)" "quiet (E Bob 0)" using assms(15) by blast+
  obtain tA1 tB1 tA2 tB2 where
    run: "host_reaches C T (NE Alice) (E Alice) (addr Alice) (addr Bob) (dv_tunnel b) (dv_tunnel a') tA1"
      "host_reaches C T (NE Bob) (E Bob) (addr Bob) (addr Alice) tA1 (dv_tunnel b) tB1"
      "host_reaches C T (NE Alice) (E Alice) (addr Alice) (addr Bob) tB1 tA1 tA2"
      "host_reaches C T (NE Bob) (E Bob) (addr Bob) (addr Alice) tA2 tB1 tB2"
    and packet: "tn_inbound tB2 = [\<lparr>pk_public_key = x25519_public C ?ka, pk_payload = sent\<rparr>]"
    by (rule new_peers_talk [OF ok ok a(3,4) refl b(2,3) refl psk assms(16) q a(7,8)])
  let ?b = "b\<lparr>dv_tunnel := tB2\<rparr>"
  have "accepts N ?b \<lparr>pk_public_key = x25519_public C ?ka, pk_payload = sent\<rparr> (take (pi_len info) packet)"
    using a(5,6) b(4) by (auto simp: accepts_def)
  from recv_packet_Cons(1) [OF _ this] packet
  have "recv_packet N ?b = Some (Ready (take (pi_len info) packet), with_inbound ?b [])" by simp
  moreover have "network_ok N E (both a' b)" using a(2) b(1) by (simp add: network_ok_def both_def split: party.split)
  then have "network_ok N E (both (a'\<lparr>dv_tunnel := tA2\<rparr>) ?b)"
    using networks.reach_ok [OF four_turns [OF run, of N]] assms(1,2,4) by blast
  ultimately show ?thesis using a(1) four_turns [OF run] by (metis both_def party.case(2))
qed

text \<open>Two hosts for an example.\<close>

definition ex_addrs :: "party \<Rightarrow> SocketAddr" where
  "ex_addrs h = (case h of Alice \<Rightarrow> ex_addr | Bob \<Rightarrow> ex_addr\<lparr>sa_port := 51821\<rparr>)"

definition ex_envs :: "party \<Rightarrow> chan \<Rightarrow> u64 env" where
  "ex_envs h ch = (case h of Alice \<Rightarrow> ex_env | Bob \<Rightarrow> ex_env\<lparr>env_secret := (\<lambda>_. ex_key 4)\<rparr>)"

definition ex_side :: "bytes \<Rightarrow> DeviceConfig" where
  "ex_side key = \<lparr>dc_private_key = key, dc_mtu = Some 1420\<rparr>"

definition ex_link :: "SocketAddr option \<Rightarrow> ex_net DevicePeerConfig" where
  "ex_link endpoint = \<lparr>dpc_endpoint = endpoint, dpc_preshared_key = None, dpc_persistent_keepalive = None,
     dpc_allowed_ips = [Net (V4 0x0A000000) 8]\<rparr>"

definition ex_end :: "bytes \<Rightarrow> bytes \<Rightarrow> SocketAddr option \<Rightarrow> (ex_net, u64) Device" where
  "ex_end key peer endpoint =
     snd (Device_add_peer ex_ipnet ex_crypto (Device_start (Tunnel_start ex_crypto ex_net_env key (ex_key 6)) 1420)
       (x25519_public ex_crypto peer) (ex_link endpoint) :: (unit DeviceError + unit) \<times> _)"

lemma ex_end_fresh:
  "fresh_device ex_ipnet ex_crypto ex_net_env (ex_side key) (x25519_public ex_crypto (dc_private_key (ex_side peer)))
    (ex_link endpoint) (ex_end key peer endpoint)"
  using fresh_device_new [of "ex_key 6", OF _ refl, where N = ex_ipnet and C = ex_crypto and NE = ex_net_env and config = "ex_side key"
      and key = "x25519_public ex_crypto peer" and peer = "ex_link endpoint"]
  by (simp add: ex_end_def ex_side_def ex_key_def)

theorem first_packet_arrives_witness:
  "\<exists>a' net b'. try_send_packet ex_ipnet (ex_end (ex_key 1) (ex_key 2) (Some (ex_addrs Bob))) ex_ip = Some (Inr (), a') \<and>
    network_reaches ex_ipnet ex_crypto ex_tai (\<lambda>_. ex_net_env) ex_envs ex_addrs (both a' (ex_end (ex_key 2) (ex_key 1) None)) net \<and>
    network_ok ex_ipnet ex_envs net \<and> recv_packet ex_ipnet (net Bob) = Some (Ready ex_ip, b')"
proof -
  have size: "dv_max_packet_size (ex_end (ex_key 1) (ex_key 2) (Some (ex_addrs Bob))) = 1420"
    by (simp add: fresh_device_size [OF ex_end_fresh] ex_side_def MAX_PLAINTEXT_SIZE_eq)
  have env: "\<forall>h. net_env_ok ex_net_env \<and> (\<forall>ch. env_ok (ex_envs h ch))"
    using ex_loop_ok(1) ex_env_ok by (simp add: ex_envs_def env_ok_def split: party.split)
  have quiet: "\<forall>h. quiet (ex_envs h 0)"
    by (simp add: quiet_def ex_envs_def ex_env_def duration_since_def saturating_sub_def time_consts split: party.split)
  have keys: "contributory_keys ex_crypto (dc_private_key (ex_side (ex_key 1))) (dc_private_key (ex_side (ex_key 2)))
      (ex_envs Alice 0) (ex_envs Bob 0)"
    by (simp add: contributory_keys_def ex_envs_def ex_env_def ex_side_def)
  have nets: "\<exists>n \<in> set (dpc_allowed_ips (ex_link e)). net_contains ex_ipnet n (V4 0x0A000001)"
    "\<exists>n \<in> set (dpc_allowed_ips (ex_link e)). net_contains ex_ipnet n (V4 0x0A000002)" for e
    unfolding ex_link_def by code_simp+
  have "take 21 ex_ip = ex_ip" by (simp add: ex_ip_def)
  then show ?thesis
    using first_packet_arrives [OF ex_crypto_ok ex_tai_ok ex_ipnet_ok env ex_end_fresh ex_end_fresh _ _ _ _ ex_ip_info _ _ _ quiet keys,
      of "Some (ex_addrs Bob)" ex_addrs None] nets size
    by (simp add: ex_link_def)
qed

end
